theory Spec2Isabelle
  imports Complex_Main "HOL-Library.Multiset"
begin

section \<open>JavaScript numbers\<close>

text \<open>
  A JavaScript number is modelled as a finite real or \<open>NaN\<close>. Finite doubles are
  idealised as exact reals (no rounding) in the sums, differences and quotients below;
  the product of the volume is rounded (see \<open>fl\<close>). The infinities are not represented.
  Every operator propagates \<open>NaN\<close> and every comparison with \<open>NaN\<close> is false,
  as in the language.
\<close>

datatype jsnum = Num real | NaN

fun js_add :: "jsnum \<Rightarrow> jsnum \<Rightarrow> jsnum" where
  "js_add (Num a) (Num b) = Num (a + b)"
| "js_add _ _ = NaN"

fun js_sub :: "jsnum \<Rightarrow> jsnum \<Rightarrow> jsnum" where
  "js_sub (Num a) (Num b) = Num (a - b)"
| "js_sub _ _ = NaN"

fun js_mul :: "jsnum \<Rightarrow> jsnum \<Rightarrow> jsnum" where
  "js_mul (Num a) (Num b) = Num (a * b)"
| "js_mul _ _ = NaN"

fun js_half :: "jsnum \<Rightarrow> jsnum" where
  "js_half (Num a) = Num (a / 2)"
| "js_half NaN = NaN"

fun js_div :: "jsnum \<Rightarrow> jsnum \<Rightarrow> jsnum option" where
  "js_div (Num a) (Num b) = (if b = 0 then None else Some (Num (a / b)))"
| "js_div _ _ = Some NaN"

fun Math_abs :: "jsnum \<Rightarrow> jsnum" where
  "Math_abs (Num a) = Num \<bar>a\<bar>"
| "Math_abs NaN = NaN"

fun Math_max :: "jsnum \<Rightarrow> jsnum \<Rightarrow> jsnum" where
  "Math_max (Num a) (Num b) = Num (max a b)"
| "Math_max _ _ = NaN"

fun Math_min :: "jsnum \<Rightarrow> jsnum \<Rightarrow> jsnum" where
  "Math_min (Num a) (Num b) = Num (min a b)"
| "Math_min _ _ = NaN"

fun js_lt :: "jsnum \<Rightarrow> jsnum \<Rightarrow> bool" where
  "js_lt (Num a) (Num b) = (a < b)"
| "js_lt _ _ = False"

fun js_le :: "jsnum \<Rightarrow> jsnum \<Rightarrow> bool" where
  "js_le (Num a) (Num b) = (a \<le> b)"
| "js_le _ _ = False"

definition trunc :: "real \<Rightarrow> int" where
  "trunc x = (if 0 \<le> x then \<lfloor>x\<rfloor> else \<lceil>x\<rceil>)"

fun js_rem :: "jsnum \<Rightarrow> real \<Rightarrow> jsnum" where
  "js_rem (Num a) m = Num (a - m * of_int (trunc (a / m)))"
| "js_rem NaN m = NaN"

record 'a dims =
  width :: 'a
  height :: 'a
  depth :: 'a

definition quarterTurn :: "jsnum \<Rightarrow> bool" where
  "quarterTurn r \<longleftrightarrow>
     js_lt (Math_abs (js_sub r (Num 90))) (Num 1) \<or> js_lt (Math_abs (js_sub r (Num 270))) (Num 1)"

definition getRotatedDimensions ::
  "'a \<Rightarrow> 'a \<Rightarrow> 'a \<Rightarrow> jsnum \<Rightarrow> jsnum \<Rightarrow> jsnum \<Rightarrow> 'a dims" where
  "getRotatedDimensions width0 height0 depth0 rotX rotY rotZ =
    (let rx = Math_abs (js_rem rotX 360);
         ry = Math_abs (js_rem rotY 360);
         rz = Math_abs (js_rem rotZ 360);
         (w, h, d) = (width0, height0, depth0);
         (w, h) = (if quarterTurn rz then (h, w) else (w, h));
         (w, d) = (if quarterTurn ry then (d, w) else (w, d));
         (h, d) = (if quarterTurn rx then (d, h) else (h, d))
     in \<lparr>width = w, height = h, depth = d\<rparr>)"

definition calculateEfficiency :: "jsnum \<Rightarrow> jsnum \<Rightarrow> jsnum option" where
  "calculateEfficiency packedVolume containerVolume =
    (if containerVolume = Num 0 then Some (Num 0)
     else map_option (\<lambda>q. js_mul q (Num 100)) (js_div packedVolume containerVolume))"

definition normalize360 :: "real \<Rightarrow> real" where
  "normalize360 x = x - 360 * of_int \<lfloor>x / 360\<rfloor>"

fun spec_swap :: "jsnum \<Rightarrow> bool" where
  "spec_swap (Num x) \<longleftrightarrow> \<bar>normalize360 x - 90\<bar> < 1 \<or> \<bar>normalize360 x - 270\<bar> < 1"
| "spec_swap NaN \<longleftrightarrow> False"

definition swapZ :: "'a dims \<Rightarrow> 'a dims" where
  "swapZ b = \<lparr>width = height b, height = width b, depth = depth b\<rparr>"
definition swapY :: "'a dims \<Rightarrow> 'a dims" where
  "swapY b = \<lparr>width = depth b, height = height b, depth = width b\<rparr>"
definition swapX :: "'a dims \<Rightarrow> 'a dims" where
  "swapX b = \<lparr>width = width b, height = depth b, depth = height b\<rparr>"

definition effectiveBounds_spec ::
  "'a \<Rightarrow> 'a \<Rightarrow> 'a \<Rightarrow> jsnum \<Rightarrow> jsnum \<Rightarrow> jsnum \<Rightarrow> 'a dims" where
  "effectiveBounds_spec w h d rotX rotY rotZ =
    (let b0 = \<lparr>width = w, height = h, depth = d\<rparr>;
         b1 = (if spec_swap rotZ then swapZ b0 else b0);
         b2 = (if spec_swap rotY then swapY b1 else b1);
         b3 = (if spec_swap rotX then swapX b2 else b2)
     in b3)"


section \<open>The packing-result document\<close>

text \<open>
  An entry of a \<open>dimensions\<close>, \<open>position\<close> or \<open>rotation\<close> array: a number, a string,
  a boolean, \<open>null\<close>/\<open>undefined\<close>, or an object (also a nested array), which is given
  by the string its \<open>toString()\<close> returns.
\<close>

datatype jsval = JNum jsnum | JStr string | JBool bool | JNull | JObj string

text \<open>
  An array-valued field of an item: \<open>Missing\<close> is any falsy value (absent, \<open>null\<close>),
  \<open>NotArray\<close> a truthy value without a \<open>map\<close> method (calling it raises a TypeError),
  \<open>Arr\<close> an array.
\<close>

datatype jsfield = Missing | NotArray | Arr "jsval list"

record js_item =
  dimensions :: jsfield
  position :: jsfield
  rotation :: jsfield
  color :: "string option"
  item_id :: "string option"
  name :: "string option"
  original_name :: "string option"
  reason :: "string option"

text \<open>
  The document, with the alternative places the component reads each part from:
  \<open>visualization_data.container\<close> or \<open>bins[0].dimensions\<close>; \<open>visualization_data.items\<close>,
  \<open>bins[0].items\<close> or \<open>packedItems\<close>; \<open>visualization_data.unpacked_items\<close> or
  \<open>unpacked_items\<close>. \<open>None\<close> is an absent (falsy) part; an entry of an item list is
  \<open>None\<close> when it is \<open>null\<close>.
\<close>

record packing_result =
  vis_container :: "jsval dims option"
  bins0_dimensions :: "jsval list option"
  vis_items :: "js_item option list option"
  bins0_items :: "js_item option list option"
  packedItems :: "js_item option list option"
  vis_unpacked_items :: "js_item option list option"
  unpacked_items :: "js_item option list option"

text \<open>
  \<open>parseFloat\<close>: a number is read back from its own decimal form; a string (and an
  object through its string form) is read by the parameter \<open>pf\<close>, the library's
  parser of decimal literals; \<open>true\<close>, \<open>false\<close>, \<open>null\<close> and \<open>undefined\<close> give \<open>NaN\<close>.
\<close>

fun parseFloat :: "(string \<Rightarrow> jsnum) \<Rightarrow> jsval \<Rightarrow> jsnum" where
  "parseFloat pf (JNum n) = n"
| "parseFloat pf (JStr s) = pf s"
| "parseFloat pf (JBool b) = NaN"
| "parseFloat pf JNull = NaN"
| "parseFloat pf (JObj s) = pf s"

text \<open>\<open>x || d\<close> for a number \<open>x\<close> and a non-zero literal \<open>d\<close>: \<open>0\<close> and \<open>NaN\<close> are falsy.\<close>

fun js_or :: "jsnum \<Rightarrow> real \<Rightarrow> real" where
  "js_or (Num a) d = (if a = 0 then d else a)"
| "js_or NaN d = d"

text \<open>\<open>s || d\<close> for a string-valued field: absent and the empty string are falsy.\<close>

fun js_or_str :: "string option \<Rightarrow> string \<Rightarrow> string" where
  "js_or_str None d = d"
| "js_or_str (Some s) d = (if s = [] then d else s)"

text \<open>
  The callback of the three \<open>map\<close> calls:
  \<^verbatim>\<open>d => { if (d && typeof d === 'object' && d.toString) return parseFloat(d.toString());
         return parseFloat(d) || dflt; }\<close>
\<close>

fun parseEntry :: "(string \<Rightarrow> jsnum) \<Rightarrow> real \<Rightarrow> jsval \<Rightarrow> jsnum" where
  "parseEntry pf dflt (JObj s) = parseFloat pf (JStr s)"
| "parseEntry pf dflt d = Num (js_or (parseFloat pf d) dflt)"

text \<open>\<open>field.map(callback)\<close>: \<open>None\<close> when the call raises (the field is not an array).\<close>

fun mapEntries :: "(string \<Rightarrow> jsnum) \<Rightarrow> real \<Rightarrow> jsfield \<Rightarrow> jsnum list option" where
  "mapEntries pf dflt (Arr xs) = Some (map (parseEntry pf dflt) xs)"
| "mapEntries pf dflt _ = None"

text \<open>
  \<open>[a, b, c] = xs\<close>: an entry beyond the end of the array is \<open>undefined\<close>, which every
  arithmetic operator and \<open>Math.max\<close>/\<open>Math.min\<close> turn into \<open>NaN\<close>; it is \<open>NaN\<close> here.
\<close>

fun entry :: "jsnum list \<Rightarrow> nat \<Rightarrow> jsnum" where
  "entry xs i = (if i < length xs then xs ! i else NaN)"

declare entry.simps [simp del]

definition destructure3 :: "jsnum list \<Rightarrow> jsnum \<times> jsnum \<times> jsnum" where
  "destructure3 xs = (entry xs 0, entry xs 1, entry xs 2)"

fun digit_char :: "nat \<Rightarrow> char" where
  "digit_char n = (''0123456789'' ! (n mod 10))"

fun string_of_nat :: "nat \<Rightarrow> string" where
  "string_of_nat n = (if n < 10 then [digit_char n] else string_of_nat (n div 10) @ [digit_char n])"

declare string_of_nat.simps [simp del]

section \<open>Scene objects\<close>

type_synonym vec3 = "jsnum \<times> jsnum \<times> jsnum"

datatype geometry =
    BoxGeometry jsnum jsnum jsnum
  | EdgesGeometry geometry
  | SphereGeometry real
  | SegmentGeometry vec3 vec3
  | NoGeometry

text \<open>
  Of a material only the emissive colour and intensity are kept (the fields the hover
  handler writes); \<open>LineMaterial\<close> stands for the line materials, \<open>BasicMaterial\<close> for
  \<open>MeshBasicMaterial\<close>, \<open>NoMaterial\<close> for an object without the property (a group, a light).
\<close>

datatype material =
    MeshPhongMaterial (emissive: nat) (emissiveIntensity: real)
  | BasicMaterial
  | LineMaterial
  | NoMaterial

record item_meta =
  isPackedItem :: bool
  isUnpackedItem :: bool
  itemName :: string
  ud_name :: string
  ud_dimensions :: "jsnum dims"
  rotatedDimensions :: "jsnum dims option"
  originalColor :: string
  ud_color :: string
  originalPosition :: vec3
  ud_position :: vec3
  centerPosition :: vec3
  isOutOfBounds :: bool
  isUnpacked :: bool
  ud_rotation :: "vec3 option"
  ud_reason :: "string option"

datatype userData = UPlain | UContainer | UUnpackedArea | UDashedLine | UItem item_meta

datatype okind = Scene | Group | Mesh | Line | LineSegments | Light | GridHelper

text \<open>
  An object of the scene graph. \<open>oid\<close> is the object's identity (Three.js numbers every
  \<open>Object3D\<close> from a global counter); \<open>===\<close> on objects compares it.
\<close>

datatype object3d =
  Object3D (oid: nat) (kind: okind) (obj_position: vec3) (geometry: geometry)
    (material: material) (userData: userData) (children: "object3d list")

datatype 'a outcome = Skipped | Threw | Created 'a

section \<open>Creating the packed items\<close>

text \<open>
  The body of the loop over \<open>items\<close>, in three parts. \<open>packedItemData\<close> is the
  iteration up to the three \<open>map\<close> calls: \<open>Skipped\<close> is the early \<open>return\<close> after
  the warning, \<open>Threw\<close> an exception caught by the \<open>try\<close> of the iteration (a \<open>null\<close>
  entry, a field that is not an array). \<open>placePackedItem\<close> is the computation that
  follows, from the mapped arrays \<open>ds\<close>, \<open>ps\<close>, \<open>rs\<close>; its result is the record the
  iteration stores as the \<open>userData\<close> of the mesh. \<open>itemMesh\<close> creates the mesh and
  its edge lines from it.
\<close>

definition placePackedItem ::
  "real \<Rightarrow> real \<Rightarrow> real \<Rightarrow> nat \<Rightarrow> js_item \<Rightarrow> jsnum list \<Rightarrow> jsnum list \<Rightarrow> jsnum list \<Rightarrow> item_meta" where
  "placePackedItem containerWidth containerHeight containerDepth index it ds ps rs =
    (let (width0, height0, depth0) = destructure3 ds;
         (posX, posY, posZ) = destructure3 ps;
         (rotX, rotY, rotZ) = destructure3 rs;
         color' = js_or_str (color it) ''#10b981'';
         id' = js_or_str (item_id it) (''item_'' @ string_of_nat index);
         name' = js_or_str (original_name it) (js_or_str (name it) id');
         width' = Math_max width0 (Num 0.01);
         height' = Math_max height0 (Num 0.01);
         depth' = Math_max depth0 (Num 0.01);
         maxX = js_sub (js_sub (Num containerWidth) width') (Num 0.001);
         maxY = js_sub (js_sub (Num containerHeight) height') (Num 0.001);
         maxZ = js_sub (js_sub (Num containerDepth) depth') (Num 0.001);
         posX' = Math_max (Num 0.001) (Math_min posX maxX);
         posY' = Math_max (Num 0.001) (Math_min posY maxY);
         posZ' = Math_max (Num 0.001) (Math_min posZ maxZ);
         rotatedDims = getRotatedDimensions width' height' depth' rotX rotY rotZ;
         centerX = js_add posX' (js_half (width rotatedDims));
         centerY = js_add posY' (js_half (height rotatedDims));
         centerZ = js_add posZ' (js_half (depth rotatedDims))
     in \<lparr>isPackedItem = True, isUnpackedItem = False,
          itemName = name', ud_name = name',
          ud_dimensions = \<lparr>width = width', height = height', depth = depth'\<rparr>,
          rotatedDimensions = Some rotatedDims,
          originalColor = color', ud_color = color',
          originalPosition = (posX', posY', posZ'),
          ud_position = (posX', posY', posZ'),
          centerPosition = (centerX, centerY, centerZ),
          isOutOfBounds = False, isUnpacked = False,
          ud_rotation = Some (rotX, rotY, rotZ), ud_reason = None\<rparr>)"

definition packedItemData ::
  "(string \<Rightarrow> jsnum) \<Rightarrow> real \<Rightarrow> real \<Rightarrow> real \<Rightarrow> nat \<Rightarrow> js_item option \<Rightarrow> item_meta outcome" where
  "packedItemData pf containerWidth containerHeight containerDepth index item =
    (case item of
       None \<Rightarrow> Threw
     | Some it \<Rightarrow>
        if dimensions it = Missing \<or> position it = Missing then Skipped
        else
          (case mapEntries pf 0.5 (dimensions it) of
             None \<Rightarrow> Threw
           | Some ds \<Rightarrow>
          (case mapEntries pf 0 (position it) of
             None \<Rightarrow> Threw
           | Some ps \<Rightarrow>
          (case mapEntries pf 0
                  (if rotation it = Missing then Arr [JNum (Num 0), JNum (Num 0), JNum (Num 0)]
                   else rotation it) of
             None \<Rightarrow> Threw
           | Some rs \<Rightarrow>
              Created (placePackedItem containerWidth containerHeight containerDepth index it ds ps rs)))))"

text \<open>
  The mesh of an item: a box of the item's (unrotated) dimensions at the computed
  centre, with the edge lines as its child. \<open>em\<close> is the initial emissive colour.
  The mesh takes the identity \<open>nid\<close>, the lines \<open>nid + 1\<close>.
\<close>

definition itemMesh :: "nat \<Rightarrow> nat \<Rightarrow> item_meta \<Rightarrow> object3d" where
  "itemMesh nid em meta =
    (let geometry' = BoxGeometry (width (ud_dimensions meta)) (height (ud_dimensions meta))
                       (depth (ud_dimensions meta));
         line2 = Object3D (nid + 1) LineSegments (Num 0, Num 0, Num 0)
                   (EdgesGeometry geometry') LineMaterial UPlain []
     in Object3D nid Mesh (centerPosition meta) geometry' (MeshPhongMaterial em 0.1)
          (UItem meta) [line2])"

text \<open>
  The loop over the packed items: \<open>index\<close> counts every entry, \<open>nid\<close> is the next free
  object identity (a created item takes two: the mesh and its edge lines).
\<close>

fun createPackedItems ::
  "(string \<Rightarrow> jsnum) \<Rightarrow> real \<Rightarrow> real \<Rightarrow> real \<Rightarrow> nat \<Rightarrow> nat \<Rightarrow> js_item option list \<Rightarrow> object3d list" where
  "createPackedItems pf cw ch cd index nid [] = []"
| "createPackedItems pf cw ch cd index nid (item # rest) =
     (case packedItemData pf cw ch cd index item of
        Created meta \<Rightarrow>
          itemMesh nid 0x222222 meta # createPackedItems pf cw ch cd (index + 1) (nid + 2) rest
      | _ \<Rightarrow> createPackedItems pf cw ch cd (index + 1) nid rest)"

section \<open>Creating the unpacked items\<close>

definition gridCellSize :: real where "gridCellSize = 8"
definition itemsPerRow :: nat where "itemsPerRow = 3"
definition unpackedAreaWidth :: real where "unpackedAreaWidth = 30"

text \<open>The grid cell of the entry at \<open>index\<close>.\<close>

definition gridRow :: "nat \<Rightarrow> int" where
  "gridRow index = \<lfloor>real index / real itemsPerRow\<rfloor>"

definition gridCol :: "nat \<Rightarrow> nat" where
  "gridCol index = index mod itemsPerRow"

definition placeUnpackedItem ::
  "real \<Rightarrow> real \<Rightarrow> nat \<Rightarrow> js_item \<Rightarrow> jsnum list \<Rightarrow> item_meta" where
  "placeUnpackedItem unpackedAreaX unpackedAreaDepth index it ds =
    (let (width0, height0, depth0) = destructure3 ds;
         color' = js_or_str (color it) ''#ef4444'';
         id' = js_or_str (item_id it) (''unpacked_'' @ string_of_nat index);
         name' = js_or_str (name it) id';
         reason' = js_or_str (reason it) ''No space available'';
         width' = Math_max width0 (Num 0.01);
         height' = Math_max height0 (Num 0.01);
         depth' = Math_max depth0 (Num 0.01);
         row = gridRow index;
         col = gridCol index;
         startX = unpackedAreaX - unpackedAreaWidth / 2 + gridCellSize / 2;
         startZ = unpackedAreaDepth / 2 - gridCellSize / 2;
         cornerX = startX + real col * gridCellSize;
         cornerZ = startZ - of_int row * gridCellSize;
         cornerY = 0;
         maxX = js_sub (js_sub (Num (unpackedAreaX + unpackedAreaWidth / 2)) width') (Num 0.001);
         minX = unpackedAreaX - unpackedAreaWidth / 2 + 0.001;
         maxZ = js_sub (js_sub (Num unpackedAreaDepth) depth') (Num 0.001);
         minZ = 0.001;
         clampedX = Math_max (Num minX) (Math_min (Num cornerX) maxX);
         clampedZ = Math_max (Num minZ) (Math_min (Num cornerZ) maxZ);
         clampedY = Math_max (Num 0.001) (Num cornerY);
         centerX = js_add clampedX (js_half width');
         centerY = js_add clampedY (js_half height');
         centerZ = js_add clampedZ (js_half depth')
     in \<lparr>isPackedItem = False, isUnpackedItem = True,
          itemName = name', ud_name = name',
          ud_dimensions = \<lparr>width = width', height = height', depth = depth'\<rparr>,
          rotatedDimensions = None,
          originalColor = color', ud_color = color',
          originalPosition = (clampedX, clampedY, clampedZ),
          ud_position = (clampedX, clampedY, clampedZ),
          centerPosition = (centerX, centerY, centerZ),
          isOutOfBounds = False, isUnpacked = True,
          ud_rotation = None, ud_reason = Some reason'\<rparr>)"

definition unpackedItemData ::
  "(string \<Rightarrow> jsnum) \<Rightarrow> real \<Rightarrow> real \<Rightarrow> nat \<Rightarrow> js_item option \<Rightarrow> item_meta outcome" where
  "unpackedItemData pf unpackedAreaX unpackedAreaDepth index item =
    (case item of
       None \<Rightarrow> Threw
     | Some it \<Rightarrow>
        if dimensions it = Missing then Skipped
        else
          (case mapEntries pf 0.5 (dimensions it) of
             None \<Rightarrow> Threw
           | Some ds \<Rightarrow> Created (placeUnpackedItem unpackedAreaX unpackedAreaDepth index it ds)))"

fun createUnpackedItems ::
  "(string \<Rightarrow> jsnum) \<Rightarrow> real \<Rightarrow> real \<Rightarrow> nat \<Rightarrow> nat \<Rightarrow> js_item option list \<Rightarrow> object3d list" where
  "createUnpackedItems pf ax ad index nid [] = []"
| "createUnpackedItems pf ax ad index nid (item # rest) =
     (case unpackedItemData pf ax ad index item of
        Created meta \<Rightarrow>
          itemMesh nid 0x331111 meta # createUnpackedItems pf ax ad (index + 1) (nid + 2) rest
      | _ \<Rightarrow> createUnpackedItems pf ax ad (index + 1) nid rest)"

section \<open>The container and the holding area\<close>

definition vec :: "real \<Rightarrow> real \<Rightarrow> real \<Rightarrow> vec3" where
  "vec a b c = (Num a, Num b, Num c)"

definition boxOf :: "real \<Rightarrow> real \<Rightarrow> real \<Rightarrow> geometry" where
  "boxOf a b c = BoxGeometry (Num a) (Num b) (Num c)"

text \<open>
  The container group: the translucent volume, its wireframe, the six boundary
  rectangles and the eight corner markers, created in this order from identity \<open>nid\<close>.
\<close>

definition cornerPoints :: "real \<Rightarrow> real \<Rightarrow> real \<Rightarrow> vec3 list" where
  "cornerPoints containerWidth containerHeight containerDepth =
    [vec 0 0 0, vec containerWidth 0 0, vec 0 containerHeight 0,
     vec containerWidth containerHeight 0,
     vec 0 0 containerDepth, vec containerWidth 0 containerDepth,
     vec 0 containerHeight containerDepth,
     vec containerWidth containerHeight containerDepth]"

definition createContainer :: "real \<Rightarrow> real \<Rightarrow> real \<Rightarrow> nat \<Rightarrow> object3d" where
  "createContainer containerWidth containerHeight containerDepth nid =
    (let cx = containerWidth / 2; cy = containerHeight / 2; cz = containerDepth / 2;
         containerGeometry = boxOf containerWidth containerHeight containerDepth;
         containerMesh = Object3D (nid + 1) Mesh (vec cx cy cz) containerGeometry
                           (MeshPhongMaterial 0 1) UContainer [];
         wireframe = Object3D (nid + 2) LineSegments (vec cx cy cz)
                           (EdgesGeometry containerGeometry) LineMaterial UPlain [];
         boundary = (\<lambda>k g p. Object3D (nid + k) LineSegments p (EdgesGeometry g) LineMaterial UPlain []);
         bottomBoundary = boundary 3 (boxOf containerWidth 0.01 containerDepth) (vec cx 0 cz);
         topBoundary = boundary 4 (boxOf containerWidth 0.01 containerDepth) (vec cx containerHeight cz);
         leftBoundary = boundary 5 (boxOf 0.01 containerHeight containerDepth) (vec 0 cy cz);
         rightBoundary = boundary 6 (boxOf 0.01 containerHeight containerDepth) (vec containerWidth cy cz);
         frontBoundary = boundary 7 (boxOf containerWidth containerHeight 0.01) (vec cx cy 0);
         backBoundary = boundary 8 (boxOf containerWidth containerHeight 0.01) (vec cx cy containerDepth);
         spheres = map (\<lambda>(k, p). Object3D (nid + 9 + k) Mesh p (SphereGeometry 0.15) BasicMaterial UPlain [])
                     (enumerate 0 (cornerPoints containerWidth containerHeight containerDepth))
     in Object3D nid Group (vec 0 0 0) NoGeometry NoMaterial UPlain
          ([containerMesh, wireframe, bottomBoundary, topBoundary, leftBoundary, rightBoundary,
            frontBoundary, backBoundary] @ spheres))"

text \<open>
  \<open>createDashedBox\<close>: the twelve edges of a box as dashed lines, all positioned at the
  box centre; nothing when a dimension is falsy. The lines are returned; the caller
  records them in \<open>dashedLinesRef\<close> and adds them to the holding-area group (which is
  set whenever the component calls this function).
\<close>

definition boxEdges :: "real \<Rightarrow> real \<Rightarrow> real \<Rightarrow> (vec3 \<times> vec3) list" where
  "boxEdges halfWidth halfHeight halfDepth =
    [(vec (- halfWidth) (- halfHeight) (- halfDepth), vec halfWidth (- halfHeight) (- halfDepth)),
     (vec halfWidth (- halfHeight) (- halfDepth), vec halfWidth (- halfHeight) halfDepth),
     (vec halfWidth (- halfHeight) halfDepth, vec (- halfWidth) (- halfHeight) halfDepth),
     (vec (- halfWidth) (- halfHeight) halfDepth, vec (- halfWidth) (- halfHeight) (- halfDepth)),
     (vec (- halfWidth) halfHeight (- halfDepth), vec halfWidth halfHeight (- halfDepth)),
     (vec halfWidth halfHeight (- halfDepth), vec halfWidth halfHeight halfDepth),
     (vec halfWidth halfHeight halfDepth, vec (- halfWidth) halfHeight halfDepth),
     (vec (- halfWidth) halfHeight halfDepth, vec (- halfWidth) halfHeight (- halfDepth)),
     (vec (- halfWidth) (- halfHeight) (- halfDepth), vec (- halfWidth) halfHeight (- halfDepth)),
     (vec halfWidth (- halfHeight) (- halfDepth), vec halfWidth halfHeight (- halfDepth)),
     (vec halfWidth (- halfHeight) halfDepth, vec halfWidth halfHeight halfDepth),
     (vec (- halfWidth) (- halfHeight) halfDepth, vec (- halfWidth) halfHeight halfDepth)]"

definition createDashedBox ::
  "real \<Rightarrow> real \<Rightarrow> real \<Rightarrow> real \<Rightarrow> real \<Rightarrow> real \<Rightarrow> nat \<Rightarrow> object3d list" where
  "createDashedBox width0 height0 depth0 centerX centerY centerZ nid =
    (if width0 = 0 \<or> height0 = 0 \<or> depth0 = 0 then []
     else map (\<lambda>(k, (start, end')).
                 Object3D (nid + k) Line (vec centerX centerY centerZ)
                   (SegmentGeometry start end') LineMaterial UDashedLine [])
            (enumerate 0 (boxEdges (width0 / 2) (height0 / 2) (depth0 / 2))))"


section \<open>The component's state\<close>

type_synonym point = "real \<times> real \<times> real"

record camera =
  cam_position :: point
  cam_lookAt :: point

record controls =
  enableRotate :: bool
  enablePan :: bool
  target :: point

record hover =
  h_name :: string
  h_dimensions :: "jsnum dims"
  h_color :: string
  h_position :: vec3
  h_isOutOfBounds :: bool
  h_isUnpacked :: bool
  h_rotation :: vec3
  h_reason :: string

text \<open>
  The refs and the state of the component. \<open>sceneRef\<close> holds the scene object with the
  whole scene graph below it; the other refs hold the objects they point to, which are
  the same objects (the same \<open>oid\<close>) as in the graph. \<open>nextObjectId\<close> is the identity the
  next created object receives.
\<close>

record state =
  canvasRef :: bool
  sceneRef :: "object3d option"
  cameraRef :: "camera option"
  controlsRef :: "controls option"
  isInitialized :: bool
  itemMeshesRef :: "object3d list"
  unpackedMeshesRef :: "object3d list"
  containerGroupRef :: "object3d option"
  unpackedAreaGroupRef :: "object3d option"
  separatorLineRef :: "object3d option"
  dashedLinesRef :: "object3d list"
  animationFrameId :: "nat option"
  isRenderingRef :: bool
  hoveredItem :: "hover option"
  nextObjectId :: nat

subsection \<open>Scene-graph operations\<close>

text \<open>\<open>remove_where P obj\<close>: every descendant of \<open>obj\<close> that satisfies \<open>P\<close> is removed from its parent.\<close>

fun remove_where :: "(object3d \<Rightarrow> bool) \<Rightarrow> object3d \<Rightarrow> object3d" where
  "remove_where P (Object3D i k p g m u cs) =
     Object3D i k p g m u (map (remove_where P) (filter (\<lambda>c. \<not> P c) cs))"

text \<open>\<open>obj.parent.remove(obj)\<close> for each object of a list, seen from the scene.\<close>

definition detach :: "object3d list \<Rightarrow> object3d option \<Rightarrow> object3d option" where
  "detach objs scene = map_option (remove_where (\<lambda>c. oid c \<in> oid ` set objs)) scene"

text \<open>\<open>parent.add(obj)\<close>: the object becomes the last child.\<close>

fun add :: "object3d \<Rightarrow> object3d \<Rightarrow> object3d" where
  "add (Object3D i k p g m u cs) c = Object3D i k p g m u (cs @ [c])"

text \<open>\<open>obj.traverse\<close>: the object and all its descendants, parents first.\<close>

fun traverse :: "object3d \<Rightarrow> object3d list" where
  "traverse (Object3D i k p g m u cs) = Object3D i k p g m u cs # concat (map traverse cs)"

fun flagged :: "object3d \<Rightarrow> bool" where
  "flagged obj = (case userData obj of
      UPlain \<Rightarrow> False
    | UContainer \<Rightarrow> True
    | UUnpackedArea \<Rightarrow> True
    | UDashedLine \<Rightarrow> True
    | UItem meta \<Rightarrow> isPackedItem meta \<or> isUnpackedItem meta)"

declare flagged.simps [simp del]

subsection \<open>cleanupScene\<close>

text \<open>
  The \<open>dispose()\<close> calls free GPU buffers and leave the scene graph as it is; they are
  not part of the state. Every \<open>try\<close> block of the function is free of raising calls.
\<close>

fun refList :: "object3d option \<Rightarrow> object3d list" where
  "refList None = []"
| "refList (Some obj) = [obj]"

text \<open>
  The scene after the removals of \<open>cleanupScene\<close>, in the order of the function: the
  separator line, the dashed lines, the item meshes, the unpacked meshes, the container
  group, the holding-area group; then, unless \<open>skipSceneReset\<close>, every object the
  traversal of the scene finds flagged in its \<open>userData\<close>.
\<close>

definition cleanedScene :: "bool \<Rightarrow> state \<Rightarrow> object3d option" where
  "cleanedScene skipSceneReset s =
    (let scene = detach (refList (separatorLineRef s)) (sceneRef s);
         scene = detach (dashedLinesRef s) scene;
         scene = detach (itemMeshesRef s) scene;
         scene = detach (unpackedMeshesRef s) scene;
         scene = detach (refList (containerGroupRef s)) scene;
         scene = detach (refList (unpackedAreaGroupRef s)) scene
     in if \<not> skipSceneReset then map_option (remove_where flagged) scene else scene)"

definition cleanupScene :: "bool \<Rightarrow> state \<Rightarrow> state" where
  "cleanupScene skipSceneReset s =
     s\<lparr>animationFrameId := None,
       sceneRef := cleanedScene skipSceneReset s,
       separatorLineRef := None,
       dashedLinesRef := [],
       itemMeshesRef := [],
       unpackedMeshesRef := [],
       containerGroupRef := None,
       unpackedAreaGroupRef := None,
       controlsRef := map_option (\<lambda>c. c\<lparr>target := (0, 0, 0)\<rparr>) (controlsRef s),
       isRenderingRef := False\<rparr>"

subsection \<open>The visualization-creation effect (rebuild)\<close>

fun jsval_entry :: "jsval list \<Rightarrow> nat \<Rightarrow> jsval" where
  "jsval_entry xs i = (if i < length xs then xs ! i else JNull)"

definition containerDataOf :: "packing_result \<Rightarrow> jsval dims option" where
  "containerDataOf pr =
    (case vis_container pr of
       Some c \<Rightarrow> Some c
     | None \<Rightarrow>
        (case bins0_dimensions pr of
           Some ds \<Rightarrow> Some \<lparr>width = jsval_entry ds 0, height = jsval_entry ds 1, depth = jsval_entry ds 2\<rparr>
         | None \<Rightarrow> None))"

definition unpackedItemsOf :: "packing_result \<Rightarrow> js_item option list" where
  "unpackedItemsOf pr =
    (case vis_unpacked_items pr of
       Some us \<Rightarrow> us
     | None \<Rightarrow> (case unpacked_items pr of Some us \<Rightarrow> us | None \<Rightarrow> []))"

definition itemsOf :: "packing_result \<Rightarrow> js_item option list" where
  "itemsOf pr =
    (case vis_items pr of
       Some is \<Rightarrow> is
     | None \<Rightarrow>
        (case bins0_items pr of
           Some is \<Rightarrow> is
         | None \<Rightarrow> (case packedItems pr of Some is \<Rightarrow> is | None \<Rightarrow> [])))"

definition addAll :: "object3d list \<Rightarrow> object3d \<Rightarrow> object3d" where
  "addAll objs scene = fold (\<lambda>c sc. add sc c) objs scene"

text \<open>
  The holding area and the unpacked items (the branch \<open>unpackedItems.length > 0\<close>).
  The group takes the identity \<open>nid\<close>, its translucent box \<open>nid + 1\<close>, the dashed
  lines the identities from \<open>nid + 2\<close>; the item meshes and the separator line follow.
\<close>

definition unpackedAreaDepth :: "real \<Rightarrow> real" where
  "unpackedAreaDepth containerDepth = max containerDepth 15"

definition unpackedAreaDashes :: "real \<Rightarrow> real \<Rightarrow> real \<Rightarrow> nat \<Rightarrow> object3d list" where
  "unpackedAreaDashes containerWidth containerHeight containerDepth nid =
     createDashedBox unpackedAreaWidth containerHeight (unpackedAreaDepth containerDepth)
       (containerWidth + 15) (containerHeight / 2) (unpackedAreaDepth containerDepth / 2) (nid + 2)"

definition unpackedAreaGroup :: "real \<Rightarrow> real \<Rightarrow> real \<Rightarrow> nat \<Rightarrow> object3d" where
  "unpackedAreaGroup containerWidth containerHeight containerDepth nid =
    (let unpackedAreaX = containerWidth + 15;
         unpackedAreaHeight = containerHeight;
         unpackedAreaMesh = Object3D (nid + 1) Mesh
             (vec unpackedAreaX (unpackedAreaHeight / 2) (unpackedAreaDepth containerDepth / 2))
             (boxOf unpackedAreaWidth unpackedAreaHeight (unpackedAreaDepth containerDepth))
             (MeshPhongMaterial 0 1) UUnpackedArea []
     in Object3D nid Group (vec 0 0 0) NoGeometry NoMaterial UPlain
          (unpackedAreaMesh # unpackedAreaDashes containerWidth containerHeight containerDepth nid))"

definition unpackedMeshes ::
  "(string \<Rightarrow> jsnum) \<Rightarrow> real \<Rightarrow> real \<Rightarrow> real \<Rightarrow> nat \<Rightarrow> js_item option list \<Rightarrow> object3d list" where
  "unpackedMeshes pf containerWidth containerHeight containerDepth nid unpackedItems =
     createUnpackedItems pf (containerWidth + 15) (unpackedAreaDepth containerDepth) 0
       (nid + 2 + length (unpackedAreaDashes containerWidth containerHeight containerDepth nid))
       unpackedItems"

definition separatorLine :: "real \<Rightarrow> real \<Rightarrow> nat \<Rightarrow> object3d" where
  "separatorLine containerWidth containerHeight nid =
     Object3D nid Line (vec 0 0 0)
       (SegmentGeometry (vec (containerWidth + 7.5) 0 0)
                        (vec (containerWidth + 7.5) (containerHeight + 2) 0))
       LineMaterial UPlain []"

definition createUnpackedArea ::
  "(string \<Rightarrow> jsnum) \<Rightarrow> real \<Rightarrow> real \<Rightarrow> real \<Rightarrow> js_item option list \<Rightarrow> object3d \<Rightarrow> state \<Rightarrow> state" where
  "createUnpackedArea pf containerWidth containerHeight containerDepth unpackedItems scene s =
    (let nid = nextObjectId s;
         group = unpackedAreaGroup containerWidth containerHeight containerDepth nid;
         dashed = unpackedAreaDashes containerWidth containerHeight containerDepth nid;
         meshes = unpackedMeshes pf containerWidth containerHeight containerDepth nid unpackedItems;
         separatorId = nid + 2 + length dashed + 2 * length meshes;
         separator = separatorLine containerWidth containerHeight separatorId
     in s\<lparr>sceneRef := Some (add (addAll meshes (add scene group)) separator),
          unpackedAreaGroupRef := Some group,
          dashedLinesRef := dashed,
          unpackedMeshesRef := meshes,
          separatorLineRef := Some separator,
          nextObjectId := separatorId + 1\<rparr>)"

text \<open>\<open>parseFloat(containerData.width) || 17.0\<close> and its two siblings.\<close>

definition containerDimensions :: "(string \<Rightarrow> jsnum) \<Rightarrow> jsval dims \<Rightarrow> real \<times> real \<times> real" where
  "containerDimensions pf containerData =
     (js_or (parseFloat pf (width containerData)) 17.0,
      js_or (parseFloat pf (height containerData)) 8.0,
      js_or (parseFloat pf (depth containerData)) 10.0)"

text \<open>
  The effect after its guard and the clean-up, from the container data on: the
  container group (17 objects), the packed items, and the holding area when there are
  unpacked items.
\<close>

definition createVisualization :: "(string \<Rightarrow> jsnum) \<Rightarrow> packing_result \<Rightarrow> state \<Rightarrow> state" where
  "createVisualization pf pr s =
    (case (containerDataOf pr, sceneRef s) of
       (Some containerData, Some scene) \<Rightarrow>
         (let (containerWidth, containerHeight, containerDepth) = containerDimensions pf containerData;
              unpackedItems = unpackedItemsOf pr;
              nid = nextObjectId s;
              containerGroup = createContainer containerWidth containerHeight containerDepth nid;
              meshes = createPackedItems pf containerWidth containerHeight containerDepth 0
                         (nid + 17) (itemsOf pr);
              scene = addAll meshes (add scene containerGroup);
              s = s\<lparr>sceneRef := Some scene, containerGroupRef := Some containerGroup,
                     itemMeshesRef := meshes, nextObjectId := nid + 17 + 2 * length meshes\<rparr>
          in if unpackedItems \<noteq> []
             then createUnpackedArea pf containerWidth containerHeight containerDepth
                    unpackedItems scene s
             else s)
     | _ \<Rightarrow> s)"

text \<open>
  The effect that runs when a packing result arrives. It returns at once without a
  result, a scene or a finished initialisation; after the clean-up it returns when the
  result has no container data.
\<close>

definition rebuild :: "(string \<Rightarrow> jsnum) \<Rightarrow> packing_result option \<Rightarrow> state \<Rightarrow> state" where
  "rebuild pf packingResult s =
    (case packingResult of
       None \<Rightarrow> s
     | Some pr \<Rightarrow>
        if sceneRef s = None \<or> \<not> isInitialized s then s
        else
          (let s = cleanupScene False s;
               s = s\<lparr>itemMeshesRef := [], unpackedMeshesRef := []\<rparr>
           in createVisualization pf pr s))"

subsection \<open>The pointer handler (pick)\<close>

text \<open>
  An intersection reported by the raycaster. The raycaster is a library object; the
  handler receives it as the function \<open>intersectObjects\<close> from the list of objects to
  test to the intersections of the current ray (set from the pointer and the camera).
\<close>

record intersection =
  distance :: real
  object :: object3d

text \<open>
  The hover state built from the \<open>userData\<close> of the hit object; every field has a
  fallback (\<open>||\<close>) for an object without item metadata.
\<close>

definition hoverOf :: "userData \<Rightarrow> hover" where
  "hoverOf ud =
    (case ud of
       UItem meta \<Rightarrow>
         \<lparr>h_name = js_or_str (Some (itemName meta)) (js_or_str (Some (ud_name meta)) ''Unknown Item''),
          h_dimensions = ud_dimensions meta,
          h_color = js_or_str (Some (originalColor meta)) (js_or_str (Some (ud_color meta)) ''#cccccc''),
          h_position = originalPosition meta,
          h_isOutOfBounds = isOutOfBounds meta,
          h_isUnpacked = isUnpacked meta,
          h_rotation = (case ud_rotation meta of Some r \<Rightarrow> r | None \<Rightarrow> (Num 0, Num 0, Num 0)),
          h_reason = js_or_str (ud_reason meta) []\<rparr>
     | _ \<Rightarrow>
         \<lparr>h_name = ''Unknown Item'',
          h_dimensions = \<lparr>width = Num 0, height = Num 0, depth = Num 0\<rparr>,
          h_color = ''#cccccc'',
          h_position = (Num 0, Num 0, Num 0),
          h_isOutOfBounds = False,
          h_isUnpacked = False,
          h_rotation = (Num 0, Num 0, Num 0),
          h_reason = []\<rparr>)"

text \<open>
  Writing \<open>material.emissive\<close> and \<open>material.emissiveIntensity\<close>. On a material without
  these properties the assignment adds two properties nothing reads; an object without
  a material is skipped by the handler (\<open>if (obj.material)\<close>).
\<close>

fun setEmissive :: "nat \<Rightarrow> real \<Rightarrow> object3d \<Rightarrow> object3d" where
  "setEmissive c v (Object3D i k p g (MeshPhongMaterial c0 v0) u cs) =
     Object3D i k p g (MeshPhongMaterial c v) u cs"
| "setEmissive c v obj = obj"

definition highlightFor :: "object3d \<Rightarrow> object3d \<Rightarrow> object3d" where
  "highlightFor item obj =
     (if oid obj = oid item then setEmissive 0x444444 0.5 obj else setEmissive 0x000000 0 obj)"

definition clearHighlight :: "object3d \<Rightarrow> object3d" where
  "clearHighlight obj = setEmissive 0x000000 0 obj"

text \<open>
  A mutation of the objects of \<open>allItems\<close> is visible through every reference to them:
  \<open>update_where ids f\<close> applies it to the objects of these identities in the scene graph.
\<close>

fun update_where :: "nat set \<Rightarrow> (object3d \<Rightarrow> object3d) \<Rightarrow> object3d \<Rightarrow> object3d" where
  "update_where ids f (Object3D i k p g m u cs) =
     (let obj = Object3D i k p g m u (map (update_where ids f) cs)
      in if i \<in> ids then f obj else obj)"

definition handleMouseMove :: "(object3d list \<Rightarrow> intersection list) \<Rightarrow> state \<Rightarrow> state" where
  "handleMouseMove intersectObjects s =
    (if \<not> canvasRef s \<or> sceneRef s = None \<or> cameraRef s = None then s
     else
       (let allItems = itemMeshesRef s @ unpackedMeshesRef s;
            intersects = intersectObjects allItems;
            ids = oid ` set allItems
        in case intersects of
             hit # _ \<Rightarrow>
               (let item = object hit
                in s\<lparr>hoveredItem := Some (hoverOf (userData item)),
                     itemMeshesRef := map (highlightFor item) (itemMeshesRef s),
                     unpackedMeshesRef := map (highlightFor item) (unpackedMeshesRef s),
                     sceneRef := map_option (update_where ids (highlightFor item)) (sceneRef s)\<rparr>)
           | [] \<Rightarrow>
               s\<lparr>hoveredItem := None,
                 itemMeshesRef := map clearHighlight (itemMeshesRef s),
                 unpackedMeshesRef := map clearHighlight (unpackedMeshesRef s),
                 sceneRef := map_option (update_where ids clearHighlight) (sceneRef s)\<rparr>))"

subsection \<open>The camera view-mode effect\<close>

text \<open>The four values of the \<open>viewMode\<close> state; \<open>View3D\<close> (\<open>'3D'\<close>) is the perspective mode.\<close>

datatype viewMode = View3D | Top | Front | Side

text \<open>
  The first part of the effect: from the document it computes the position the camera
  is put at, the point looked at, and whether rotation is enabled.
\<close>

definition cameraPlacement ::
  "(string \<Rightarrow> jsnum) \<Rightarrow> viewMode \<Rightarrow> bool \<Rightarrow> packing_result \<Rightarrow> point \<times> point \<times> bool" where
  "cameraPlacement pf viewMode showUnpackedArea pr =
    (let containerData = containerDataOf pr;
         (containerWidth, containerHeight, containerDepth) =
           containerDimensions pf
             (case containerData of
                None \<Rightarrow> \<lparr>width = JNull, height = JNull, depth = JNull\<rparr>
              | Some c \<Rightarrow> c);
         unpackedItems = unpackedItemsOf pr;
         hasUnpackedItems = (length unpackedItems > 0);
         containerCenterX = containerWidth / 2;
         containerCenterY = containerHeight / 2;
         containerCenterZ = containerDepth / 2;
         targetX = (if hasUnpackedItems \<and> showUnpackedArea
                    then (containerWidth + 30 + 15) / 2 else containerCenterX);
         targetY = containerCenterY;
         targetZ = containerCenterZ;
         (cameraPos, rotate) =
           (case viewMode of
              Top \<Rightarrow> ((targetX, 50, targetZ), False)
            | Front \<Rightarrow> ((targetX, targetY, 50), False)
            | Side \<Rightarrow> ((50, targetY, targetZ), False)
            | View3D \<Rightarrow>
                (if hasUnpackedItems \<and> showUnpackedArea
                 then (targetX + 15, containerHeight * 1.8, containerDepth * 1.8)
                 else (containerWidth * 0.8, containerHeight * 1.2, containerDepth * 1.2),
                 True))
     in (cameraPos, (targetX, targetY, targetZ), rotate))"

text \<open>
  The effect ends with \<open>controlsRef.current.update()\<close>. The orbit controls belong to the
  graphics library, not to the repository: \<open>update\<close> recomputes the position of the
  camera about the target of the controls (and moves the target by a pending pan), and
  turns the camera to the target. It is a parameter here: \<open>update cam ctl\<close> is the
  position it leaves the camera at and the target it leaves the controls with. It
  does not touch the interaction flags.
\<close>

type_synonym controlsUpdate = "camera \<Rightarrow> controls \<Rightarrow> point \<times> point"

definition cameraEffect ::
  "controlsUpdate \<Rightarrow> (string \<Rightarrow> jsnum) \<Rightarrow> viewMode \<Rightarrow> bool \<Rightarrow> packing_result option \<Rightarrow> state \<Rightarrow> state" where
  "cameraEffect update pf viewMode showUnpackedArea packingResult s =
    (case (cameraRef s, controlsRef s, packingResult) of
       (Some cam, Some ctl, Some pr) \<Rightarrow>
         (let (cameraPos, target0, rotate) = cameraPlacement pf viewMode showUnpackedArea pr;
              ctl1 = ctl\<lparr>enableRotate := rotate, enablePan := True\<rparr>;
              cam1 = cam\<lparr>cam_position := cameraPos, cam_lookAt := target0\<rparr>;
              ctl2 = ctl1\<lparr>target := target0\<rparr>;
              (position', target') = update cam1 ctl2
          in s\<lparr>cameraRef := Some (cam1\<lparr>cam_position := position', cam_lookAt := target'\<rparr>),
               controlsRef := Some (ctl2\<lparr>target := target'\<rparr>)\<rparr>)
     | _ \<Rightarrow> s)"

subsection \<open>The state after initialisation\<close>

text \<open>
  \<open>initThreeJS\<close>: a scene with the ambient light, three directional lights and the grid
  helper; the camera and the orbit controls with their initial values.
\<close>

definition initialScene :: object3d where
  "initialScene =
     Object3D 0 Scene (vec 0 0 0) NoGeometry NoMaterial UPlain
       [Object3D 1 Light (vec 0 0 0) NoGeometry NoMaterial UPlain [],
        Object3D 2 Light (vec 20 30 20) NoGeometry NoMaterial UPlain [],
        Object3D 3 Light (vec (-20) 20 (-30)) NoGeometry NoMaterial UPlain [],
        Object3D 4 Light (vec (-10) 0 (-30)) NoGeometry NoMaterial UPlain [],
        Object3D 5 GridHelper (vec 0 0 0) NoGeometry LineMaterial UPlain []]"

definition initialState :: state where
  "initialState =
     \<lparr>canvasRef = True, sceneRef = Some initialScene,
      cameraRef = Some \<lparr>cam_position = (20, 15, 20), cam_lookAt = (8.5, 4, 5)\<rparr>,
      controlsRef = Some \<lparr>enableRotate = True, enablePan = True, target = (8.5, 4, 5)\<rparr>,
      isInitialized = True, itemMeshesRef = [], unpackedMeshesRef = [],
      containerGroupRef = None, unpackedAreaGroupRef = None, separatorLineRef = None,
      dashedLinesRef = [], animationFrameId = None, isRenderingRef = False,
      hoveredItem = None, nextObjectId = 6\<rparr>"

section \<open>utils/geometry.js\<close>

fun js_ge :: "jsnum \<Rightarrow> jsnum \<Rightarrow> bool" where
  "js_ge (Num a) (Num b) = (a \<ge> b)"
| "js_ge _ _ = False"

text \<open>
  The volume is the value of this development that depends on the rounding of the
  machine: \<open>width * height * depth\<close> is two products of doubles, and its result depends
  on the order of the factors. \<open>fl\<close> rounds a real to the nearest double: 53
  significant bits, a tie goes to the even significand, and below \<open>2 ^ -1022\<close> the
  spacing stays \<open>2 ^ -1074\<close> (gradual underflow). The overflow to infinity beyond the
  largest double is not represented.
\<close>

text \<open>The number of binary digits of \<open>n\<close>.\<close>

fun bits :: "nat \<Rightarrow> nat" where
  "bits n = (if n = 0 then 0 else Suc (bits (n div 2)))"

declare bits.simps [simp del]

text \<open>The binary exponent of a non-zero real: \<open>2 ^ exponent x \<le> \<bar>x\<bar> < 2 ^ (exponent x + 1)\<close>.\<close>

definition exponent :: "real \<Rightarrow> int" where
  "exponent x =
     (if 1 \<le> \<bar>x\<bar> then int (bits (nat \<lfloor>\<bar>x\<bar>\<rfloor>)) - 1
      else - int (bits (nat (\<lceil>1 / \<bar>x\<bar>\<rceil> - 1))))"

definition pow2 :: "int \<Rightarrow> real" where
  "pow2 e = (if 0 \<le> e then 2 ^ nat e else 1 / 2 ^ nat (- e))"

definition roundHalfEven :: "real \<Rightarrow> int" where
  "roundHalfEven y =
     (let f = \<lfloor>y\<rfloor>; r = y - of_int f
      in if r < 1 / 2 then f else if 1 / 2 < r then f + 1 else if even f then f else f + 1)"

definition fl :: "real \<Rightarrow> real" where
  "fl x = (if x = 0 then 0
           else let e = max (exponent x) (- 1022) - 52
                in of_int (roundHalfEven (x / pow2 e)) * pow2 e)"

text \<open>The product of two doubles, and the double a decimal literal denotes.\<close>

fun js_times :: "jsnum \<Rightarrow> jsnum \<Rightarrow> jsnum" where
  "js_times (Num a) (Num b) = Num (fl (a * b))"
| "js_times _ _ = NaN"

definition decimal :: "real \<Rightarrow> jsnum" where
  "decimal x = Num (fl x)"

definition calculateVolume :: "jsnum \<Rightarrow> jsnum \<Rightarrow> jsnum \<Rightarrow> jsnum" where
  "calculateVolume w h d = js_times (js_times w h) d"

text \<open>\<open>checkFit(item, container, position)\<close>: the box of size \<open>item\<close> at \<open>position\<close> lies in the container.\<close>

definition checkFit :: "jsnum dims \<Rightarrow> jsnum dims \<Rightarrow> vec3 \<Rightarrow> bool" where
  "checkFit item container position' =
    (let (x, y, z) = position';
         w = width item; h = height item; d = depth item;
         cw = width container; ch = height container; cd = depth container
     in js_ge x (Num 0) \<and> js_le (js_add x w) cw \<and>
        js_ge y (Num 0) \<and> js_le (js_add y h) ch \<and>
        js_ge z (Num 0) \<and> js_le (js_add z d) cd)"

section \<open>Notions of the specification\<close>

text \<open>
  The effective bounds of an item: its rotated dimensions (an unpacked item is not
  rotated). Its rendered bounds: the axis-aligned box of that size around the centre
  the mesh is placed at.
\<close>

definition effectiveBoundsOf :: "item_meta \<Rightarrow> jsnum dims" where
  "effectiveBoundsOf meta = (case rotatedDimensions meta of Some r \<Rightarrow> r | None \<Rightarrow> ud_dimensions meta)"

definition renderedLower :: "item_meta \<Rightarrow> vec3" where
  "renderedLower meta =
    (let (cx, cy, cz) = centerPosition meta; e = effectiveBoundsOf meta
     in (js_sub cx (js_half (width e)), js_sub cy (js_half (height e)), js_sub cz (js_half (depth e))))"

definition renderedUpper :: "item_meta \<Rightarrow> vec3" where
  "renderedUpper meta =
    (let (cx, cy, cz) = centerPosition meta; e = effectiveBoundsOf meta
     in (js_add cx (js_half (width e)), js_add cy (js_half (height e)), js_add cz (js_half (depth e))))"

definition vec_le :: "vec3 \<Rightarrow> vec3 \<Rightarrow> bool" where
  "vec_le a b = (case (a, b) of ((a1, a2, a3), (b1, b2, b3)) \<Rightarrow> js_le a1 b1 \<and> js_le a2 b2 \<and> js_le a3 b3)"

text \<open>The rendered bounds lie within the box from \<open>lo\<close> to \<open>hi\<close>.\<close>

definition renderedWithin :: "point \<Rightarrow> point \<Rightarrow> item_meta \<Rightarrow> bool" where
  "renderedWithin lo hi meta =
    (case (lo, hi) of ((l1, l2, l3), (h1, h2, h3)) \<Rightarrow>
       vec_le (vec l1 l2 l3) (renderedLower meta) \<and> vec_le (renderedUpper meta) (vec h1 h2 h3))"

text \<open>
  The claim of the specification about a placed item in a container of the given size:
  the clamped position plus the effective bounds stays within the container bounds,
  and the rendered bounds lie in the container.
\<close>

definition placedWithinContainer :: "real \<Rightarrow> real \<Rightarrow> real \<Rightarrow> item_meta \<Rightarrow> bool" where
  "placedWithinContainer cw ch cd meta =
    (checkFit (effectiveBoundsOf meta) \<lparr>width = Num cw, height = Num ch, depth = Num cd\<rparr>
        (originalPosition meta) \<and>
     renderedWithin (0, 0, 0) (cw, ch, cd) meta)"






text \<open>The item metadata of the meshes a ref lists.\<close>

fun metaOf :: "object3d \<Rightarrow> item_meta option" where
  "metaOf obj = (case userData obj of UItem meta \<Rightarrow> Some meta | _ \<Rightarrow> None)"

definition metasOf :: "object3d list \<Rightarrow> item_meta list" where
  "metasOf objs = List.map_filter metaOf objs"

section \<open>Example documents\<close>

text \<open>
  A document of the shape the specification gives (\<open>visualization_data\<close> with a
  container, placed items and unpacked items), with numeric entries only.
\<close>

definition numbers :: "real \<Rightarrow> real \<Rightarrow> real \<Rightarrow> jsfield" where
  "numbers a b c = Arr [JNum (Num a), JNum (Num b), JNum (Num c)]"

definition placedItem :: "jsfield \<Rightarrow> jsfield \<Rightarrow> jsfield \<Rightarrow> js_item option" where
  "placedItem ds ps rs =
     Some \<lparr>dimensions = ds, position = ps, rotation = rs, color = None, item_id = None,
           name = None, original_name = None, reason = None\<rparr>"

definition unpackedItem :: "jsfield \<Rightarrow> js_item option" where
  "unpackedItem ds = placedItem ds Missing Missing"

definition document ::
  "real \<Rightarrow> real \<Rightarrow> real \<Rightarrow> js_item option list \<Rightarrow> js_item option list \<Rightarrow> packing_result" where
  "document w h d items unpacked =
     \<lparr>vis_container = Some \<lparr>width = JNum (Num w), height = JNum (Num h), depth = JNum (Num d)\<rparr>,
      bins0_dimensions = None, vis_items = Some items, bins0_items = None, packedItems = None,
      vis_unpacked_items = Some unpacked, unpacked_items = None\<rparr>"

text \<open>A parser that reads no string as a number: \<open>parseFloat\<close> on non-numeric strings.\<close>

definition noNumber :: "string \<Rightarrow> jsnum" where
  "noNumber str = NaN"

text \<open>The scenario of the specification: a 2 x 2 x 2 item at the origin, turned by 90 degrees about Z.\<close>

definition scenarioCube :: packing_result where
  "scenarioCube = document 10 5 5 [placedItem (numbers 2 2 2) (numbers 0 0 0) (numbers 0 0 90)] []"

text \<open>A 1 x 4 x 1 item stored at x = 9 and turned by 90 degrees about Z: it lies along X.\<close>

definition turnedBar :: packing_result where
  "turnedBar = document 10 5 5 [placedItem (numbers 1 4 1) (numbers 9 0 0) (numbers 0 0 90)] []"

text \<open>A 12 x 1 x 1 item, wider than the container, without a rotation.\<close>

definition oversizedItem :: packing_result where
  "oversizedItem = document 10 5 5 [placedItem (numbers 12 1 1) (numbers 0 0 0) Missing] []"

text \<open>A 10 x 1 x 1 item at the origin: it spans the width of the container exactly.\<close>

definition exactFit :: packing_result where
  "exactFit = document 10 5 5 [placedItem (numbers 10 1 1) (numbers 0 0 0) Missing] []"

text \<open>
  Two items with malformed dimensions: the first entry an empty object (whose string
  form is \<open>[object Object]\<close>), and an array of two entries only.
\<close>

definition objectDimension :: packing_result where
  "objectDimension =
     document 10 5 5
       [placedItem (Arr [JObj ''[object Object]'', JNum (Num 1), JNum (Num 1)]) (numbers 0 0 0) Missing] []"

definition shortDimensions :: packing_result where
  "shortDimensions =
     document 10 5 5 [placedItem (Arr [JNum (Num 1), JNum (Num 2)]) (numbers 0 0 0) Missing] []"



section \<open>Notions of the specification for the camera\<close>

text \<open>
  The coordinate of a camera position along the axis of a view mode, and the largest
  dimension of a container.
\<close>

fun axisCoordinate :: "viewMode \<Rightarrow> point \<Rightarrow> real" where
  "axisCoordinate Top (x, y, z) = y"
| "axisCoordinate Front (x, y, z) = z"
| "axisCoordinate Side (x, y, z) = x"
| "axisCoordinate View3D (x, y, z) = 0"

definition largestDimension :: "real \<times> real \<times> real \<Rightarrow> real" where
  "largestDimension dims = (case dims of (w, h, d) \<Rightarrow> max w (max h d))"

text \<open>
  The effect places the camera, for the document \<open>pr\<close> whose container has the
  dimensions \<open>dims\<close>, at \<open>k\<close> times the largest dimension along the axis of the view mode.
\<close>

definition placedAtMultiple ::
  "(string \<Rightarrow> jsnum) \<Rightarrow> real \<Rightarrow> viewMode \<Rightarrow> bool \<Rightarrow> real \<times> real \<times> real \<Rightarrow> packing_result \<Rightarrow> bool" where
  "placedAtMultiple pf k mode showUnpackedArea dims pr =
     (axisCoordinate mode (fst (cameraPlacement pf mode showUnpackedArea pr)) = k * largestDimension dims)"

definition smallBox :: packing_result where
  "smallBox = document 10 5 5 [] []"

definition largeBox :: packing_result where
  "largeBox = document 20 10 10 [] []"

text \<open>Controls at rest, in a closed example: their update leaves the camera and the target where they are.\<close>

definition controlsAtRest :: controlsUpdate where
  "controlsAtRest cam ctl = (cam_position cam, target ctl)"

section \<open>Notions of the specification for the scene\<close>

text \<open>All objects of the scene graph, and the meshes the pointer handler tests.\<close>

definition sceneObjects :: "state \<Rightarrow> object3d list" where
  "sceneObjects s = (case sceneRef s of None \<Rightarrow> [] | Some scene \<Rightarrow> traverse scene)"

definition liveMeshes :: "state \<Rightarrow> object3d list" where
  "liveMeshes s = itemMeshesRef s @ unpackedMeshesRef s"

text \<open>
  The resource counts of a state: for every kind of object the number of objects of
  that kind in the scene graph (every mesh and line holds one geometry and one
  material), and the number of objects each ref of the generation tracks.
\<close>

definition resourceCounts :: "state \<Rightarrow> nat list \<times> nat list" where
  "resourceCounts s =
    (map (\<lambda>k. length (filter (\<lambda>obj. kind obj = k) (sceneObjects s)))
       [Scene, Group, Mesh, Line, LineSegments, Light, GridHelper],
     [length (itemMeshesRef s), length (unpackedMeshesRef s), length (dashedLinesRef s),
      length (refList (containerGroupRef s)), length (refList (unpackedAreaGroupRef s)),
      length (refList (separatorLineRef s))])"

definition itemCenters :: "state \<Rightarrow> vec3 list" where
  "itemCenters s = map obj_position (liveMeshes s)"

text \<open>
  The scene up to the identity of its objects: the same graph with every \<open>oid\<close> set to 0.
\<close>

fun anonymous :: "object3d \<Rightarrow> object3d" where
  "anonymous (Object3D i k p g m u cs) = Object3D 0 k p g m u (map anonymous cs)"

definition sceneShape :: "state \<Rightarrow> object3d option" where
  "sceneShape s = map_option anonymous (sceneRef s)"

text \<open>
  Object identities are fresh: every object of the scene graph was created before the
  next identity was reached. The state after initialisation has the property and the
  rebuild keeps it.
\<close>

definition idsFresh :: "state \<Rightarrow> bool" where
  "idsFresh s = list_all (\<lambda>obj. oid obj < nextObjectId s) (sceneObjects s)"

text \<open>
  An item mesh: a mesh with a Phong material that carries item metadata. The live
  meshes of a state are well-formed when they are item meshes and distinct objects.
\<close>

fun isItemMesh :: "object3d \<Rightarrow> bool" where
  "isItemMesh (Object3D i Mesh p g (MeshPhongMaterial c v) (UItem meta) cs) =
     (isPackedItem meta \<or> isUnpackedItem meta)"
| "isItemMesh obj = False"

definition liveMeshesOk :: "state \<Rightarrow> bool" where
  "liveMeshesOk s = (distinct (map oid (liveMeshes s)) \<and> list_all isItemMesh (liveMeshes s))"

text \<open>The highlight of the pointer handler, and its absence.\<close>

definition highlighted :: "object3d \<Rightarrow> bool" where
  "highlighted obj = (material obj = MeshPhongMaterial 0x444444 0.5)"

definition unlit :: "object3d \<Rightarrow> bool" where
  "unlit obj = (material obj = MeshPhongMaterial 0x000000 0)"

text \<open>
  What the library reports as \<open>intersectObjects objs\<close>: the intersections are sorted by
  distance, the nearest first. With the argument \<open>recursive\<close> true, which is its default
  and what the handler calls it with, each intersection is with an object of \<open>objs\<close> or
  with a descendant of one (\<open>raycasterRecursive\<close>); with \<open>recursive\<close> false each is with
  an object of \<open>objs\<close> itself (\<open>raycasterContract\<close>).
\<close>

definition raycasterRecursive :: "(object3d list \<Rightarrow> intersection list) \<Rightarrow> object3d list \<Rightarrow> bool" where
  "raycasterRecursive intersectObjects objs =
     (sorted (map distance (intersectObjects objs)) \<and>
      list_all (\<lambda>hit. object hit \<in> set (concat (map traverse objs))) (intersectObjects objs))"

definition raycasterContract :: "(object3d list \<Rightarrow> intersection list) \<Rightarrow> object3d list \<Rightarrow> bool" where
  "raycasterContract intersectObjects objs =
     (sorted (map distance (intersectObjects objs)) \<and>
      list_all (\<lambda>hit. object hit \<in> set objs) (intersectObjects objs))"

text \<open>
  A ray that passes the edge lines of the first object before it enters the object
  itself: the intersection with the lines (the child of the mesh) comes first.
\<close>

definition hitsEdgeLines :: "object3d list \<Rightarrow> intersection list" where
  "hitsEdgeLines objs =
    (case objs of
       [] \<Rightarrow> []
     | m # _ \<Rightarrow>
         (case children m of
            [] \<Rightarrow> []
          | line # _ \<Rightarrow> [\<lparr>distance = 28.6, object = line\<rparr>, \<lparr>distance = 29.8, object = m\<rparr>]))"

text \<open>
  Two overlapping items of 2 x 2 x 2, and a ray that hits both of them: the second at
  distance 3, the first at distance 5.
\<close>

definition twoOverlapping :: packing_result where
  "twoOverlapping =
     document 10 5 5
       [placedItem (numbers 2 2 2) (numbers 1 1 1) Missing,
        placedItem (numbers 2 2 2) (numbers 2 1 1) Missing] []"

definition hitsBoth :: "object3d list \<Rightarrow> intersection list" where
  "hitsBoth objs =
    (case objs of
       [a, b] \<Rightarrow> [\<lparr>distance = 3, object = b\<rparr>, \<lparr>distance = 5, object = a\<rparr>]
     | _ \<Rightarrow> [])"

text \<open>The objects the refs of a generation track, in the order \<open>cleanupScene\<close> removes them.\<close>

definition tracked :: "state \<Rightarrow> object3d list" where
  "tracked s =
     refList (separatorLineRef s) @ dashedLinesRef s @ itemMeshesRef s @ unpackedMeshesRef s @
     refList (containerGroupRef s) @ refList (unpackedAreaGroupRef s)"

text \<open>The tracked objects up to their identity.\<close>

definition refsShape ::
  "state \<Rightarrow> object3d list \<times> object3d list \<times> object3d list \<times> object3d option \<times> object3d option \<times> object3d option" where
  "refsShape s =
     (map anonymous (itemMeshesRef s), map anonymous (unpackedMeshesRef s),
      map anonymous (dashedLinesRef s), map_option anonymous (containerGroupRef s),
      map_option anonymous (unpackedAreaGroupRef s), map_option anonymous (separatorLineRef s))"

text \<open>A document with a placed item and four unpacked items.\<close>

definition mixedDocument :: packing_result where
  "mixedDocument =
     document 10 5 5 [placedItem (numbers 2 2 2) (numbers 0 0 0) (numbers 0 0 90)]
       [unpackedItem (numbers 2 6 2), unpackedItem (numbers 2 2 2), unpackedItem Missing,
        unpackedItem (numbers 1 1 1)]"

section \<open>Facts about the number model\<close>

lemma abs_rem: "\<bar>(a::real) - 360 * of_int (trunc (a / 360))\<bar> = \<bar>a\<bar> - 360 * of_int \<lfloor>\<bar>a\<bar> / 360\<rfloor>"
proof (cases "0 \<le> a")
  case True
  have "360 * of_int \<lfloor>a / 360\<rfloor> \<le> a" using floor_divide_lower[of 360 a] by simp
  then show ?thesis using True by (simp add: trunc_def)
next
  case False
  then have neg: "a < 0" by simp
  have c: "\<lceil>a / 360\<rceil> = - \<lfloor>\<bar>a\<bar> / 360\<rfloor>" using neg by (simp add: ceiling_def)
  have "360 * of_int \<lfloor>\<bar>a\<bar> / 360\<rfloor> \<le> \<bar>a\<bar>" using floor_divide_lower[of 360 "\<bar>a\<bar>"] by simp
  then show ?thesis using neg by (simp add: trunc_def c)
qed

lemma normalize360_nonneg: "0 \<le> a \<Longrightarrow> normalize360 a = \<bar>a\<bar> - 360 * of_int \<lfloor>\<bar>a\<bar> / 360\<rfloor>"
  by (simp add: normalize360_def)

lemma normalize360_neg:
  assumes "a < 0"
  defines "m \<equiv> \<bar>a\<bar> - 360 * of_int \<lfloor>\<bar>a\<bar> / 360\<rfloor>"
  shows "normalize360 a = (if m = 0 then 0 else 360 - m)"
proof -
  define k where "k = \<lfloor>\<bar>a\<bar> / 360\<rfloor>"
  have lo: "360 * of_int k \<le> \<bar>a\<bar>" unfolding k_def using floor_divide_lower[of 360 "\<bar>a\<bar>"] by simp
  have hi: "\<bar>a\<bar> < 360 * (of_int k + 1)" unfolding k_def using floor_divide_upper[of 360 "\<bar>a\<bar>"] by simp
  have a: "a = - m - 360 * of_int k" using assms(1) by (simp add: m_def k_def)
  have m0: "0 \<le> m" and m1: "m < 360" using lo hi by (simp_all add: m_def k_def)
  show ?thesis
  proof (cases "m = 0")
    case True
    then have "a / 360 = of_int (- k)" using a by simp
    then have "\<lfloor>a / 360\<rfloor> = - k" by (metis floor_of_int)
    then show ?thesis using True a by (simp add: normalize360_def)
  next
    case False
    then have "0 < m" using m0 by simp
    then have "\<lfloor>a / 360\<rfloor> = - k - 1" using a m1 by (intro floor_unique) (simp_all add: field_simps)
    then show ?thesis using False a by (simp add: normalize360_def)
  qed
qed

lemma quarterTurn_iff_spec_swap: "quarterTurn (Math_abs (js_rem r 360)) = spec_swap r"
proof (cases r)
  case NaN
  then show ?thesis by (simp add: quarterTurn_def)
next
  case (Num a)
  define m where "m = \<bar>a\<bar> - 360 * of_int \<lfloor>\<bar>a\<bar> / 360\<rfloor>"
  have q: "quarterTurn (Math_abs (js_rem r 360)) \<longleftrightarrow> \<bar>m - 90\<bar> < 1 \<or> \<bar>m - 270\<bar> < 1"
    using Num by (simp add: quarterTurn_def abs_rem m_def)
  show ?thesis
  proof (cases "0 \<le> a")
    case True
    then show ?thesis using q Num normalize360_nonneg[of a] by (simp add: m_def)
  next
    case False
    then have "normalize360 a = (if m = 0 then 0 else 360 - m)"
      using normalize360_neg[of a] by (simp add: m_def)
    then show ?thesis using q Num by (auto simp: abs_if split: if_splits)
  qed
qed

lemma getRotatedDimensions_cases:
  "getRotatedDimensions w h d rotX rotY rotZ \<in>
     {\<lparr>width = w, height = h, depth = d\<rparr>, \<lparr>width = h, height = w, depth = d\<rparr>,
      \<lparr>width = d, height = h, depth = w\<rparr>, \<lparr>width = d, height = w, depth = h\<rparr>,
      \<lparr>width = w, height = d, depth = h\<rparr>, \<lparr>width = h, height = d, depth = w\<rparr>}"
  by (simp add: getRotatedDimensions_def Let_def)

text \<open>
  C2. The rotation transform normalises each angle modulo 360 and applies one swap
  decision per axis, in the order Z, Y, X, to the running triple: the two dimensions
  orthogonal to an axis are swapped exactly when the normalised angle is less than one
  degree from 90 or 270. \<open>effectiveBounds_spec\<close> is this description, with the
  mathematical modulo; the function of the component, which takes the absolute value
  of the truncated remainder instead, computes the same triple. The three examples of
  the specification hold.
\<close>

theorem C2_rotation_transform:
  "getRotatedDimensions w h d rotX rotY rotZ = effectiveBounds_spec w h d rotX rotY rotZ
   \<and> getRotatedDimensions w h d (Num 0) (Num 0) (Num 90) = \<lparr>width = h, height = w, depth = d\<rparr>
   \<and> getRotatedDimensions w h d (Num 90) (Num 0) (Num 0) = \<lparr>width = w, height = d, depth = h\<rparr>
   \<and> getRotatedDimensions w h d (Num 0) (Num 0) (Num 0) = \<lparr>width = w, height = h, depth = d\<rparr>"
proof -
  have "getRotatedDimensions w h d rotX rotY rotZ = effectiveBounds_spec w h d rotX rotY rotZ"
    by (simp add: getRotatedDimensions_def effectiveBounds_spec_def quarterTurn_iff_spec_swap
        swapX_def swapY_def swapZ_def Let_def)
  moreover have "getRotatedDimensions w h d (Num 0) (Num 0) (Num 90) = \<lparr>width = h, height = w, depth = d\<rparr>"
    by (simp add: getRotatedDimensions_def quarterTurn_def trunc_def)
  moreover have "getRotatedDimensions w h d (Num 90) (Num 0) (Num 0) = \<lparr>width = w, height = d, depth = h\<rparr>"
    by (simp add: getRotatedDimensions_def quarterTurn_def trunc_def)
  moreover have "getRotatedDimensions w h d (Num 0) (Num 0) (Num 0) = \<lparr>width = w, height = h, depth = d\<rparr>"
    by (simp add: getRotatedDimensions_def quarterTurn_def trunc_def)
  ultimately show ?thesis by simp
qed

lemma decimal_tenths:
  "decimal 0.1 = Num (3602879701896397 / 36028797018963968)"
  "decimal 0.2 = Num (3602879701896397 / 18014398509481984)"
  "decimal 0.3 = Num (5404319552844595 / 18014398509481984)"
  by (simp_all add: decimal_def fl_def exponent_def bits.simps pow2_def roundHalfEven_def Let_def)

lemma fl_products:
  "fl (3602879701896397 / 36028797018963968 * (3602879701896397 / 18014398509481984))
     = 1441151880758559 / 72057594037927936"
  "fl (1441151880758559 / 72057594037927936 * (5404319552844595 / 18014398509481984))
     = 6917529027641083 / 1152921504606846976"
  "fl (5404319552844595 / 18014398509481984 * (3602879701896397 / 18014398509481984))
     = 1080863910568919 / 18014398509481984"
  "fl (1080863910568919 / 18014398509481984 * (3602879701896397 / 36028797018963968))
     = 3458764513820541 / 576460752303423488"
  by (simp_all add: fl_def exponent_def bits.simps pow2_def roundHalfEven_def Let_def)

text \<open>
  C9 as stated fails in its second half: the product of three doubles depends on the
  order of the factors. For the dimensions \<open>0.1, 0.2, 0.3\<close> the volume is
  \<open>0.1 * 0.2 * 0.3 = 0.006000000000000001\<close>; a rotation of 90 degrees about Y turns the
  triple into \<open>0.3, 0.2, 0.1\<close>, whose volume is \<open>0.3 * 0.2 * 0.1 = 0.006\<close>, the double
  next below.
\<close>

theorem C9_volume_counterexample:
  "calculateVolume (decimal 0.1) (decimal 0.2) (decimal 0.3)
     = Num (6917529027641083 / 1152921504606846976)
   \<and> getRotatedDimensions (decimal 0.1) (decimal 0.2) (decimal 0.3) (Num 0) (Num 90) (Num 0)
     = \<lparr>width = decimal 0.3, height = decimal 0.2, depth = decimal 0.1\<rparr>
   \<and> calculateVolume (decimal 0.3) (decimal 0.2) (decimal 0.1)
     = Num (3458764513820541 / 576460752303423488)
   \<and> calculateVolume
        (width (getRotatedDimensions (decimal 0.1) (decimal 0.2) (decimal 0.3) (Num 0) (Num 90) (Num 0)))
        (height (getRotatedDimensions (decimal 0.1) (decimal 0.2) (decimal 0.3) (Num 0) (Num 90) (Num 0)))
        (depth (getRotatedDimensions (decimal 0.1) (decimal 0.2) (decimal 0.3) (Num 0) (Num 90) (Num 0)))
     \<noteq> calculateVolume (decimal 0.1) (decimal 0.2) (decimal 0.3)"
proof -
  have a: "calculateVolume (decimal 0.1) (decimal 0.2) (decimal 0.3)
             = Num (6917529027641083 / 1152921504606846976)"
    by (simp only: calculateVolume_def decimal_tenths js_times.simps fl_products)
  have b: "calculateVolume (decimal 0.3) (decimal 0.2) (decimal 0.1)
             = Num (3458764513820541 / 576460752303423488)"
    by (simp only: calculateVolume_def decimal_tenths js_times.simps fl_products)
  have r: "getRotatedDimensions (decimal 0.1) (decimal 0.2) (decimal 0.3) (Num 0) (Num 90) (Num 0)
             = \<lparr>width = decimal 0.3, height = decimal 0.2, depth = decimal 0.1\<rparr>"
    by (simp add: getRotatedDimensions_def quarterTurn_def trunc_def)
  have v: "calculateVolume
        (width (getRotatedDimensions (decimal 0.1) (decimal 0.2) (decimal 0.3) (Num 0) (Num 90) (Num 0)))
        (height (getRotatedDimensions (decimal 0.1) (decimal 0.2) (decimal 0.3) (Num 0) (Num 90) (Num 0)))
        (depth (getRotatedDimensions (decimal 0.1) (decimal 0.2) (decimal 0.3) (Num 0) (Num 90) (Num 0)))
      = Num (3458764513820541 / 576460752303423488)"
    by (simp only: r dims.select_convs b)
  have n: "Num (3458764513820541 / 576460752303423488) \<noteq> Num (6917529027641083 / 1152921504606846976)"
    by simp
  show ?thesis
  proof (intro conjI)
    show "calculateVolume
        (width (getRotatedDimensions (decimal 0.1) (decimal 0.2) (decimal 0.3) (Num 0) (Num 90) (Num 0)))
        (height (getRotatedDimensions (decimal 0.1) (decimal 0.2) (decimal 0.3) (Num 0) (Num 90) (Num 0)))
        (depth (getRotatedDimensions (decimal 0.1) (decimal 0.2) (decimal 0.3) (Num 0) (Num 90) (Num 0)))
      \<noteq> calculateVolume (decimal 0.1) (decimal 0.2) (decimal 0.3)"
      unfolding v a by (rule n)
  qed (rule a r b)+
qed

text \<open>
  C9, as amended. The triple the rotation transform returns is a permutation of the
  input dimensions, whatever the angles are: as multisets the two are equal.
\<close>

theorem C9_rotation_permutes:
  "mset [width (getRotatedDimensions w h d rotX rotY rotZ),
         height (getRotatedDimensions w h d rotX rotY rotZ),
         depth (getRotatedDimensions w h d rotX rotY rotZ)] = mset [w, h, d]"
  by (simp add: getRotatedDimensions_def Let_def)

text \<open>
  C10. \<open>calculateEfficiency\<close> is total: it always returns a value, never the non-finite
  result of a division by zero. It returns 0 when the container volume is 0, whatever
  the packed volume is, and \<open>packedVolume / containerVolume * 100\<close> otherwise (\<open>NaN\<close>
  when an argument is \<open>NaN\<close>).
\<close>

theorem C10_calculateEfficiency_total:
  "calculateEfficiency packedVolume (Num 0) = Some (Num 0)
   \<and> calculateEfficiency (Num p) (Num c) = Some (Num (if c = 0 then 0 else p / c * 100))
   \<and> calculateEfficiency NaN (Num c) = Some (if c = 0 then Num 0 else NaN)
   \<and> calculateEfficiency packedVolume NaN = Some NaN
   \<and> calculateEfficiency packedVolume containerVolume \<noteq> None"
  by (cases packedVolume; cases containerVolume) (simp_all add: calculateEfficiency_def)

section \<open>The packed items of a rebuilt scene\<close>

lemma packedItemData_Created:
  assumes "packedItemData pf cw ch cd i item = Created meta"
  obtains it ds ps rs where
    "item = Some it" "dimensions it \<noteq> Missing" "position it \<noteq> Missing"
    "mapEntries pf 0.5 (dimensions it) = Some ds"
    "mapEntries pf 0 (position it) = Some ps"
    "mapEntries pf 0 (if rotation it = Missing then Arr [JNum (Num 0), JNum (Num 0), JNum (Num 0)]
                      else rotation it) = Some rs"
    "meta = placePackedItem cw ch cd i it ds ps rs"
  using assms unfolding packedItemData_def
  by (auto split: option.splits if_splits)

lemma placePackedItem_fields:
  assumes "meta = placePackedItem cw ch cd i it ds ps rs"
  shows
    "ud_dimensions meta = \<lparr>width = Math_max (entry ds 0) (Num 0.01),
        height = Math_max (entry ds 1) (Num 0.01), depth = Math_max (entry ds 2) (Num 0.01)\<rparr>"
    "originalPosition meta =
       (Math_max (Num 0.001) (Math_min (entry ps 0) (js_sub (js_sub (Num cw) (width (ud_dimensions meta))) (Num 0.001))),
        Math_max (Num 0.001) (Math_min (entry ps 1) (js_sub (js_sub (Num ch) (height (ud_dimensions meta))) (Num 0.001))),
        Math_max (Num 0.001) (Math_min (entry ps 2) (js_sub (js_sub (Num cd) (depth (ud_dimensions meta))) (Num 0.001))))"
    "rotatedDimensions meta =
       Some (getRotatedDimensions (width (ud_dimensions meta)) (height (ud_dimensions meta))
               (depth (ud_dimensions meta)) (entry rs 0) (entry rs 1) (entry rs 2))"
    "centerPosition meta =
       (js_add (fst (originalPosition meta)) (js_half (width (effectiveBoundsOf meta))),
        js_add (fst (snd (originalPosition meta))) (js_half (height (effectiveBoundsOf meta))),
        js_add (snd (snd (originalPosition meta))) (js_half (depth (effectiveBoundsOf meta))))"
    "originalColor meta = js_or_str (color it) ''#10b981''"
    "itemName meta = js_or_str (original_name it)
        (js_or_str (name it) (js_or_str (item_id it) (''item_'' @ string_of_nat i)))"
    "ud_rotation meta = Some (entry rs 0, entry rs 1, entry rs 2)"
    "isPackedItem meta" "\<not> isUnpackedItem meta"
  unfolding assms
  by (simp_all add: placePackedItem_def destructure3_def Let_def effectiveBoundsOf_def)

lemma Math_max_eq_Num: "Math_max a b = Num x \<longleftrightarrow> (\<exists>a' b'. a = Num a' \<and> b = Num b' \<and> x = max a' b')"
  by (cases a; cases b) auto

lemma Math_min_eq_Num: "Math_min a b = Num x \<longleftrightarrow> (\<exists>a' b'. a = Num a' \<and> b = Num b' \<and> x = min a' b')"
  by (cases a; cases b) auto

lemma clamp_Num:
  assumes "Math_max (Num lo) (Math_min p (js_sub (js_sub (Num c) (Num w)) (Num m))) = Num x"
  obtains p' where "p = Num p'" "x = max lo (min p' (c - w - m))"
  using assms by (cases p) auto

lemma clamp_bounds:
  fixes x :: real
  assumes "x = max lo (min p (c - w - m))" "lo + w + m \<le> c"
  shows "lo \<le> x" "x + w \<le> c - m"
  using assms by auto

lemma metasOf_Nil [simp]: "metasOf [] = []"
  by (simp add: metasOf_def List.map_filter_simps)

lemma metasOf_itemMesh [simp]: "metasOf (itemMesh n e meta # objs) = meta # metasOf objs"
  by (simp add: metasOf_def List.map_filter_simps itemMesh_def Let_def)

lemma metasOf_append [simp]: "metasOf (xs @ ys) = metasOf xs @ metasOf ys"
  by (simp add: metasOf_def List.map_filter_def)

text \<open>The metadata of the created meshes: the created results of the iterations, in order.\<close>

lemma in_metasOf_createPackedItems:
  assumes "meta \<in> set (metasOf (createPackedItems pf cw ch cd i n items))"
  shows "\<exists>k < length items. packedItemData pf cw ch cd (i + k) (items ! k) = Created meta"
  using assms
proof (induction items arbitrary: i n)
  case Nil
  then show ?case by simp
next
  case (Cons item rest)
  show ?case
  proof (cases "packedItemData pf cw ch cd i item")
    case (Created m)
    with Cons.prems have "meta = m \<or> meta \<in> set (metasOf (createPackedItems pf cw ch cd (i + 1) (n + 2) rest))"
      by simp
    then show ?thesis
    proof
      assume "meta = m"
      with Created have "packedItemData pf cw ch cd (i + 0) ((item # rest) ! 0) = Created meta" by simp
      then show ?thesis by (intro exI[of _ 0]) simp
    next
      assume "meta \<in> set (metasOf (createPackedItems pf cw ch cd (i + 1) (n + 2) rest))"
      from Cons.IH[OF this] obtain k where "k < length rest"
        "packedItemData pf cw ch cd (i + 1 + k) (rest ! k) = Created meta" by blast
      then show ?thesis by (intro exI[of _ "Suc k"]) simp
    qed
  next
    case Skipped
    with Cons.prems have "meta \<in> set (metasOf (createPackedItems pf cw ch cd (i + 1) n rest))" by simp
    from Cons.IH[OF this] obtain k where "k < length rest"
      "packedItemData pf cw ch cd (i + 1 + k) (rest ! k) = Created meta" by blast
    then show ?thesis by (intro exI[of _ "Suc k"]) simp
  next
    case Threw
    with Cons.prems have "meta \<in> set (metasOf (createPackedItems pf cw ch cd (i + 1) n rest))" by simp
    from Cons.IH[OF this] obtain k where "k < length rest"
      "packedItemData pf cw ch cd (i + 1 + k) (rest ! k) = Created meta" by blast
    then show ?thesis by (intro exI[of _ "Suc k"]) simp
  qed
qed

section \<open>What the refs hold after the clean-up and after a rebuild\<close>

lemma cleanedScene_None: "cleanedScene b s = None \<longleftrightarrow> sceneRef s = None"
  by (simp add: cleanedScene_def Let_def detach_def)

lemma cleanupScene_fields:
  "nextObjectId (cleanupScene b s) = nextObjectId s"
  "isInitialized (cleanupScene b s) = isInitialized s"
  "canvasRef (cleanupScene b s) = canvasRef s"
  "cameraRef (cleanupScene b s) = cameraRef s"
  "itemMeshesRef (cleanupScene b s) = []"
  "unpackedMeshesRef (cleanupScene b s) = []"
  "dashedLinesRef (cleanupScene b s) = []"
  "containerGroupRef (cleanupScene b s) = None"
  "unpackedAreaGroupRef (cleanupScene b s) = None"
  "separatorLineRef (cleanupScene b s) = None"
  "sceneRef (cleanupScene b s) = cleanedScene b s"
  by (simp_all add: cleanupScene_def)

lemma createUnpackedArea_fields:
  "itemMeshesRef (createUnpackedArea pf cw ch cd us sc s) = itemMeshesRef s"
  "containerGroupRef (createUnpackedArea pf cw ch cd us sc s) = containerGroupRef s"
  "unpackedMeshesRef (createUnpackedArea pf cw ch cd us sc s) = unpackedMeshes pf cw ch cd (nextObjectId s) us"
  "dashedLinesRef (createUnpackedArea pf cw ch cd us sc s) = unpackedAreaDashes cw ch cd (nextObjectId s)"
  "unpackedAreaGroupRef (createUnpackedArea pf cw ch cd us sc s) = Some (unpackedAreaGroup cw ch cd (nextObjectId s))"
  by (simp_all add: createUnpackedArea_def Let_def)

lemma itemMeshes_createVisualization:
  assumes "containerDataOf pr = Some c" "sceneRef s = Some sc" "containerDimensions pf c = (cw, ch, cd)"
  shows "itemMeshesRef (createVisualization pf pr s) =
           createPackedItems pf cw ch cd 0 (nextObjectId s + 17) (itemsOf pr)"
  using assms by (simp add: createVisualization_def Let_def createUnpackedArea_fields)

lemma itemMeshes_rebuild:
  assumes "sceneRef s \<noteq> None" "isInitialized s"
    and "containerDataOf pr = Some c" "containerDimensions pf c = (cw, ch, cd)"
  shows "itemMeshesRef (rebuild pf (Some pr) s) =
           createPackedItems pf cw ch cd 0 (nextObjectId s + 17) (itemsOf pr)"
proof -
  let ?s = "(cleanupScene False s)\<lparr>itemMeshesRef := [], unpackedMeshesRef := []\<rparr>"
  obtain sc where sc: "sceneRef ?s = Some sc"
    using assms(1) cleanedScene_None[of False s]
    by (cases "cleanedScene False s") (auto simp: cleanupScene_fields)
  have "rebuild pf (Some pr) s = createVisualization pf pr ?s"
    using assms(1,2) by (auto simp add: rebuild_def Let_def)
  then show ?thesis
    using itemMeshes_createVisualization[OF assms(3) sc assms(4)]
    by (simp add: cleanupScene_fields)
qed

section \<open>The scenario of the 2 x 2 x 2 item\<close>

lemma document_parts:
  "containerDataOf (document w h d items unpacked) =
     Some \<lparr>width = JNum (Num w), height = JNum (Num h), depth = JNum (Num d)\<rparr>"
  "itemsOf (document w h d items unpacked) = items"
  "unpackedItemsOf (document w h d items unpacked) = unpacked"
  by (simp_all add: document_def containerDataOf_def itemsOf_def unpackedItemsOf_def)

lemma containerDimensions_numbers:
  "w \<noteq> 0 \<Longrightarrow> h \<noteq> 0 \<Longrightarrow> d \<noteq> 0 \<Longrightarrow>
   containerDimensions pf \<lparr>width = JNum (Num w), height = JNum (Num h), depth = JNum (Num d)\<rparr> = (w, h, d)"
  by (simp add: containerDimensions_def)

lemma scenarioCube_data:
  "packedItemData pf 10 5 5 0 (placedItem (numbers 2 2 2) (numbers 0 0 0) (numbers 0 0 90)) =
     Created (placePackedItem 10 5 5 0
       \<lparr>dimensions = numbers 2 2 2, position = numbers 0 0 0, rotation = numbers 0 0 90,
        color = None, item_id = None, name = None, original_name = None, reason = None\<rparr>
       [Num 2, Num 2, Num 2] [Num 0, Num 0, Num 0] [Num 0, Num 0, Num 90])"
  by (simp add: packedItemData_def placedItem_def numbers_def)

lemma scenarioCube_placed:
  "effectiveBoundsOf (placePackedItem 10 5 5 0 it [Num 2, Num 2, Num 2] [Num 0, Num 0, Num 0] [Num 0, Num 0, Num 90])
     = \<lparr>width = Num 2, height = Num 2, depth = Num 2\<rparr>"
  "centerPosition (placePackedItem 10 5 5 0 it [Num 2, Num 2, Num 2] [Num 0, Num 0, Num 0] [Num 0, Num 0, Num 90])
     = (Num 1.001, Num 1.001, Num 1.001)"
  by (simp_all add: placePackedItem_def destructure3_def entry.simps Let_def effectiveBoundsOf_def
        getRotatedDimensions_def quarterTurn_def trunc_def)

lemma obj_position_itemMesh [simp]: "obj_position (itemMesh n e meta) = centerPosition meta"
  by (simp add: itemMesh_def Let_def)

text \<open>
  C8, as amended. For a container of 10 x 5 x 5 and the single placed item of
  2 x 2 x 2 at the stored position (0,0,0) with the rotation (0,0,90), rebuild yields
  the effective bounds (2,2,2) and the render centre (1.001, 1.001, 1.001): the stored
  position is first raised to the margin 0.001 the clamp keeps from every wall.
\<close>

theorem C8_scenario_center:
  assumes "sceneRef s \<noteq> None" and "isInitialized s"
  shows "map effectiveBoundsOf (metasOf (itemMeshesRef (rebuild pf (Some scenarioCube) s)))
           = [\<lparr>width = Num 2, height = Num 2, depth = Num 2\<rparr>]
       \<and> map obj_position (itemMeshesRef (rebuild pf (Some scenarioCube) s))
           = [(Num 1.001, Num 1.001, Num 1.001)]"
proof -
  have "itemMeshesRef (rebuild pf (Some scenarioCube) s) =
          createPackedItems pf 10 5 5 0 (nextObjectId s + 17)
            [placedItem (numbers 2 2 2) (numbers 0 0 0) (numbers 0 0 90)]"
    using itemMeshes_rebuild[OF assms, of scenarioCube _ pf 10 5 5]
    by (simp add: scenarioCube_def document_parts containerDimensions_numbers)
  then show ?thesis
    by (simp add: scenarioCube_data scenarioCube_placed)
qed

theorem C8_scenario_center_witness:
  "sceneRef initialState \<noteq> None \<and> isInitialized initialState
   \<and> map obj_position (itemMeshesRef (rebuild noNumber (Some scenarioCube) initialState))
           = [(Num 1.001, Num 1.001, Num 1.001)]"
proof -
  have h: "sceneRef initialState \<noteq> None" "isInitialized initialState"
    by (simp_all add: initialState_def)
  show ?thesis using h C8_scenario_center[OF h, of noNumber] by simp
qed

text \<open>
  The claim as the specification states it, a render centre of exactly (1,1,1), fails
  on the scenario.
\<close>

theorem C8_center_counterexample:
  "map obj_position (itemMeshesRef (rebuild noNumber (Some scenarioCube) initialState))
     \<noteq> [(Num 1, Num 1, Num 1)]"
proof -
  have h: "sceneRef initialState \<noteq> None" "isInitialized initialState"
    by (simp_all add: initialState_def)
  have "itemMeshesRef (rebuild noNumber (Some scenarioCube) initialState) =
          createPackedItems noNumber 10 5 5 0 (nextObjectId initialState + 17)
            [placedItem (numbers 2 2 2) (numbers 0 0 0) (numbers 0 0 90)]"
    using itemMeshes_rebuild[OF h, of scenarioCube _ noNumber 10 5 5]
    by (simp add: scenarioCube_def document_parts containerDimensions_numbers)
  then show ?thesis
    by (simp add: scenarioCube_data scenarioCube_placed)
qed

section \<open>The clamp of the packed items\<close>

lemma oversizedItem_data:
  "packedItemData pf 10 5 5 0 (placedItem (numbers 12 1 1) (numbers 0 0 0) Missing) =
     Created (placePackedItem 10 5 5 0
       \<lparr>dimensions = numbers 12 1 1, position = numbers 0 0 0, rotation = Missing,
        color = None, item_id = None, name = None, original_name = None, reason = None\<rparr>
       [Num 12, Num 1, Num 1] [Num 0, Num 0, Num 0] [Num 0, Num 0, Num 0])"
  by (simp add: packedItemData_def placedItem_def numbers_def)

lemma oversizedItem_placed:
  "effectiveBoundsOf (placePackedItem 10 5 5 0 it [Num 12, Num 1, Num 1] [Num 0, Num 0, Num 0] [Num 0, Num 0, Num 0])
     = \<lparr>width = Num 12, height = Num 1, depth = Num 1\<rparr>"
  "originalPosition (placePackedItem 10 5 5 0 it [Num 12, Num 1, Num 1] [Num 0, Num 0, Num 0] [Num 0, Num 0, Num 0])
     = (Num 0.001, Num 0.001, Num 0.001)"
  by (simp_all add: placePackedItem_def destructure3_def entry.simps Let_def effectiveBoundsOf_def
        getRotatedDimensions_def quarterTurn_def trunc_def)

lemma exactFit_data:
  "packedItemData pf 10 5 5 0 (placedItem (numbers 10 1 1) (numbers 0 0 0) Missing) =
     Created (placePackedItem 10 5 5 0
       \<lparr>dimensions = numbers 10 1 1, position = numbers 0 0 0, rotation = Missing,
        color = None, item_id = None, name = None, original_name = None, reason = None\<rparr>
       [Num 10, Num 1, Num 1] [Num 0, Num 0, Num 0] [Num 0, Num 0, Num 0])"
  by (simp add: packedItemData_def placedItem_def numbers_def)

lemma exactFit_placed:
  "effectiveBoundsOf (placePackedItem 10 5 5 0 it [Num 10, Num 1, Num 1] [Num 0, Num 0, Num 0] [Num 0, Num 0, Num 0])
     = \<lparr>width = Num 10, height = Num 1, depth = Num 1\<rparr>"
  "originalPosition (placePackedItem 10 5 5 0 it [Num 10, Num 1, Num 1] [Num 0, Num 0, Num 0] [Num 0, Num 0, Num 0])
     = (Num 0.001, Num 0.001, Num 0.001)"
  by (simp_all add: placePackedItem_def destructure3_def entry.simps Let_def effectiveBoundsOf_def
        getRotatedDimensions_def quarterTurn_def trunc_def)

text \<open>
  C1 as the specification states it fails. Where the stored size overflows the
  container no position keeps the item inside: the lower bound of the clamp wins, a
  12 x 1 x 1 item in a container 10 wide is placed at x = 0.001 and reaches x = 12.001.
  And the clamp keeps a margin of 0.001 to either wall: a 10 x 1 x 1 item stored at
  the origin, which spans the container exactly, is moved to x = 0.001 and reaches
  x = 10.001.
\<close>

theorem C1_clamp_counterexample:
  "\<not> list_all (placedWithinContainer 10 5 5)
       (metasOf (itemMeshesRef (rebuild noNumber (Some oversizedItem) initialState)))
   \<and> \<not> list_all (placedWithinContainer 10 5 5)
       (metasOf (itemMeshesRef (rebuild noNumber (Some exactFit) initialState)))"
proof -
  have h: "sceneRef initialState \<noteq> None" "isInitialized initialState"
    by (simp_all add: initialState_def)
  have "itemMeshesRef (rebuild noNumber (Some oversizedItem) initialState) =
          createPackedItems noNumber 10 5 5 0 (nextObjectId initialState + 17)
            [placedItem (numbers 12 1 1) (numbers 0 0 0) Missing]"
    using itemMeshes_rebuild[OF h, of oversizedItem _ noNumber 10 5 5]
    by (simp add: oversizedItem_def document_parts containerDimensions_numbers)
  then have a: "\<not> list_all (placedWithinContainer 10 5 5)
       (metasOf (itemMeshesRef (rebuild noNumber (Some oversizedItem) initialState)))"
    by (simp add: oversizedItem_data placedWithinContainer_def checkFit_def oversizedItem_placed)
  have "itemMeshesRef (rebuild noNumber (Some exactFit) initialState) =
          createPackedItems noNumber 10 5 5 0 (nextObjectId initialState + 17)
            [placedItem (numbers 10 1 1) (numbers 0 0 0) Missing]"
    using itemMeshes_rebuild[OF h, of exactFit _ noNumber 10 5 5]
    by (simp add: exactFit_def document_parts containerDimensions_numbers)
  then have b: "\<not> list_all (placedWithinContainer 10 5 5)
       (metasOf (itemMeshesRef (rebuild noNumber (Some exactFit) initialState)))"
    by (simp add: exactFit_data placedWithinContainer_def checkFit_def exactFit_placed)
  from a b show ?thesis by simp
qed

lemma turnedBar_data:
  "packedItemData pf 10 5 5 0 (placedItem (numbers 1 4 1) (numbers 9 0 0) (numbers 0 0 90)) =
     Created (placePackedItem 10 5 5 0
       \<lparr>dimensions = numbers 1 4 1, position = numbers 9 0 0, rotation = numbers 0 0 90,
        color = None, item_id = None, name = None, original_name = None, reason = None\<rparr>
       [Num 1, Num 4, Num 1] [Num 9, Num 0, Num 0] [Num 0, Num 0, Num 90])"
  by (simp add: packedItemData_def placedItem_def numbers_def)

lemma turnedBar_placed:
  "effectiveBoundsOf (placePackedItem 10 5 5 0 it [Num 1, Num 4, Num 1] [Num 9, Num 0, Num 0] [Num 0, Num 0, Num 90])
     = \<lparr>width = Num 4, height = Num 1, depth = Num 1\<rparr>"
  "originalPosition (placePackedItem 10 5 5 0 it [Num 1, Num 4, Num 1] [Num 9, Num 0, Num 0] [Num 0, Num 0, Num 90])
     = (Num 8.999, Num 0.001, Num 0.001)"
  "centerPosition (placePackedItem 10 5 5 0 it [Num 1, Num 4, Num 1] [Num 9, Num 0, Num 0] [Num 0, Num 0, Num 90])
     = (Num 10.999, Num 0.501, Num 0.501)"
  by (simp_all add: placePackedItem_def destructure3_def entry.simps Let_def effectiveBoundsOf_def
        getRotatedDimensions_def quarterTurn_def trunc_def)

text \<open>
  The position is clamped against the unrotated dimensions, before the rotated ones
  are computed. A 1 x 4 x 1 item that fits the container, stored at x = 9 and turned by
  90 degrees about Z, is clamped to x = 8.999 (which suits its unrotated width 1) and
  rendered with the effective width 4, from x = 8.999 to x = 12.999 in a container 10 wide.
\<close>

lemma turnedBar_protrudes:
  "\<not> list_all (placedWithinContainer 10 5 5)
       (metasOf (itemMeshesRef (rebuild noNumber (Some turnedBar) initialState)))"
proof -
  have h: "sceneRef initialState \<noteq> None" "isInitialized initialState"
    by (simp_all add: initialState_def)
  have "itemMeshesRef (rebuild noNumber (Some turnedBar) initialState) =
          createPackedItems noNumber 10 5 5 0 (nextObjectId initialState + 17)
            [placedItem (numbers 1 4 1) (numbers 9 0 0) (numbers 0 0 90)]"
    using itemMeshes_rebuild[OF h, of turnedBar _ noNumber 10 5 5]
    by (simp add: turnedBar_def document_parts containerDimensions_numbers)
  then show ?thesis
    by (simp add: turnedBar_data placedWithinContainer_def checkFit_def turnedBar_placed)
qed

lemma placed_within_unrotated:
  assumes meta: "meta = placePackedItem cw ch cd i it ds ps rs"
    and dims: "ud_dimensions meta = \<lparr>width = Num w, height = Num h, depth = Num d\<rparr>"
    and pos: "originalPosition meta = (Num x, Num y, Num z)"
    and fit: "w + 0.002 \<le> cw" "h + 0.002 \<le> ch" "d + 0.002 \<le> cd"
  shows "0 \<le> x \<and> x + w \<le> cw" "0 \<le> y \<and> y + h \<le> ch" "0 \<le> z \<and> z + d \<le> cd"
proof -
  note p = placePackedItem_fields(2)[OF meta, unfolded dims pos, simplified]
  from p obtain px where "x = max 0.001 (min px (cw - w - 0.001))"
    by (cases "entry ps 0") auto
  then show "0 \<le> x \<and> x + w \<le> cw" using fit(1) by auto
  from p obtain py where "y = max 0.001 (min py (ch - h - 0.001))"
    by (cases "entry ps 1") auto
  then show "0 \<le> y \<and> y + h \<le> ch" using fit(2) by auto
  from p obtain pz where "z = max 0.001 (min pz (cd - d - 0.001))"
    by (cases "entry ps 2") auto
  then show "0 \<le> z \<and> z + d \<le> cd" using fit(3) by auto
qed

text \<open>
  C1, as amended. For every document and every placed item of it whose (floored)
  dimensions and clamped position are numbers, whose effective bounds are its stored
  dimensions (no quarter turn exchanges two of them) and fit the container between the
  margins of the clamp (each dimension plus 0.002 is at most the container's, which
  makes the container dimensions positive), rebuild clamps the stored position so that
  \<open>position + effectiveBounds \<le> containerBounds\<close> component-wise, and the rendered
  bounds lie within \<open>[0,width] x [0,height] x [0,depth]\<close>, wherever the document stores
  the item.
\<close>

theorem C1_clamp_within:
  assumes "sceneRef s \<noteq> None" and "isInitialized s"
    and "containerDataOf pr = Some c" and "containerDimensions pf c = (cw, ch, cd)"
    and "meta \<in> set (metasOf (itemMeshesRef (rebuild pf (Some pr) s)))"
    and dims: "ud_dimensions meta = \<lparr>width = Num w, height = Num h, depth = Num d\<rparr>"
    and pos: "originalPosition meta = (Num x, Num y, Num z)"
    and same: "effectiveBoundsOf meta = ud_dimensions meta"
    and fit: "w + 0.002 \<le> cw" "h + 0.002 \<le> ch" "d + 0.002 \<le> cd"
  shows "placedWithinContainer cw ch cd meta"
proof -
  have "meta \<in> set (metasOf (createPackedItems pf cw ch cd 0 (nextObjectId s + 17) (itemsOf pr)))"
    using assms(5) itemMeshes_rebuild[OF assms(1-4)] by simp
  then obtain k where "packedItemData pf cw ch cd (0 + k) (itemsOf pr ! k) = Created meta"
    using in_metasOf_createPackedItems by blast
  then obtain it ds ps rs where meta: "meta = placePackedItem cw ch cd (0 + k) it ds ps rs"
    by (rule packedItemData_Created)
  note b = placed_within_unrotated[OF meta dims pos fit]
  have fitc: "checkFit (ud_dimensions meta) \<lparr>width = Num cw, height = Num ch, depth = Num cd\<rparr>
            (originalPosition meta)"
    using b by (simp add: checkFit_def dims pos)
  have c: "centerPosition meta = (Num (x + w / 2), Num (y + h / 2), Num (z + d / 2))"
    using placePackedItem_fields(4)[OF meta] by (simp add: same dims pos)
  show ?thesis
    using b fitc
    by (simp add: placedWithinContainer_def renderedWithin_def renderedLower_def
        renderedUpper_def vec_le_def vec_def same dims c)
qed

theorem C1_clamp_within_witness:
  "list_all (placedWithinContainer 10 5 5)
     (metasOf (itemMeshesRef (rebuild noNumber (Some scenarioCube) initialState)))"
proof -
  have h: "sceneRef initialState \<noteq> None" "isInitialized initialState"
    by (simp_all add: initialState_def)
  let ?it = "\<lparr>dimensions = numbers 2 2 2, position = numbers 0 0 0, rotation = numbers 0 0 90,
        color = None, item_id = None, name = None, original_name = None, reason = None\<rparr>"
  let ?meta = "placePackedItem 10 5 5 0 ?it [Num 2, Num 2, Num 2] [Num 0, Num 0, Num 0] [Num 0, Num 0, Num 90]"
  have ms: "metasOf (itemMeshesRef (rebuild noNumber (Some scenarioCube) initialState)) = [?meta]"
    using itemMeshes_rebuild[OF h, of scenarioCube _ noNumber 10 5 5]
    by (simp add: scenarioCube_def document_parts containerDimensions_numbers scenarioCube_data)
  have d: "ud_dimensions ?meta = \<lparr>width = Num 2, height = Num 2, depth = Num 2\<rparr>"
    and p: "originalPosition ?meta = (Num 0.001, Num 0.001, Num 0.001)"
    by (simp_all add: placePackedItem_def destructure3_def entry.simps Let_def)
  have c: "containerDataOf scenarioCube =
             Some \<lparr>width = JNum (Num 10), height = JNum (Num 5), depth = JNum (Num 5)\<rparr>"
    and cd: "containerDimensions noNumber
               \<lparr>width = JNum (Num 10), height = JNum (Num 5), depth = JNum (Num 5)\<rparr> = (10, 5, 5)"
    by (simp_all add: scenarioCube_def document_parts containerDimensions_numbers)
  have mem: "?meta \<in> set (metasOf (itemMeshesRef (rebuild noNumber (Some scenarioCube) initialState)))"
    by (simp add: ms)
  have e: "effectiveBoundsOf ?meta = ud_dimensions ?meta"
    by (simp add: scenarioCube_placed d)
  have "placedWithinContainer 10 5 5 ?meta"
    using C1_clamp_within[OF h c cd mem d p e] by simp
  then show ?thesis by (simp add: ms)
qed

section \<open>Malformed item entries\<close>

text \<open>An entry without dimensions or without a position is skipped; a \<open>null\<close> entry raises and is caught.\<close>

lemma packedItemData_missing:
  "dimensions it = Missing \<or> position it = Missing \<Longrightarrow> packedItemData pf cw ch cd i (Some it) = Skipped"
  "packedItemData pf cw ch cd i None = Threw"
  by (auto simp: packedItemData_def)

text \<open>An entry that creates no mesh takes no object identity; the later entries keep their index.\<close>

lemma createPackedItems_no_mesh:
  "packedItemData pf cw ch cd i item \<in> {Skipped, Threw} \<Longrightarrow>
   createPackedItems pf cw ch cd i n (item # rest) = createPackedItems pf cw ch cd (i + 1) n rest"
  by auto

lemma createPackedItems_append:
  "createPackedItems pf cw ch cd i n (xs @ ys) =
     createPackedItems pf cw ch cd i n xs @
     createPackedItems pf cw ch cd (i + length xs)
       (n + 2 * length (createPackedItems pf cw ch cd i n xs)) ys"
proof (induction xs arbitrary: i n)
  case Nil
  then show ?case by simp
next
  case (Cons x xs)
  then show ?case by (cases "packedItemData pf cw ch cd i x") simp_all
qed

text \<open>A missing rotation is the rotation \<open>[0, 0, 0]\<close>; a missing colour and a missing id take their defaults.\<close>

lemma packedItemData_rotation_default:
  assumes "rotation it = Missing" and "packedItemData pf cw ch cd i (Some it) = Created meta"
  shows "ud_rotation meta = Some (Num 0, Num 0, Num 0)"
proof -
  from assms(2) obtain it' ds ps rs where
    it: "Some it = Some it'"
    and rs: "mapEntries pf 0 (if rotation it' = Missing then Arr [JNum (Num 0), JNum (Num 0), JNum (Num 0)]
                      else rotation it') = Some rs"
    and meta: "meta = placePackedItem cw ch cd i it' ds ps rs"
    by (rule packedItemData_Created)
  from it rs assms(1) have "rs = [Num 0, Num 0, Num 0]" by auto
  then show ?thesis
    by (simp add: placePackedItem_fields(7)[OF meta] entry.simps)
qed

lemma packedItemData_defaults:
  assumes "packedItemData pf cw ch cd i (Some it) = Created meta"
  shows "color it = None \<Longrightarrow> originalColor meta = ''#10b981''"
    and "item_id it = None \<Longrightarrow> name it = None \<Longrightarrow> original_name it = None \<Longrightarrow>
         itemName meta = ''item_'' @ string_of_nat i"
proof -
  from assms obtain it' ds ps rs where
    it: "Some it = Some it'" and meta: "meta = placePackedItem cw ch cd i it' ds ps rs"
    by (rule packedItemData_Created)
  show "color it = None \<Longrightarrow> originalColor meta = ''#10b981''"
    using it by (simp add: placePackedItem_fields(5)[OF meta])
  show "item_id it = None \<Longrightarrow> name it = None \<Longrightarrow> original_name it = None \<Longrightarrow>
         itemName meta = ''item_'' @ string_of_nat i"
    using it by (simp add: placePackedItem_fields(6)[OF meta])
qed

text \<open>
  A dimension entry that is not an object is floored: zero, \<open>NaN\<close> and non-numeric
  values become 0.5 first, anything below 0.01 becomes 0.01.
\<close>

lemma parseEntry_number:
  "\<forall>str. v \<noteq> JObj str \<Longrightarrow> \<exists>a. parseEntry pf dflt v = Num a"
  by (cases v) simp_all

lemma entry_in_range: "k < length xs \<Longrightarrow> entry xs k = xs ! k"
  by (simp add: entry.simps)

lemma packedItemData_floor:
  assumes "packedItemData pf cw ch cd i (Some it) = Created meta"
    and "dimensions it = Arr vs" and "3 \<le> length vs"
    and "\<forall>str. vs ! 0 \<noteq> JObj str" "\<forall>str. vs ! 1 \<noteq> JObj str" "\<forall>str. vs ! 2 \<noteq> JObj str"
  shows "js_le (Num 0.01) (width (ud_dimensions meta))
       \<and> js_le (Num 0.01) (height (ud_dimensions meta))
       \<and> js_le (Num 0.01) (depth (ud_dimensions meta))"
proof -
  from assms(1) obtain it' ds ps rs where
    it: "Some it = Some it'" and ds: "mapEntries pf 0.5 (dimensions it') = Some ds"
    and meta: "meta = placePackedItem cw ch cd i it' ds ps rs"
    by (rule packedItemData_Created)
  from it ds assms(2) have ds': "ds = map (parseEntry pf 0.5) vs" by simp
  have e: "entry ds 0 = parseEntry pf 0.5 (vs ! 0)" "entry ds 1 = parseEntry pf 0.5 (vs ! 1)"
    "entry ds 2 = parseEntry pf 0.5 (vs ! 2)"
  proof -
    have l: "0 < length vs" "1 < length vs" "2 < length vs" using assms(3) by auto
    show "entry ds 0 = parseEntry pf 0.5 (vs ! 0)" using l(1) by (simp add: ds' entry.simps)
    show "entry ds 1 = parseEntry pf 0.5 (vs ! 1)" using l(2) by (simp add: ds' entry.simps)
    show "entry ds 2 = parseEntry pf 0.5 (vs ! 2)" using l(3) by (simp add: ds' entry.simps)
  qed
  obtain a where a: "entry ds 0 = Num a"
    using parseEntry_number[OF assms(4), of pf "0.5"] e(1) by auto
  obtain b where b: "entry ds 1 = Num b"
    using parseEntry_number[OF assms(5), of pf "0.5"] e(2) by auto
  obtain c where c: "entry ds 2 = Num c"
    using parseEntry_number[OF assms(6), of pf "0.5"] e(3) by auto
  from a b c show ?thesis
    by (simp add: placePackedItem_fields(1)[OF meta])
qed

lemma malformed_data:
  "packedItemData noNumber 10 5 5 0
     (placedItem (Arr [JObj ''[object Object]'', JNum (Num 1), JNum (Num 1)]) (numbers 0 0 0) Missing) =
     Created (placePackedItem 10 5 5 0
       \<lparr>dimensions = Arr [JObj ''[object Object]'', JNum (Num 1), JNum (Num 1)],
        position = numbers 0 0 0, rotation = Missing,
        color = None, item_id = None, name = None, original_name = None, reason = None\<rparr>
       [NaN, Num 1, Num 1] [Num 0, Num 0, Num 0] [Num 0, Num 0, Num 0])"
  "packedItemData noNumber 10 5 5 0
     (placedItem (Arr [JNum (Num 1), JNum (Num 2)]) (numbers 0 0 0) Missing) =
     Created (placePackedItem 10 5 5 0
       \<lparr>dimensions = Arr [JNum (Num 1), JNum (Num 2)],
        position = numbers 0 0 0, rotation = Missing,
        color = None, item_id = None, name = None, original_name = None, reason = None\<rparr>
       [Num 1, Num 2] [Num 0, Num 0, Num 0] [Num 0, Num 0, Num 0])"
  by (simp_all add: packedItemData_def placedItem_def numbers_def noNumber_def)

lemma malformed_placed:
  "ud_dimensions (placePackedItem 10 5 5 0 it [NaN, Num 1, Num 1] ps rs)
     = \<lparr>width = NaN, height = Num 1, depth = Num 1\<rparr>"
  "ud_dimensions (placePackedItem 10 5 5 0 it [Num 1, Num 2] ps rs)
     = \<lparr>width = Num 1, height = Num 2, depth = NaN\<rparr>"
  by (simp_all add: placePackedItem_def destructure3_def entry.simps Let_def split: prod.splits)

text \<open>
  C7. The claim holds for entries without dimensions, position, rotation, colour or id
  (the lemmas above), and rebuild is a total function. The floor of the dimensions
  misses \<open>NaN\<close>, for which \<open>Math.max(NaN, 0.01)\<close> is \<open>NaN\<close>: an object entry is
  parsed without the fallback \<open>|| 0.5\<close> of the other branch, and an entry beyond the
  end of a short array is \<open>undefined\<close>. In both cases a mesh is created whose
  dimension is \<open>NaN\<close> instead of a minimum positive size.
\<close>

theorem C7_dimension_not_floored:
  "map ud_dimensions (metasOf (itemMeshesRef (rebuild noNumber (Some objectDimension) initialState)))
     = [\<lparr>width = NaN, height = Num 1, depth = Num 1\<rparr>]
   \<and> map ud_dimensions (metasOf (itemMeshesRef (rebuild noNumber (Some shortDimensions) initialState)))
     = [\<lparr>width = Num 1, height = Num 2, depth = NaN\<rparr>]"
proof -
  have h: "sceneRef initialState \<noteq> None" "isInitialized initialState"
    by (simp_all add: initialState_def)
  have "itemMeshesRef (rebuild noNumber (Some objectDimension) initialState) =
          createPackedItems noNumber 10 5 5 0 (nextObjectId initialState + 17)
            [placedItem (Arr [JObj ''[object Object]'', JNum (Num 1), JNum (Num 1)]) (numbers 0 0 0) Missing]"
    using itemMeshes_rebuild[OF h, of objectDimension _ noNumber 10 5 5]
    by (simp add: objectDimension_def document_parts containerDimensions_numbers)
  moreover have "itemMeshesRef (rebuild noNumber (Some shortDimensions) initialState) =
          createPackedItems noNumber 10 5 5 0 (nextObjectId initialState + 17)
            [placedItem (Arr [JNum (Num 1), JNum (Num 2)]) (numbers 0 0 0) Missing]"
    using itemMeshes_rebuild[OF h, of shortDimensions _ noNumber 10 5 5]
    by (simp add: shortDimensions_def document_parts containerDimensions_numbers)
  ultimately show ?thesis
    by (simp add: malformed_data malformed_placed)
qed

section \<open>The layout of the unpacked items\<close>

lemma gridRow_div: "gridRow i = int (i div 3)"
proof -
  have "\<lfloor>real i / real 3\<rfloor> = int (i div 3)"
    by (rule floor_divide_of_nat_eq)
  then show ?thesis by (simp add: gridRow_def itemsPerRow_def)
qed

lemma gridCol_mod: "gridCol i = i mod 3"
  by (simp add: gridCol_def itemsPerRow_def)

lemma unpackedItemData_Created:
  assumes "unpackedItemData pf ax ad i item = Created meta"
  obtains it ds where
    "item = Some it" "dimensions it \<noteq> Missing"
    "mapEntries pf 0.5 (dimensions it) = Some ds"
    "meta = placeUnpackedItem ax ad i it ds"
  using assms unfolding unpackedItemData_def
  by (auto split: option.splits if_splits)

lemma placeUnpackedItem_fields:
  assumes "meta = placeUnpackedItem ax ad i it ds"
  shows
    "ud_dimensions meta = \<lparr>width = Math_max (entry ds 0) (Num 0.01),
        height = Math_max (entry ds 1) (Num 0.01), depth = Math_max (entry ds 2) (Num 0.01)\<rparr>"
    "originalPosition meta =
       (Math_max (Num (ax - 15 + 0.001))
          (Math_min (Num (ax - 15 + 4 + real (i mod 3) * 8))
             (js_sub (js_sub (Num (ax + 15)) (width (ud_dimensions meta))) (Num 0.001))),
        Num 0.001,
        Math_max (Num 0.001)
          (Math_min (Num (ad / 2 - 4 - real (i div 3) * 8))
             (js_sub (js_sub (Num ad) (depth (ud_dimensions meta))) (Num 0.001))))"
    "centerPosition meta =
       (js_add (fst (originalPosition meta)) (js_half (width (ud_dimensions meta))),
        js_add (fst (snd (originalPosition meta))) (js_half (height (ud_dimensions meta))),
        js_add (snd (snd (originalPosition meta))) (js_half (depth (ud_dimensions meta))))"
    "rotatedDimensions meta = None"
    "isUnpackedItem meta" "\<not> isPackedItem meta"
  unfolding assms
  by (simp_all add: placeUnpackedItem_def destructure3_def Let_def gridRow_div gridCol_mod
        unpackedAreaWidth_def gridCellSize_def)

lemma in_metasOf_createUnpackedItems:
  assumes "meta \<in> set (metasOf (createUnpackedItems pf ax ad i n items))"
  shows "\<exists>k < length items. unpackedItemData pf ax ad (i + k) (items ! k) = Created meta"
  using assms
proof (induction items arbitrary: i n)
  case Nil
  then show ?case by simp
next
  case (Cons item rest)
  have step: "\<exists>k < length (item # rest). unpackedItemData pf ax ad (i + k) ((item # rest) ! k) = Created meta"
    if "meta \<in> set (metasOf (createUnpackedItems pf ax ad (i + 1) n' rest))" for n'
  proof -
    from Cons.IH[OF that] obtain k where "k < length rest"
      "unpackedItemData pf ax ad (i + 1 + k) (rest ! k) = Created meta" by blast
    then show ?thesis by (intro exI[of _ "Suc k"]) simp
  qed
  show ?case
  proof (cases "unpackedItemData pf ax ad i item")
    case (Created m)
    with Cons.prems have "meta = m \<or> meta \<in> set (metasOf (createUnpackedItems pf ax ad (i + 1) (n + 2) rest))"
      by simp
    then show ?thesis
    proof
      assume "meta = m"
      with Created have "unpackedItemData pf ax ad (i + 0) ((item # rest) ! 0) = Created meta" by simp
      then show ?thesis by (intro exI[of _ 0]) simp
    qed (rule step)
  next
    case Skipped
    with Cons.prems show ?thesis by (intro step[of n]) simp
  next
    case Threw
    with Cons.prems show ?thesis by (intro step[of n]) simp
  qed
qed


lemma unpackedMeshes_createVisualization:
  assumes "containerDataOf pr = Some c" "sceneRef s = Some sc" "containerDimensions pf c = (cw, ch, cd)"
    and "unpackedMeshesRef s = []"
  shows "unpackedMeshesRef (createVisualization pf pr s) =
           (if unpackedItemsOf pr = [] then []
            else unpackedMeshes pf cw ch cd
                   (nextObjectId s + 17 + 2 * length (createPackedItems pf cw ch cd 0 (nextObjectId s + 17) (itemsOf pr)))
                   (unpackedItemsOf pr))"
  using assms by (simp add: createVisualization_def Let_def createUnpackedArea_fields)

lemma unpackedMeshes_rebuild:
  assumes "sceneRef s \<noteq> None" "isInitialized s"
    and "containerDataOf pr = Some c" "containerDimensions pf c = (cw, ch, cd)"
  shows "unpackedMeshesRef (rebuild pf (Some pr) s) =
           (if unpackedItemsOf pr = [] then []
            else unpackedMeshes pf cw ch cd
                   (nextObjectId s + 17 + 2 * length (createPackedItems pf cw ch cd 0 (nextObjectId s + 17) (itemsOf pr)))
                   (unpackedItemsOf pr))"
proof -
  let ?s = "(cleanupScene False s)\<lparr>itemMeshesRef := [], unpackedMeshesRef := []\<rparr>"
  obtain sc where sc: "sceneRef ?s = Some sc"
    using assms(1) cleanedScene_None[of False s]
    by (cases "cleanedScene False s") (auto simp: cleanupScene_fields)
  have "rebuild pf (Some pr) s = createVisualization pf pr ?s"
    using assms(1,2) by (auto simp add: rebuild_def Let_def)
  then show ?thesis
    using unpackedMeshes_createVisualization[OF assms(3) sc assms(4)]
    by (simp add: cleanupScene_fields)
qed














section \<open>The camera view-mode effect\<close>

lemma cameraPlacement_result:
  assumes "containerDataOf pr = Some c" and "containerDimensions pf c = (cw, ch, cd)"
  shows "cameraPlacement pf mode showUnpackedArea pr =
    (let tx = (if unpackedItemsOf pr \<noteq> [] \<and> showUnpackedArea then (cw + 45) / 2 else cw / 2)
     in ((case mode of
            Top \<Rightarrow> (tx, 50, cd / 2)
          | Front \<Rightarrow> (tx, ch / 2, 50)
          | Side \<Rightarrow> (50, ch / 2, cd / 2)
          | View3D \<Rightarrow>
              (if unpackedItemsOf pr \<noteq> [] \<and> showUnpackedArea
               then ((cw + 45) / 2 + 15, ch * 1.8, cd * 1.8)
               else (cw * 0.8, ch * 1.2, cd * 1.2))),
         (tx, ch / 2, cd / 2), mode = View3D))"
  using assms
  by (cases mode) (simp_all add: cameraPlacement_def Let_def)

lemma cameraEffect_result:
  assumes "cameraRef s = Some cam" and "controlsRef s = Some ctl"
    and "cameraPlacement pf mode showUnpackedArea pr = (cameraPos, target0, rot)"
  shows "cameraEffect update pf mode showUnpackedArea (Some pr) s =
    s\<lparr>cameraRef := Some (cam\<lparr>
          cam_position := fst (update (cam\<lparr>cam_position := cameraPos, cam_lookAt := target0\<rparr>)
                                 (ctl\<lparr>enableRotate := rot, enablePan := True, target := target0\<rparr>)),
          cam_lookAt := snd (update (cam\<lparr>cam_position := cameraPos, cam_lookAt := target0\<rparr>)
                                 (ctl\<lparr>enableRotate := rot, enablePan := True, target := target0\<rparr>))\<rparr>),
      controlsRef := Some (ctl\<lparr>enableRotate := rot, enablePan := True,
          target := snd (update (cam\<lparr>cam_position := cameraPos, cam_lookAt := target0\<rparr>)
                                 (ctl\<lparr>enableRotate := rot, enablePan := True, target := target0\<rparr>))\<rparr>)\<rparr>"
  using assms
  by (simp add: cameraEffect_def Let_def split_beta)

lemma document_containerData:
  "w \<noteq> 0 \<Longrightarrow> h \<noteq> 0 \<Longrightarrow> d \<noteq> 0 \<Longrightarrow>
     containerDataOf (document w h d items unpacked) =
       Some \<lparr>width = JNum (Num w), height = JNum (Num h), depth = JNum (Num d)\<rparr>
     \<and> containerDimensions pf \<lparr>width = JNum (Num w), height = JNum (Num h), depth = JNum (Num d)\<rparr>
         = (w, h, d)"
  by (simp add: document_parts containerDimensions_numbers)

text \<open>
  C6 as the specification states it fails: in the Top, Front and Side modes the effect
  places the camera at the constant coordinate 50 along the axis, not at a multiple of
  a dimension of the scene. For the containers 10 x 5 x 5 and 20 x 10 x 10 the Top
  camera is put at height 50 both times, so no factor fits both.
\<close>

theorem C6_camera_counterexample:
  "cameraPlacement noNumber Top False smallBox = ((5, 50, 2.5), (5, 2.5, 2.5), False)
   \<and> cameraPlacement noNumber Top False largeBox = ((10, 50, 5), (10, 5, 5), False)
   \<and> \<not> (\<exists>k. placedAtMultiple noNumber k Top False (10, 5, 5) smallBox
             \<and> placedAtMultiple noNumber k Top False (20, 10, 10) largeBox)"
proof -
  have a: "cameraPlacement noNumber Top False smallBox = ((5, 50, 2.5), (5, 2.5, 2.5), False)"
    using cameraPlacement_result[of smallBox _ noNumber 10 5 5 Top False]
    by (simp add: smallBox_def document_containerData)
  have b: "cameraPlacement noNumber Top False largeBox = ((10, 50, 5), (10, 5, 5), False)"
    using cameraPlacement_result[of largeBox _ noNumber 20 10 10 Top False]
    by (simp add: largeBox_def document_containerData)
  have "\<not> (\<exists>k. placedAtMultiple noNumber k Top False (10, 5, 5) smallBox
             \<and> placedAtMultiple noNumber k Top False (20, 10, 10) largeBox)"
    by (auto simp: placedAtMultiple_def a b largestDimension_def)
  with a b show ?thesis by simp
qed

text \<open>
  C6, as amended. For every document with a container and every view mode, the
  view-mode effect (run with a camera, controls and a packing result present) leaves
  rotation enabled exactly when the mode is the perspective mode, and panning enabled.
  It points the camera and the controls at the scene centre
  \<open>(width / 2, height / 2, depth / 2)\<close> (with \<open>x = (width + 45) / 2\<close> when the holding area
  is shown and not empty) and, in the Top, Front and Side modes, places the camera on
  the line through the scene centre along the Y, Z and X axis respectively, at the
  fixed coordinate 50 on that axis, whatever the dimensions of the container are. From
  this placement the \<open>update\<close> of the orbit controls computes the position and the target
  the effect ends with.
\<close>

theorem C6_camera_view_modes:
  assumes "cameraRef s = Some cam" and "controlsRef s = Some ctl"
    and "containerDataOf pr = Some c" and "containerDimensions pf c = (cw, ch, cd)"
    and "tx = (if unpackedItemsOf pr \<noteq> [] \<and> showUnpackedArea then (cw + 45) / 2 else cw / 2)"
    and "placed = cam\<lparr>cam_position := (case mode of
                                           Top \<Rightarrow> (tx, 50, cd / 2)
                                         | Front \<Rightarrow> (tx, ch / 2, 50)
                                         | Side \<Rightarrow> (50, ch / 2, cd / 2)
                                         | View3D \<Rightarrow>
                                             (if unpackedItemsOf pr \<noteq> [] \<and> showUnpackedArea
                                              then (tx + 15, ch * 1.8, cd * 1.8)
                                              else (cw * 0.8, ch * 1.2, cd * 1.2))),
                        cam_lookAt := (tx, ch / 2, cd / 2)\<rparr>"
    and "aimed = ctl\<lparr>enableRotate := (mode = View3D), enablePan := True, target := (tx, ch / 2, cd / 2)\<rparr>"
  shows "map_option enableRotate (controlsRef (cameraEffect update pf mode showUnpackedArea (Some pr) s))
           = Some (mode = View3D)
       \<and> map_option enablePan (controlsRef (cameraEffect update pf mode showUnpackedArea (Some pr) s))
           = Some True
       \<and> map_option cam_position (cameraRef (cameraEffect update pf mode showUnpackedArea (Some pr) s))
           = Some (fst (update placed aimed))
       \<and> map_option cam_lookAt (cameraRef (cameraEffect update pf mode showUnpackedArea (Some pr) s))
           = Some (snd (update placed aimed))
       \<and> map_option target (controlsRef (cameraEffect update pf mode showUnpackedArea (Some pr) s))
           = Some (snd (update placed aimed))"
proof -
  note p = cameraPlacement_result[OF assms(3,4), of mode showUnpackedArea]
  obtain cameraPos target0 rot
    where q: "cameraPlacement pf mode showUnpackedArea pr = (cameraPos, target0, rot)"
    by (cases "cameraPlacement pf mode showUnpackedArea pr") auto
  have r: "rot = (mode = View3D)" "target0 = (tx, ch / 2, cd / 2)"
    using p q by (auto simp: Let_def assms(5))
  have "cameraPos = cam_position placed"
    using p q by (cases mode) (auto simp: Let_def assms(5,6))
  then have "cam\<lparr>cam_position := cameraPos, cam_lookAt := target0\<rparr> = placed"
    by (simp add: assms(6) r)
  moreover have "ctl\<lparr>enableRotate := rot, enablePan := True, target := target0\<rparr> = aimed"
    by (simp add: assms(7) r)
  ultimately show ?thesis
    by (simp add: cameraEffect_result[OF assms(1,2) q] r)
qed

theorem C6_camera_view_modes_witness:
  "map_option enableRotate (controlsRef (cameraEffect controlsAtRest noNumber Side True (Some smallBox) initialState))
       = Some False
   \<and> map_option enablePan (controlsRef (cameraEffect controlsAtRest noNumber Side True (Some smallBox) initialState))
       = Some True
   \<and> map_option target (controlsRef (cameraEffect controlsAtRest noNumber Side True (Some smallBox) initialState))
       = Some (5, 2.5, 2.5)"
proof -
  have cam: "cameraRef initialState = Some \<lparr>cam_position = (20, 15, 20), cam_lookAt = (8.5, 4, 5)\<rparr>"
    and ctl: "controlsRef initialState = Some \<lparr>enableRotate = True, enablePan = True, target = (8.5, 4, 5)\<rparr>"
    by (simp_all add: initialState_def)
  have c: "containerDataOf smallBox =
             Some \<lparr>width = JNum (Num 10), height = JNum (Num 5), depth = JNum (Num 5)\<rparr>"
    and cd: "containerDimensions noNumber
               \<lparr>width = JNum (Num 10), height = JNum (Num 5), depth = JNum (Num 5)\<rparr> = (10, 5, 5)"
    by (simp_all add: smallBox_def document_containerData)
  have u: "unpackedItemsOf smallBox = []"
    by (simp add: smallBox_def document_parts)
  show ?thesis
    using C6_camera_view_modes[OF cam ctl c cd refl refl refl,
        where mode = Side and showUnpackedArea = True and update = controlsAtRest]
    by (simp add: u controlsAtRest_def)
qed

text \<open>The clean-up, the rebuild and the pointer handler leave the interaction flags as they are.\<close>

lemma flags_cleanupScene:
  "map_option enableRotate (controlsRef (cleanupScene b s)) = map_option enableRotate (controlsRef s)"
  "map_option enablePan (controlsRef (cleanupScene b s)) = map_option enablePan (controlsRef s)"
  by (cases "controlsRef s"; simp add: cleanupScene_def)+

section \<open>Facts about the scene graph\<close>

lemma oid_remove_where [simp]: "oid (remove_where P obj) = oid obj"
  by (cases obj) simp

lemma userData_remove_where [simp]: "userData (remove_where P obj) = userData obj"
  by (cases obj) simp

lemma flagged_remove_where [simp]: "flagged (remove_where P obj) = flagged obj"
  by (simp add: flagged.simps)

text \<open>An object and its proper descendants.\<close>

lemma set_traverse: "set (traverse obj) = insert obj (set (concat (map traverse (children obj))))"
  by (cases obj) simp

lemma self_in_traverse: "obj \<in> set (traverse obj)"
  by (cases obj) simp

lemma remove_where_comp:
  assumes "\<And>c. P (remove_where Q c) = P c"
  shows "remove_where P (remove_where Q obj) = remove_where (\<lambda>c. Q c \<or> P c) obj"
proof (induction obj)
  case (Object3D i k p g m u cs)
  have "filter (\<lambda>c. \<not> P c) (map (remove_where Q) (filter (\<lambda>c. \<not> Q c) cs))
          = map (remove_where Q) (filter (\<lambda>c. \<not> (Q c \<or> P c)) cs)"
    by (induction cs) (auto simp: assms)
  moreover have "map (remove_where P) (map (remove_where Q) (filter (\<lambda>c. \<not> (Q c \<or> P c)) cs))
          = map (remove_where (\<lambda>c. Q c \<or> P c)) (filter (\<lambda>c. \<not> (Q c \<or> P c)) cs)"
    using Object3D.IH by simp
  ultimately show ?case by simp
qed

lemma remove_where_id:
  assumes "list_all (\<lambda>c. \<not> P c) (concat (map traverse (children obj)))"
  shows "remove_where P obj = obj"
  using assms
proof (induction obj)
  case (Object3D i k p g m u cs)
  have all: "\<And>c d. c \<in> set cs \<Longrightarrow> d \<in> set (traverse c) \<Longrightarrow> \<not> P d"
    using Object3D.prems by (auto simp: list_all_iff)
  have "\<not> P c" if "c \<in> set cs" for c
    using all[OF that self_in_traverse] .
  then have f: "filter (\<lambda>c. \<not> P c) cs = cs" by (induction cs) auto
  have "remove_where P c = c" if c: "c \<in> set cs" for c
  proof (rule Object3D.IH[OF c])
    show "list_all (\<lambda>c. \<not> P c) (concat (map traverse (children c)))"
      using all[OF c] set_traverse[of c] by (auto simp: list_all_iff)
  qed
  then have "map (remove_where P) cs = cs" by (simp add: map_idI)
  with f show ?case by simp
qed

lemma remove_where_clean:
  assumes "\<And>Q c. P (remove_where Q c) = P c"
  shows "list_all (\<lambda>c. \<not> P c) (concat (map traverse (children (remove_where P obj))))"
proof (induction obj)
  case (Object3D i k p g m u cs)
  have "\<not> P d" if c: "c \<in> set cs" "\<not> P c" and d: "d \<in> set (traverse (remove_where P c))" for c d
  proof -
    from d have "d = remove_where P c \<or> d \<in> set (concat (map traverse (children (remove_where P c))))"
      using set_traverse[of "remove_where P c"] by auto
    then show ?thesis
    proof
      assume "d = remove_where P c"
      then show ?thesis using c(2) assms by simp
    next
      assume "d \<in> set (concat (map traverse (children (remove_where P c))))"
      then show ?thesis using Object3D.IH[OF c(1)] by (auto simp: list_all_iff)
    qed
  qed
  then show ?case by (auto simp: list_all_iff)
qed

lemma oids_remove_where:
  "oid ` set (traverse (remove_where P obj)) \<subseteq> oid ` set (traverse obj)"
proof (induction obj)
  case (Object3D i k p g m u cs)
  have "oid d \<in> oid ` (\<Union>c \<in> set cs. set (traverse c))"
    if "c \<in> set cs" "d \<in> set (traverse (remove_where P c))" for c d
    using Object3D.IH[OF that(1)] that by blast
  then show ?case by auto
qed

lemma remove_where_add:
  "remove_where P (add obj c) =
     (if P c then remove_where P obj else add (remove_where P obj) (remove_where P c))"
  by (cases obj) simp

lemma remove_where_addAll:
  "list_all P objs \<Longrightarrow> remove_where P (addAll objs obj) = remove_where P obj"
proof (induction objs arbitrary: obj)
  case Nil
  then show ?case by (simp add: addAll_def)
next
  case (Cons c objs)
  have "addAll (c # objs) obj = addAll objs (add obj c)" by (simp add: addAll_def)
  then show ?case using Cons by (simp add: remove_where_add)
qed

lemma children_add: "children (add obj c) = children obj @ [c]"
  by (cases obj) simp

lemma children_addAll: "children (addAll objs obj) = children obj @ objs"
proof (induction objs arbitrary: obj)
  case Nil
  then show ?case by (simp add: addAll_def)
next
  case (Cons c objs)
  have "addAll (c # objs) obj = addAll objs (add obj c)" by (simp add: addAll_def)
  then show ?case using Cons by (simp add: children_add)
qed

lemma oids_traverse_add:
  "oid ` set (traverse (add obj c)) = oid ` set (traverse obj) \<union> oid ` set (traverse c)"
  by (cases obj) auto

lemma oid_add [simp]: "oid (add obj c) = oid obj"
  by (cases obj) simp

lemma oid_addAll [simp]: "oid (addAll objs obj) = oid obj"
  by (induction objs arbitrary: obj) (simp_all add: addAll_def)

section \<open>The live meshes of a rebuilt scene\<close>

lemma oids_createPackedItems:
  "map oid (createPackedItems pf cw ch cd i n items) =
     map (\<lambda>k. n + 2 * k) [0..<length (createPackedItems pf cw ch cd i n items)]"
proof (induction items arbitrary: i n)
  case Nil
  then show ?case by simp
next
  case (Cons item rest)
  show ?case
  proof (cases "packedItemData pf cw ch cd i item")
    case (Created meta)
    then show ?thesis
      using Cons[of "i + 1" "n + 2"] by (simp add: map_upt_Suc itemMesh_def Let_def del: upt_Suc)
  qed (use Cons in simp_all)
qed

lemma oids_createUnpackedItems:
  "map oid (createUnpackedItems pf ax ad i n items) =
     map (\<lambda>k. n + 2 * k) [0..<length (createUnpackedItems pf ax ad i n items)]"
proof (induction items arbitrary: i n)
  case Nil
  then show ?case by simp
next
  case (Cons item rest)
  show ?case
  proof (cases "unpackedItemData pf ax ad i item")
    case (Created meta)
    then show ?thesis
      using Cons[of "i + 1" "n + 2"] by (simp add: map_upt_Suc itemMesh_def Let_def del: upt_Suc)
  qed (use Cons in simp_all)
qed

lemma isItemMesh_itemMesh: "isItemMesh (itemMesh n e meta) = (isPackedItem meta \<or> isUnpackedItem meta)"
  by (simp add: itemMesh_def Let_def)

lemma isItemMesh_createPackedItems: "list_all isItemMesh (createPackedItems pf cw ch cd i n items)"
proof (induction items arbitrary: i n)
  case Nil
  then show ?case by simp
next
  case (Cons item rest)
  show ?case
  proof (cases "packedItemData pf cw ch cd i item")
    case (Created meta)
    then obtain it ds ps rs where "meta = placePackedItem cw ch cd i it ds ps rs"
      by (rule packedItemData_Created)
    then have "isPackedItem meta" by (rule placePackedItem_fields(8))
    then show ?thesis using Created Cons by (simp add: isItemMesh_itemMesh)
  qed (use Cons in simp_all)
qed

lemma isItemMesh_createUnpackedItems: "list_all isItemMesh (createUnpackedItems pf ax ad i n items)"
proof (induction items arbitrary: i n)
  case Nil
  then show ?case by simp
next
  case (Cons item rest)
  show ?case
  proof (cases "unpackedItemData pf ax ad i item")
    case (Created meta)
    then obtain it ds where "meta = placeUnpackedItem ax ad i it ds"
      by (rule unpackedItemData_Created)
    then have "isUnpackedItem meta" by (rule placeUnpackedItem_fields(5))
    then show ?thesis using Created Cons by (simp add: isItemMesh_itemMesh)
  qed (use Cons in simp_all)
qed

lemma distinct_steps: "distinct (map (\<lambda>k. n + 2 * k) [0..<m])"
  by (simp add: distinct_map inj_on_def)

lemma distinct_two_runs:
  assumes "map oid xs = map (\<lambda>k. n + 2 * k) [0..<length xs]"
    and "map oid ys = map (\<lambda>k. n' + 2 * k) [0..<length ys]"
    and "n + 2 * length xs \<le> n'"
  shows "distinct (map oid (xs @ ys))"
proof -
  have "set (map oid xs) \<inter> set (map oid ys) = {}"
    unfolding assms(1,2) using assms(3) by auto
  then show ?thesis
    using distinct_steps[of n "length xs"] distinct_steps[of n' "length ys"] assms(1,2) by simp
qed

lemma liveMeshes_rebuild:
  assumes "sceneRef s \<noteq> None" and "isInitialized s"
  shows "liveMeshesOk (rebuild pf (Some pr) s)"
proof (cases "containerDataOf pr")
  case None
  let ?s = "(cleanupScene False s)\<lparr>itemMeshesRef := [], unpackedMeshesRef := []\<rparr>"
  have "rebuild pf (Some pr) s = createVisualization pf pr ?s"
    using assms by (auto simp add: rebuild_def Let_def)
  also have "\<dots> = ?s" using None by (simp add: createVisualization_def)
  finally show ?thesis by (simp add: liveMeshesOk_def liveMeshes_def)
next
  case (Some c)
  obtain cw ch cd where d: "containerDimensions pf c = (cw, ch, cd)"
    by (cases "containerDimensions pf c") auto
  let ?n = "nextObjectId s + 17"
  let ?packed = "createPackedItems pf cw ch cd 0 ?n (itemsOf pr)"
  note im = itemMeshes_rebuild[OF assms Some d]
  note um = unpackedMeshes_rebuild[OF assms Some d]
  show ?thesis
  proof (cases "unpackedItemsOf pr = []")
    case True
    then show ?thesis
      using oids_createPackedItems[of pf cw ch cd 0 ?n "itemsOf pr"] distinct_steps[of ?n]
      by (simp add: liveMeshesOk_def liveMeshes_def im um isItemMesh_createPackedItems)
  next
    case False
    let ?n' = "?n + 2 * length ?packed + 2 + length (unpackedAreaDashes cw ch cd (?n + 2 * length ?packed))"
    let ?unpacked = "createUnpackedItems pf (cw + 15) (unpackedAreaDepth cd) 0 ?n' (unpackedItemsOf pr)"
    have u: "unpackedMeshesRef (rebuild pf (Some pr) s) = ?unpacked"
      using False by (simp add: um unpackedMeshes_def)
    have "distinct (map oid (?packed @ ?unpacked))"
      by (rule distinct_two_runs[OF oids_createPackedItems oids_createUnpackedItems]) simp
    then show ?thesis
      by (simp add: liveMeshesOk_def liveMeshes_def im u isItemMesh_createPackedItems
          isItemMesh_createUnpackedItems)
  qed
qed

section \<open>The pointer handler\<close>

lemma setEmissive_keeps [simp]:
  "oid (setEmissive c v obj) = oid obj"
  "userData (setEmissive c v obj) = userData obj"
  "obj_position (setEmissive c v obj) = obj_position obj"
  "kind (setEmissive c v obj) = kind obj"
  by (cases obj; cases "material obj"; simp)+

lemma highlightFor_keeps [simp]:
  "oid (highlightFor item obj) = oid obj"
  "userData (highlightFor item obj) = userData obj"
  "obj_position (highlightFor item obj) = obj_position obj"
  by (simp_all add: highlightFor_def)

lemma clearHighlight_keeps [simp]:
  "oid (clearHighlight obj) = oid obj"
  "userData (clearHighlight obj) = userData obj"
  "obj_position (clearHighlight obj) = obj_position obj"
  by (simp_all add: clearHighlight_def)

lemma isItemMesh_material:
  assumes "isItemMesh obj"
  obtains c v where "material obj = MeshPhongMaterial c v"
  using assms by (cases obj rule: isItemMesh.cases) auto

lemma material_setEmissive:
  "isItemMesh obj \<Longrightarrow> material (setEmissive c v obj) = MeshPhongMaterial c v"
  by (cases obj rule: isItemMesh.cases) auto

lemma highlightFor_itemMesh:
  assumes "isItemMesh obj"
  shows "highlighted (highlightFor item obj) \<longleftrightarrow> oid obj = oid item"
    and "unlit (highlightFor item obj) \<longleftrightarrow> oid obj \<noteq> oid item"
  using assms by (simp_all add: highlightFor_def highlighted_def unlit_def material_setEmissive)

lemma clearHighlight_itemMesh:
  "isItemMesh obj \<Longrightarrow> unlit (clearHighlight obj)"
  by (simp add: clearHighlight_def unlit_def material_setEmissive)

lemma one_with_oid:
  assumes "distinct (map oid xs)" and "x \<in> set xs"
  shows "length (filter (\<lambda>m. oid m = oid x) xs) = 1"
  using assms
proof (induction xs)
  case Nil
  then show ?case by simp
next
  case (Cons a xs)
  show ?case
  proof (cases "oid a = oid x")
    case True
    then have "oid x \<notin> oid ` set xs"
      using Cons.prems(1) by simp
    then have "filter (\<lambda>m. oid m = oid x) xs = []"
      unfolding filter_empty_conv by (metis imageI)
    then show ?thesis using True by simp
  next
    case False
    then show ?thesis using Cons by auto
  qed
qed

lemma handleMouseMove_live:
  assumes "canvasRef s" "sceneRef s \<noteq> None" "cameraRef s \<noteq> None"
  shows "intersectObjects (liveMeshes s) = [] \<Longrightarrow>
           liveMeshes (handleMouseMove intersectObjects s) = map clearHighlight (liveMeshes s)
           \<and> hoveredItem (handleMouseMove intersectObjects s) = None"
    and "intersectObjects (liveMeshes s) = hit # rest \<Longrightarrow>
           liveMeshes (handleMouseMove intersectObjects s) = map (highlightFor (object hit)) (liveMeshes s)
           \<and> hoveredItem (handleMouseMove intersectObjects s) = Some (hoverOf (userData (object hit)))"
  using assms by (auto simp add: handleMouseMove_def liveMeshes_def Let_def)

lemma rebuild_keeps:
  "canvasRef (rebuild pf pr s) = canvasRef s"
  "cameraRef (rebuild pf pr s) = cameraRef s"
  "sceneRef (rebuild pf pr s) = None \<longleftrightarrow> sceneRef s = None"
proof -
  have cv: "canvasRef (createVisualization pf p t) = canvasRef t"
    "cameraRef (createVisualization pf p t) = cameraRef t"
    "sceneRef (createVisualization pf p t) = None \<longleftrightarrow> sceneRef t = None" for p t
    by (auto simp: createVisualization_def createUnpackedArea_def Let_def
        split: option.splits prod.splits)
  show "canvasRef (rebuild pf pr s) = canvasRef s"
    by (cases pr) (simp_all add: rebuild_def Let_def cv cleanupScene_fields)
  show "cameraRef (rebuild pf pr s) = cameraRef s"
    by (cases pr) (simp_all add: rebuild_def Let_def cv cleanupScene_fields)
  show "sceneRef (rebuild pf pr s) = None \<longleftrightarrow> sceneRef s = None"
    by (cases pr) (auto simp add: rebuild_def Let_def cv cleanupScene_fields cleanedScene_None)
qed

text \<open>
  The pointer handler passes exactly the packed-item and unpacked-item meshes of the
  current generation to the raycaster (its result depends on the raycaster through
  that list only), and these are item meshes, not the container or a decoration
  (\<open>liveMeshes_rebuild\<close>). With a raycaster that reports intersections with the
  objects it was given only, sorted by distance: when the ray hits, the hover state is
  the metadata of the first, nearest hit, exactly the hit mesh is highlighted and every
  other live mesh is cleared; when the ray hits nothing, the hover state is empty and
  every live mesh is cleared. The handler changes no identity, metadata or position of
  a mesh.
\<close>

lemma pick_nearest:
  assumes "canvasRef s" and "sceneRef s \<noteq> None" and "cameraRef s \<noteq> None"
    and ok: "liveMeshesOk s"
    and contract: "raycasterContract intersectObjects (liveMeshes s)"
  shows "(case intersectObjects (liveMeshes s) of
            [] \<Rightarrow>
              hoveredItem (handleMouseMove intersectObjects s) = None
              \<and> list_all unlit (liveMeshes (handleMouseMove intersectObjects s))
          | hit # rest \<Rightarrow>
              object hit \<in> set (liveMeshes s)
              \<and> list_all (\<lambda>h. distance hit \<le> distance h) (intersectObjects (liveMeshes s))
              \<and> hoveredItem (handleMouseMove intersectObjects s) = Some (hoverOf (userData (object hit)))
              \<and> list_all (\<lambda>m. if oid m = oid (object hit) then highlighted m else unlit m)
                   (liveMeshes (handleMouseMove intersectObjects s))
              \<and> length (filter highlighted (liveMeshes (handleMouseMove intersectObjects s))) = 1)
       \<and> map oid (liveMeshes (handleMouseMove intersectObjects s)) = map oid (liveMeshes s)
       \<and> map userData (liveMeshes (handleMouseMove intersectObjects s)) = map userData (liveMeshes s)
       \<and> map obj_position (liveMeshes (handleMouseMove intersectObjects s)) = map obj_position (liveMeshes s)
       \<and> (\<forall>r. r (liveMeshes s) = intersectObjects (liveMeshes s)
              \<longrightarrow> handleMouseMove r s = handleMouseMove intersectObjects s)"
proof -
  let ?s' = "handleMouseMove intersectObjects s"
  from ok have dist: "distinct (map oid (liveMeshes s))"
    and meshes: "\<And>m. m \<in> set (liveMeshes s) \<Longrightarrow> isItemMesh m"
    by (simp_all add: liveMeshesOk_def list_all_iff)
  have only: "\<forall>r. r (liveMeshes s) = intersectObjects (liveMeshes s) \<longrightarrow> handleMouseMove r s = ?s'"
    by (simp add: handleMouseMove_def liveMeshes_def Let_def)
  have keeps: "map oid (liveMeshes ?s') = map oid (liveMeshes s)
       \<and> map userData (liveMeshes ?s') = map userData (liveMeshes s)
       \<and> map obj_position (liveMeshes ?s') = map obj_position (liveMeshes s)"
  proof (cases "intersectObjects (liveMeshes s)")
    case Nil
    show ?thesis
      by (simp add: comp_def
          handleMouseMove_live(1)[where intersectObjects = intersectObjects, OF assms(1-3) Nil])
  next
    case (Cons hit rest)
    show ?thesis
      by (simp add: comp_def
          handleMouseMove_live(2)[where intersectObjects = intersectObjects, OF assms(1-3) Cons])
  qed
  have main: "(case intersectObjects (liveMeshes s) of
            [] \<Rightarrow>
              hoveredItem ?s' = None \<and> list_all unlit (liveMeshes ?s')
          | hit # rest \<Rightarrow>
              object hit \<in> set (liveMeshes s)
              \<and> list_all (\<lambda>h. distance hit \<le> distance h) (intersectObjects (liveMeshes s))
              \<and> hoveredItem ?s' = Some (hoverOf (userData (object hit)))
              \<and> list_all (\<lambda>m. if oid m = oid (object hit) then highlighted m else unlit m)
                   (liveMeshes ?s')
              \<and> length (filter highlighted (liveMeshes ?s')) = 1)"
  proof (cases "intersectObjects (liveMeshes s)")
    case Nil
    note l = handleMouseMove_live(1)[where intersectObjects = intersectObjects, OF assms(1-3) Nil]
    have "list_all unlit (liveMeshes ?s')"
      using meshes by (simp add: l list_all_iff clearHighlight_itemMesh)
    then show ?thesis by (simp add: Nil l)
  next
    case (Cons hit rest)
    note l = handleMouseMove_live(2)[where intersectObjects = intersectObjects, OF assms(1-3) Cons]
    from contract have srt: "sorted (map distance (hit # rest))"
      and mem: "object hit \<in> set (liveMeshes s)"
      by (simp_all add: raycasterContract_def Cons)
    have nearest: "list_all (\<lambda>h. distance hit \<le> distance h) (intersectObjects (liveMeshes s))"
      using srt by (simp add: Cons list_all_iff)
    have lit: "list_all (\<lambda>m. if oid m = oid (object hit) then highlighted m else unlit m) (liveMeshes ?s')"
      using meshes by (simp add: l list_all_iff highlightFor_itemMesh)
    have "filter highlighted (map (highlightFor (object hit)) (liveMeshes s))
            = map (highlightFor (object hit)) (filter (\<lambda>m. oid m = oid (object hit)) (liveMeshes s))"
      using meshes by (simp add: filter_map comp_def highlightFor_itemMesh cong: filter_cong)
    then have one: "length (filter highlighted (liveMeshes ?s')) = 1"
      using one_with_oid[OF dist mem] by (simp add: l)
    show ?thesis using mem nearest lit one by (simp add: Cons l)
  qed
  from main keeps only show ?thesis by (intro conjI) blast+
qed

lemma twoOverlapping_meshes:
  "itemMeshesRef (rebuild noNumber (Some twoOverlapping) initialState) =
     [itemMesh 23 0x222222 (placePackedItem 10 5 5 0
        \<lparr>dimensions = numbers 2 2 2, position = numbers 1 1 1, rotation = Missing,
         color = None, item_id = None, name = None, original_name = None, reason = None\<rparr>
        [Num 2, Num 2, Num 2] [Num 1, Num 1, Num 1] [Num 0, Num 0, Num 0]),
      itemMesh 25 0x222222 (placePackedItem 10 5 5 1
        \<lparr>dimensions = numbers 2 2 2, position = numbers 2 1 1, rotation = Missing,
         color = None, item_id = None, name = None, original_name = None, reason = None\<rparr>
        [Num 2, Num 2, Num 2] [Num 2, Num 1, Num 1] [Num 0, Num 0, Num 0])]"
  "unpackedMeshesRef (rebuild noNumber (Some twoOverlapping) initialState) = []"
proof -
  have h: "sceneRef initialState \<noteq> None" "isInitialized initialState"
    by (simp_all add: initialState_def)
  have c: "containerDataOf twoOverlapping =
             Some \<lparr>width = JNum (Num 10), height = JNum (Num 5), depth = JNum (Num 5)\<rparr>"
    and cd: "containerDimensions noNumber
               \<lparr>width = JNum (Num 10), height = JNum (Num 5), depth = JNum (Num 5)\<rparr> = (10, 5, 5)"
    by (simp_all add: twoOverlapping_def document_parts containerDimensions_numbers)
  have n: "nextObjectId initialState = 6" by (simp add: initialState_def)
  show "itemMeshesRef (rebuild noNumber (Some twoOverlapping) initialState) =
     [itemMesh 23 0x222222 (placePackedItem 10 5 5 0
        \<lparr>dimensions = numbers 2 2 2, position = numbers 1 1 1, rotation = Missing,
         color = None, item_id = None, name = None, original_name = None, reason = None\<rparr>
        [Num 2, Num 2, Num 2] [Num 1, Num 1, Num 1] [Num 0, Num 0, Num 0]),
      itemMesh 25 0x222222 (placePackedItem 10 5 5 1
        \<lparr>dimensions = numbers 2 2 2, position = numbers 2 1 1, rotation = Missing,
         color = None, item_id = None, name = None, original_name = None, reason = None\<rparr>
        [Num 2, Num 2, Num 2] [Num 2, Num 1, Num 1] [Num 0, Num 0, Num 0])]"
    unfolding itemMeshes_rebuild[OF h c cd] n
    by (simp add: twoOverlapping_def document_parts packedItemData_def placedItem_def numbers_def)
  show "unpackedMeshesRef (rebuild noNumber (Some twoOverlapping) initialState) = []"
    unfolding unpackedMeshes_rebuild[OF h c cd]
    by (simp add: twoOverlapping_def document_parts)
qed

text \<open>
  The pointer over two overlapping meshes: the nearer one (the second item, at
  distance 3) is picked, and it alone is highlighted.
\<close>

lemma pick_nearest_overlapping:
  "hoveredItem (handleMouseMove hitsBoth (rebuild noNumber (Some twoOverlapping) initialState))
     = Some (hoverOf (UItem (placePackedItem 10 5 5 1
        \<lparr>dimensions = numbers 2 2 2, position = numbers 2 1 1, rotation = Missing,
         color = None, item_id = None, name = None, original_name = None, reason = None\<rparr>
        [Num 2, Num 2, Num 2] [Num 2, Num 1, Num 1] [Num 0, Num 0, Num 0])))
   \<and> map highlighted
        (liveMeshes (handleMouseMove hitsBoth (rebuild noNumber (Some twoOverlapping) initialState)))
     = [False, True]"
proof -
  let ?S = "rebuild noNumber (Some twoOverlapping) initialState"
  have h: "sceneRef initialState \<noteq> None" "isInitialized initialState"
    by (simp_all add: initialState_def)
  have a: "canvasRef ?S" "sceneRef ?S \<noteq> None" "cameraRef ?S \<noteq> None"
    by (simp_all add: rebuild_keeps initialState_def)
  have ok: "liveMeshesOk ?S" by (rule liveMeshes_rebuild[OF h])
  have live: "liveMeshes ?S = itemMeshesRef ?S" "length (itemMeshesRef ?S) = 2"
    by (simp_all add: liveMeshes_def twoOverlapping_meshes)
  have contract: "raycasterContract hitsBoth (liveMeshes ?S)"
    by (simp add: raycasterContract_def hitsBoth_def live(1) twoOverlapping_meshes(1))
  have hits: "hitsBoth (liveMeshes ?S) =
      [\<lparr>distance = 3, object = itemMeshesRef ?S ! 1\<rparr>, \<lparr>distance = 5, object = itemMeshesRef ?S ! 0\<rparr>]"
    by (simp add: hitsBoth_def live(1) twoOverlapping_meshes(1))
  have o: "map oid (liveMeshes ?S) = [23, 25]"
    by (simp add: live(1) twoOverlapping_meshes(1) itemMesh_def Let_def)
  have o1: "oid (itemMeshesRef ?S ! 1) = 25"
    and u1: "userData (itemMeshesRef ?S ! 1) = UItem (placePackedItem 10 5 5 1
        \<lparr>dimensions = numbers 2 2 2, position = numbers 2 1 1, rotation = Missing,
         color = None, item_id = None, name = None, original_name = None, reason = None\<rparr>
        [Num 2, Num 2, Num 2] [Num 2, Num 1, Num 1] [Num 0, Num 0, Num 0])"
    unfolding twoOverlapping_meshes(1) by (simp_all add: itemMesh_def Let_def)
  from pick_nearest[OF a ok contract]
  have r: "hoveredItem (handleMouseMove hitsBoth ?S) = Some (hoverOf (userData (itemMeshesRef ?S ! 1)))"
    "list_all (\<lambda>m. if oid m = oid (itemMeshesRef ?S ! 1) then highlighted m else unlit m)
       (liveMeshes (handleMouseMove hitsBoth ?S))"
    "map oid (liveMeshes (handleMouseMove hitsBoth ?S)) = [23, 25]"
    unfolding hits o by simp_all
  from r(3) obtain m1 m2 where ms: "liveMeshes (handleMouseMove hitsBoth ?S) = [m1, m2]"
    and ids: "oid m1 = 23" "oid m2 = 25" by auto
  have "highlighted m2" "unlit m1"
    using r(2) unfolding ms o1 by (simp_all add: ids)
  then have "map highlighted [m1, m2] = [False, True]"
    by (simp add: unlit_def highlighted_def)
  then show ?thesis
    unfolding ms using r(1) unfolding u1 by simp
qed

lemma scenarioCube_meshes:
  "itemMeshesRef (rebuild noNumber (Some scenarioCube) initialState) =
     [itemMesh 23 0x222222 (placePackedItem 10 5 5 0
        \<lparr>dimensions = numbers 2 2 2, position = numbers 0 0 0, rotation = numbers 0 0 90,
         color = None, item_id = None, name = None, original_name = None, reason = None\<rparr>
        [Num 2, Num 2, Num 2] [Num 0, Num 0, Num 0] [Num 0, Num 0, Num 90])]"
  "unpackedMeshesRef (rebuild noNumber (Some scenarioCube) initialState) = []"
proof -
  have h: "sceneRef initialState \<noteq> None" "isInitialized initialState"
    by (simp_all add: initialState_def)
  have c: "containerDataOf scenarioCube =
             Some \<lparr>width = JNum (Num 10), height = JNum (Num 5), depth = JNum (Num 5)\<rparr>"
    and cd: "containerDimensions noNumber
               \<lparr>width = JNum (Num 10), height = JNum (Num 5), depth = JNum (Num 5)\<rparr> = (10, 5, 5)"
    by (simp_all add: scenarioCube_def document_parts containerDimensions_numbers)
  have n: "nextObjectId initialState = 6" by (simp add: initialState_def)
  show "itemMeshesRef (rebuild noNumber (Some scenarioCube) initialState) =
     [itemMesh 23 0x222222 (placePackedItem 10 5 5 0
        \<lparr>dimensions = numbers 2 2 2, position = numbers 0 0 0, rotation = numbers 0 0 90,
         color = None, item_id = None, name = None, original_name = None, reason = None\<rparr>
        [Num 2, Num 2, Num 2] [Num 0, Num 0, Num 0] [Num 0, Num 0, Num 90])]"
    unfolding itemMeshes_rebuild[OF h c cd] n
    by (simp add: scenarioCube_def document_parts scenarioCube_data)
  show "unpackedMeshesRef (rebuild noNumber (Some scenarioCube) initialState) = []"
    unfolding unpackedMeshes_rebuild[OF h c cd]
    by (simp add: scenarioCube_def document_parts)
qed

text \<open>
  C4 fails on the code. The handler calls \<open>intersectObjects(allItems)\<close> without the
  argument \<open>recursive\<close>, so the raycaster also tests the children of the item meshes,
  which are their edge lines. In the scenario of the specification (a 10 x 5 x 5
  container with one 2 x 2 x 2 item), with the pointer over the item so that the ray
  passes the edge lines first, the first intersection is with the edge lines, an
  object without item metadata: the hover state is the fallback one (\<open>Unknown Item\<close>
  of size 0 x 0 x 0) instead of the metadata of the item, and no mesh is highlighted,
  since none of the live meshes is the hit object.
\<close>

theorem C4_pick_edge_lines:
  "raycasterRecursive hitsEdgeLines
       (liveMeshes (rebuild noNumber (Some scenarioCube) initialState))
   \<and> map (\<lambda>hit. kind (object hit))
         (hitsEdgeLines (liveMeshes (rebuild noNumber (Some scenarioCube) initialState)))
       = [LineSegments, Mesh]
   \<and> hoveredItem (handleMouseMove hitsEdgeLines (rebuild noNumber (Some scenarioCube) initialState))
       = Some \<lparr>h_name = ''Unknown Item'',
                h_dimensions = \<lparr>width = Num 0, height = Num 0, depth = Num 0\<rparr>,
                h_color = ''#cccccc'', h_position = (Num 0, Num 0, Num 0),
                h_isOutOfBounds = False, h_isUnpacked = False,
                h_rotation = (Num 0, Num 0, Num 0), h_reason = []\<rparr>
   \<and> map highlighted
        (liveMeshes (handleMouseMove hitsEdgeLines (rebuild noNumber (Some scenarioCube) initialState)))
       = [False]"
proof -
  let ?S = "rebuild noNumber (Some scenarioCube) initialState"
  let ?meta = "placePackedItem 10 5 5 0
        \<lparr>dimensions = numbers 2 2 2, position = numbers 0 0 0, rotation = numbers 0 0 90,
         color = None, item_id = None, name = None, original_name = None, reason = None\<rparr>
        [Num 2, Num 2, Num 2] [Num 0, Num 0, Num 0] [Num 0, Num 0, Num 90]"
  let ?line = "Object3D 24 LineSegments (Num 0, Num 0, Num 0)
                 (EdgesGeometry (BoxGeometry (width (ud_dimensions ?meta)) (height (ud_dimensions ?meta))
                    (depth (ud_dimensions ?meta)))) LineMaterial UPlain []"
  have a: "canvasRef ?S" "sceneRef ?S \<noteq> None" "cameraRef ?S \<noteq> None"
    by (simp_all add: rebuild_keeps initialState_def)
  have live: "liveMeshes ?S = [itemMesh 23 0x222222 ?meta]"
    by (simp add: liveMeshes_def scenarioCube_meshes)
  have hits: "hitsEdgeLines (liveMeshes ?S) =
      [\<lparr>distance = 28.6, object = ?line\<rparr>, \<lparr>distance = 29.8, object = itemMesh 23 0x222222 ?meta\<rparr>]"
    unfolding live by (simp add: hitsEdgeLines_def itemMesh_def Let_def)
  have rec: "raycasterRecursive hitsEdgeLines (liveMeshes ?S)"
    unfolding raycasterRecursive_def hits unfolding live
    by (simp add: itemMesh_def Let_def)
  have kinds: "map (\<lambda>hit. kind (object hit)) (hitsEdgeLines (liveMeshes ?S)) = [LineSegments, Mesh]"
    unfolding hits by (simp add: itemMesh_def Let_def)
  note l = handleMouseMove_live(2)[where intersectObjects = hitsEdgeLines, OF a hits]
  have hov: "hoveredItem (handleMouseMove hitsEdgeLines ?S)
       = Some \<lparr>h_name = ''Unknown Item'',
                h_dimensions = \<lparr>width = Num 0, height = Num 0, depth = Num 0\<rparr>,
                h_color = ''#cccccc'', h_position = (Num 0, Num 0, Num 0),
                h_isOutOfBounds = False, h_isUnpacked = False,
                h_rotation = (Num 0, Num 0, Num 0), h_reason = []\<rparr>"
    by (simp add: l hoverOf_def)
  have lit: "map highlighted (liveMeshes (handleMouseMove hitsEdgeLines ?S)) = [False]"
    unfolding l[THEN conjunct1] live
    by (simp add: highlightFor_def highlighted_def itemMesh_def Let_def)
  from rec kinds hov lit show ?thesis by (intro conjI)
qed

text \<open>The handler does not return at its guard there: canvas, scene and camera are present.\<close>

theorem C4_pick_edge_lines_witness:
  "canvasRef (rebuild noNumber (Some scenarioCube) initialState)
   \<and> sceneRef (rebuild noNumber (Some scenarioCube) initialState) \<noteq> None
   \<and> cameraRef (rebuild noNumber (Some scenarioCube) initialState) \<noteq> None
   \<and> map (\<lambda>hit. kind (object hit))
         (hitsEdgeLines (liveMeshes (rebuild noNumber (Some scenarioCube) initialState)))
       = [LineSegments, Mesh]
   \<and> map highlighted
        (liveMeshes (handleMouseMove hitsEdgeLines (rebuild noNumber (Some scenarioCube) initialState)))
       = [False]"
  using C4_pick_edge_lines by (simp add: rebuild_keeps initialState_def)

section \<open>The clean-up removes a generation\<close>

lemma detach_Nil [simp]: "detach [] scene = scene"
proof (cases scene)
  case None
  then show ?thesis by (simp add: detach_def)
next
  case (Some sc)
  have "remove_where (\<lambda>c. False) sc = sc" by (rule remove_where_id) (simp add: list_all_iff)
  then show ?thesis using Some by (simp add: detach_def)
qed

lemma detach_detach:
  "detach ys (detach xs scene) = detach (xs @ ys) scene"
proof (cases scene)
  case None
  then show ?thesis by (simp add: detach_def)
next
  case (Some sc)
  have "remove_where (\<lambda>c. oid c \<in> oid ` set ys) (remove_where (\<lambda>c. oid c \<in> oid ` set xs) sc)
          = remove_where (\<lambda>c. oid c \<in> oid ` set xs \<or> oid c \<in> oid ` set ys) sc"
    by (rule remove_where_comp) simp
  also have "(\<lambda>c. oid c \<in> oid ` set xs \<or> oid c \<in> oid ` set ys) = (\<lambda>c. oid c \<in> oid ` set (xs @ ys))"
    by auto
  finally show ?thesis using Some by (simp add: detach_def)
qed

text \<open>The removals of \<open>cleanupScene\<close> as one: every object that is tracked or flagged goes.\<close>

lemma cleanedScene_eq:
  "cleanedScene False s =
     map_option (remove_where (\<lambda>c. oid c \<in> oid ` set (tracked s) \<or> flagged c)) (sceneRef s)"
proof -
  have "cleanedScene False s = map_option (remove_where flagged) (detach (tracked s) (sceneRef s))"
    by (simp add: cleanedScene_def Let_def detach_detach tracked_def)
  also have "\<dots> = map_option (remove_where (\<lambda>c. oid c \<in> oid ` set (tracked s) \<or> flagged c)) (sceneRef s)"
  proof (cases "sceneRef s")
    case None
    then show ?thesis by (simp add: detach_def)
  next
    case (Some sc)
    have "remove_where flagged (remove_where (\<lambda>c. oid c \<in> oid ` set (tracked s)) sc)
            = remove_where (\<lambda>c. oid c \<in> oid ` set (tracked s) \<or> flagged c) sc"
      by (rule remove_where_comp) simp
    then show ?thesis using Some by (simp add: detach_def)
  qed
  finally show ?thesis .
qed

lemma cleanedScene_clean:
  assumes "cleanedScene False s = Some B"
  shows "list_all (\<lambda>c. \<not> flagged c) (concat (map traverse (children B)))"
    and "oid ` set (traverse B) \<subseteq> oid ` set (sceneObjects s)"
proof -
  let ?P = "\<lambda>c. oid c \<in> oid ` set (tracked s) \<or> flagged c"
  from assms have e: "map_option (remove_where ?P) (sceneRef s) = Some B"
    by (simp only: cleanedScene_eq)
  obtain sc where sc: "sceneRef s = Some sc" and B: "B = remove_where ?P sc"
  proof (cases "sceneRef s")
    case None
    with e show ?thesis by simp
  next
    case (Some sc)
    with e have "B = remove_where ?P sc" by (simp only: option.map option.inject)
    with Some show ?thesis by (rule that)
  qed
  have "list_all (\<lambda>c. \<not> ?P c) (concat (map traverse (children (remove_where ?P sc))))"
    by (rule remove_where_clean) simp
  then show "list_all (\<lambda>c. \<not> flagged c) (concat (map traverse (children B)))"
    unfolding B by (rule list.pred_mono_strong) blast
  show "oid ` set (traverse B) \<subseteq> oid ` set (sceneObjects s)"
    using oids_remove_where[of ?P sc] by (simp add: B sceneObjects_def sc)
qed

text \<open>
  A scene whose proper descendants are neither flagged nor tracked, with tracked
  objects added to it, is cleaned to itself.
\<close>

lemma remove_added:
  assumes "list_all (\<lambda>c. \<not> P c) (concat (map traverse (children B)))"
    and "list_all P objs"
  shows "remove_where P (addAll objs B) = B"
  using remove_where_addAll[OF assms(2)] remove_where_id[OF assms(1)] by simp

lemma addAll_append: "addAll ys (addAll xs obj) = addAll (xs @ ys) obj"
  by (simp add: addAll_def)

lemma add_addAll: "add obj c = addAll [c] obj"
  by (simp add: addAll_def)

section \<open>The state a rebuild creates\<close>

lemma createVisualization_none:
  "containerDataOf pr = None \<Longrightarrow> createVisualization pf pr t = t"
  by (simp add: createVisualization_def)

lemma createVisualization_packed:
  fixes pf pr t cw ch cd
  defines "meshes \<equiv> createPackedItems pf cw ch cd 0 (nextObjectId t + 17) (itemsOf pr)"
  assumes "containerDataOf pr = Some c" and "sceneRef t = Some B"
    and "containerDimensions pf c = (cw, ch, cd)" and "unpackedItemsOf pr = []"
  shows "sceneRef (createVisualization pf pr t) =
           Some (addAll meshes (add B (createContainer cw ch cd (nextObjectId t))))"
    and "containerGroupRef (createVisualization pf pr t) = Some (createContainer cw ch cd (nextObjectId t))"
    and "itemMeshesRef (createVisualization pf pr t) = meshes"
    and "unpackedAreaGroupRef (createVisualization pf pr t) = unpackedAreaGroupRef t"
    and "dashedLinesRef (createVisualization pf pr t) = dashedLinesRef t"
    and "unpackedMeshesRef (createVisualization pf pr t) = unpackedMeshesRef t"
    and "separatorLineRef (createVisualization pf pr t) = separatorLineRef t"
    and "nextObjectId (createVisualization pf pr t) = nextObjectId t + 17 + 2 * length meshes"
  using assms(2-) unfolding meshes_def
  by (simp_all add: createVisualization_def Let_def)

lemma createVisualization_unpacked:
  fixes pf pr t cw ch cd
  defines "meshes \<equiv> createPackedItems pf cw ch cd 0 (nextObjectId t + 17) (itemsOf pr)"
  defines "n2 \<equiv> nextObjectId t + 17 + 2 * length meshes"
  defines "um \<equiv> unpackedMeshes pf cw ch cd n2 (unpackedItemsOf pr)"
  defines "m \<equiv> n2 + 2 + length (unpackedAreaDashes cw ch cd n2) + 2 * length um"
  assumes "containerDataOf pr = Some c" and "sceneRef t = Some B"
    and "containerDimensions pf c = (cw, ch, cd)" and "unpackedItemsOf pr \<noteq> []"
  shows "sceneRef (createVisualization pf pr t) =
           Some (add (addAll um (add (addAll meshes (add B (createContainer cw ch cd (nextObjectId t))))
                                    (unpackedAreaGroup cw ch cd n2)))
                     (separatorLine cw ch m))"
    and "containerGroupRef (createVisualization pf pr t) = Some (createContainer cw ch cd (nextObjectId t))"
    and "itemMeshesRef (createVisualization pf pr t) = meshes"
    and "unpackedAreaGroupRef (createVisualization pf pr t) = Some (unpackedAreaGroup cw ch cd n2)"
    and "dashedLinesRef (createVisualization pf pr t) = unpackedAreaDashes cw ch cd n2"
    and "unpackedMeshesRef (createVisualization pf pr t) = um"
    and "separatorLineRef (createVisualization pf pr t) = Some (separatorLine cw ch m)"
    and "nextObjectId (createVisualization pf pr t) = m + 1"
  using assms(5-) unfolding meshes_def n2_def um_def m_def
  by (simp_all add: createVisualization_def createUnpackedArea_def Let_def add_ac)

text \<open>The added objects as one list: the scene is the cleaned scene with the list appended.\<close>

lemma scene_as_addAll:
  "addAll meshes (add B cg) = addAll (cg # meshes) B"
  "add (addAll um (add (addAll meshes (add B cg)) ag)) sep = addAll (cg # meshes @ ag # um @ [sep]) B"
  by (simp_all add: addAll_def)

section \<open>Identities of the created objects\<close>

lemma oid_createContainer [simp]: "oid (createContainer cw ch cd n) = n"
  by (simp add: createContainer_def Let_def)

lemma oid_unpackedAreaGroup [simp]: "oid (unpackedAreaGroup cw ch cd n) = n"
  by (simp add: unpackedAreaGroup_def Let_def)

lemma oid_separatorLine [simp]: "oid (separatorLine cw ch n) = n"
  by (simp add: separatorLine_def)

lemma oids_enumerate_map:
  "oid ` set (map (\<lambda>(k, x). Object3D (n + k) kd p (g x) mt u []) (enumerate i xs)) \<subseteq> {n + i ..}"
  by (auto simp: in_set_enumerate_eq)

lemma oids_createDashedBox: "obj \<in> set (createDashedBox w h d x y z n) \<Longrightarrow> n \<le> oid obj"
proof -
  assume a: "obj \<in> set (createDashedBox w h d x y z n)"
  have "(\<lambda>(k, (start, end')). Object3D (n + k) Line (vec x y z) (SegmentGeometry start end') LineMaterial UDashedLine [])
       = (\<lambda>(k, e). Object3D (n + k) Line (vec x y z) (case e of (start, end') \<Rightarrow> SegmentGeometry start end') LineMaterial UDashedLine [])"
    by (auto simp: fun_eq_iff)
  then have "oid ` set (createDashedBox w h d x y z n) \<subseteq> {n + 0 ..}"
    using oids_enumerate_map[of n Line "vec x y z" "\<lambda>e. case e of (start, end') \<Rightarrow> SegmentGeometry start end'"
        LineMaterial UDashedLine 0 "boxEdges (w / 2) (h / 2) (d / 2)"]
    by (simp add: createDashedBox_def)
  with a show ?thesis by auto
qed

lemma oids_unpackedAreaDashes: "obj \<in> set (unpackedAreaDashes cw ch cd n) \<Longrightarrow> n \<le> oid obj"
  using oids_createDashedBox by (fastforce simp: unpackedAreaDashes_def)

lemma oids_packed_ge: "obj \<in> set (createPackedItems pf cw ch cd i n items) \<Longrightarrow> n \<le> oid obj"
proof -
  assume "obj \<in> set (createPackedItems pf cw ch cd i n items)"
  then have "oid obj \<in> set (map oid (createPackedItems pf cw ch cd i n items))" by simp
  then show ?thesis unfolding oids_createPackedItems by auto
qed

lemma oids_unpacked_ge: "obj \<in> set (createUnpackedItems pf ax ad i n items) \<Longrightarrow> n \<le> oid obj"
proof -
  assume "obj \<in> set (createUnpackedItems pf ax ad i n items)"
  then have "oid obj \<in> set (map oid (createUnpackedItems pf ax ad i n items))" by simp
  then show ?thesis unfolding oids_createUnpackedItems by auto
qed

lemma oids_unpackedMeshes_ge: "obj \<in> set (unpackedMeshes pf cw ch cd n us) \<Longrightarrow> n \<le> oid obj"
  using oids_unpacked_ge by (fastforce simp: unpackedMeshes_def)

section \<open>A rebuild after a rebuild\<close>

lemma tracked_Nil:
  assumes "tracked t = []"
  shows "separatorLineRef t = None" "dashedLinesRef t = []" "itemMeshesRef t = []"
    "unpackedMeshesRef t = []" "containerGroupRef t = None" "unpackedAreaGroupRef t = None"
proof -
  have r: "\<And>x. refList x = [] \<Longrightarrow> x = None"
    subgoal for x by (cases x) simp_all
    done
  from assms show "separatorLineRef t = None" "dashedLinesRef t = []" "itemMeshesRef t = []"
    "unpackedMeshesRef t = []" "containerGroupRef t = None" "unpackedAreaGroupRef t = None"
    by (auto simp: tracked_def intro: r)
qed

text \<open>The objects a rebuild tracks were all created by it: none is older than the state it started from.\<close>

lemma tracked_created_ge:
  assumes sc: "sceneRef t = Some B" and tr: "tracked t = []"
    and obj: "obj \<in> set (tracked (createVisualization pf pr t))"
  shows "nextObjectId t \<le> oid obj"
proof (cases "containerDataOf pr")
  case None
  then show ?thesis using obj tr by (simp add: createVisualization_none)
next
  case (Some c)
  obtain cw ch cd where d: "containerDimensions pf c = (cw, ch, cd)"
    by (cases "containerDimensions pf c") auto
  let ?n = "nextObjectId t"
  let ?meshes = "createPackedItems pf cw ch cd 0 (?n + 17) (itemsOf pr)"
  have pk: "?n \<le> oid x" if "x \<in> set ?meshes" for x
    using oids_packed_ge[OF that] by simp
  show ?thesis
  proof (cases "unpackedItemsOf pr = []")
    case True
    note f = createVisualization_packed[OF Some sc d True]
    have "tracked (createVisualization pf pr t) = ?meshes @ [createContainer cw ch cd ?n]"
      by (simp add: tracked_def f tracked_Nil[OF tr])
    then show ?thesis using obj pk by auto
  next
    case False
    note f = createVisualization_unpacked[OF Some sc d False]
    let ?n2 = "?n + 17 + 2 * length ?meshes"
    let ?um = "unpackedMeshes pf cw ch cd ?n2 (unpackedItemsOf pr)"
    let ?m = "?n2 + 2 + length (unpackedAreaDashes cw ch cd ?n2) + 2 * length ?um"
    have t: "tracked (createVisualization pf pr t) =
        [separatorLine cw ch ?m] @ unpackedAreaDashes cw ch cd ?n2 @ ?meshes @ ?um @
        [createContainer cw ch cd ?n] @ [unpackedAreaGroup cw ch cd ?n2]"
      by (simp add: tracked_def f)
    have "?n \<le> oid x" if "x \<in> set (unpackedAreaDashes cw ch cd ?n2)" for x
      using oids_unpackedAreaDashes[OF that] by simp
    moreover have "?n \<le> oid x" if "x \<in> set ?um" for x
      using oids_unpackedMeshes_ge[OF that] by simp
    ultimately show ?thesis using obj pk unfolding t by auto
  qed
qed

text \<open>Every object a rebuild adds to the scene as a child is tracked by a ref.\<close>

lemma created_scene:
  assumes sc: "sceneRef t = Some B" and tr: "tracked t = []"
  shows "\<exists>objs. sceneRef (createVisualization pf pr t) = Some (addAll objs B)
           \<and> set objs \<subseteq> set (tracked (createVisualization pf pr t))"
proof (cases "containerDataOf pr")
  case None
  have "sceneRef (createVisualization pf pr t) = Some (addAll [] B)"
    using None sc by (simp add: createVisualization_none addAll_def)
  then show ?thesis by (intro exI[of _ "[]"]) simp
next
  case (Some c)
  obtain cw ch cd where d: "containerDimensions pf c = (cw, ch, cd)"
    by (cases "containerDimensions pf c") auto
  show ?thesis
  proof (cases "unpackedItemsOf pr = []")
    case True
    note f = createVisualization_packed[OF Some sc d True]
    show ?thesis
      by (rule exI[of _ "createContainer cw ch cd (nextObjectId t) #
            createPackedItems pf cw ch cd 0 (nextObjectId t + 17) (itemsOf pr)"])
         (auto simp: f scene_as_addAll tracked_def)
  next
    case False
    note f = createVisualization_unpacked[OF Some sc d False]
    let ?n = "nextObjectId t"
    let ?meshes = "createPackedItems pf cw ch cd 0 (?n + 17) (itemsOf pr)"
    let ?n2 = "?n + 17 + 2 * length ?meshes"
    let ?um = "unpackedMeshes pf cw ch cd ?n2 (unpackedItemsOf pr)"
    let ?m = "?n2 + 2 + length (unpackedAreaDashes cw ch cd ?n2) + 2 * length ?um"
    have "sceneRef (createVisualization pf pr t) =
        Some (addAll (createContainer cw ch cd ?n # ?meshes @ unpackedAreaGroup cw ch cd ?n2 # ?um @
                      [separatorLine cw ch ?m]) B)"
      unfolding f(1) by (simp only: scene_as_addAll(2))
    moreover have "set (createContainer cw ch cd ?n # ?meshes @ unpackedAreaGroup cw ch cd ?n2 # ?um @
                      [separatorLine cw ch ?m]) \<subseteq> set (tracked (createVisualization pf pr t))"
      by (auto simp: f tracked_def)
    ultimately show ?thesis by blast
  qed
qed

lemma cleaned_after_create:
  assumes sc: "sceneRef t = Some B" and tr: "tracked t = []"
    and fresh: "list_all (\<lambda>d. oid d < nextObjectId t) (traverse B)"
    and clean: "list_all (\<lambda>c. \<not> flagged c) (concat (map traverse (children B)))"
  shows "cleanedScene False (createVisualization pf pr t) = Some B"
proof -
  let ?s = "createVisualization pf pr t"
  let ?P = "\<lambda>c. oid c \<in> oid ` set (tracked ?s) \<or> flagged c"
  from created_scene[OF sc tr] obtain objs where
    o: "sceneRef ?s = Some (addAll objs B)" "set objs \<subseteq> set (tracked ?s)" by blast
  have a: "list_all ?P objs" using o(2) by (auto simp: list_all_iff)
  have b: "list_all (\<lambda>c. \<not> ?P c) (concat (map traverse (children B)))"
    unfolding list_all_iff
  proof
    fix d assume d: "d \<in> set (concat (map traverse (children B)))"
    then have "d \<in> set (traverse B)" using set_traverse[of B] by simp
    then have lt: "oid d < nextObjectId t" using fresh by (simp add: list_all_iff)
    have "oid d \<notin> oid ` set (tracked ?s)"
    proof
      assume "oid d \<in> oid ` set (tracked ?s)"
      then obtain x where "x \<in> set (tracked ?s)" "oid x = oid d" by auto
      then show False using tracked_created_ge[OF sc tr, of x pf pr] lt by simp
    qed
    moreover have "\<not> flagged d" using clean d by (auto simp: list_all_iff)
    ultimately show "\<not> ?P d" by simp
  qed
  show ?thesis
    unfolding cleanedScene_eq o(1) using remove_added[OF b a] by simp
qed

section \<open>The created objects up to their identity\<close>

lemma anonymous_add: "anonymous (add obj c) = add (anonymous obj) (anonymous c)"
  by (cases obj) simp

lemma anonymous_addAll: "anonymous (addAll objs obj) = addAll (map anonymous objs) (anonymous obj)"
proof (induction objs arbitrary: obj)
  case Nil
  then show ?case by (simp add: addAll_def)
next
  case (Cons c objs)
  have "addAll (c # objs) obj = addAll objs (add obj c)" by (simp add: addAll_def)
  moreover have "addAll (map anonymous (c # objs)) (anonymous obj)
      = addAll (map anonymous objs) (add (anonymous obj) (anonymous c))" by (simp add: addAll_def)
  ultimately show ?case using Cons by (simp add: anonymous_add)
qed

lemma anonymous_fields [simp]:
  "kind (anonymous obj) = kind obj"
  "obj_position (anonymous obj) = obj_position obj"
  by (cases obj; simp)+

lemma traverse_anonymous: "traverse (anonymous obj) = map anonymous (traverse obj)"
proof (induction obj)
  case (Object3D i k p g m u cs)
  have "concat (map traverse (map anonymous cs)) = map anonymous (concat (map traverse cs))"
    using Object3D.IH by (induction cs) simp_all
  then show ?case by simp
qed

lemma anonymous_createContainer:
  "anonymous (createContainer cw ch cd n) = anonymous (createContainer cw ch cd n')"
  by (simp add: createContainer_def Let_def cornerPoints_def)

lemma anonymous_itemMesh: "anonymous (itemMesh n e meta) = anonymous (itemMesh n' e meta)"
  by (simp add: itemMesh_def Let_def)

lemma anonymous_createPackedItems:
  "map anonymous (createPackedItems pf cw ch cd i n items) =
   map anonymous (createPackedItems pf cw ch cd i n' items)"
proof (induction items arbitrary: i n n')
  case Nil
  then show ?case by simp
next
  case (Cons item rest)
  show ?case
  proof (cases "packedItemData pf cw ch cd i item")
    case (Created meta)
    then show ?thesis
      using Cons[of "i + 1" "n + 2" "n' + 2"] anonymous_itemMesh[of n _ meta n']
      by simp
  next
    case Skipped
    then show ?thesis using Cons[of "i + 1" n n'] by simp
  next
    case Threw
    then show ?thesis using Cons[of "i + 1" n n'] by simp
  qed
qed

lemma anonymous_createUnpackedItems:
  "map anonymous (createUnpackedItems pf ax ad i n items) =
   map anonymous (createUnpackedItems pf ax ad i n' items)"
proof (induction items arbitrary: i n n')
  case Nil
  then show ?case by simp
next
  case (Cons item rest)
  show ?case
  proof (cases "unpackedItemData pf ax ad i item")
    case (Created meta)
    then show ?thesis
      using Cons[of "i + 1" "n + 2" "n' + 2"] anonymous_itemMesh[of n _ meta n']
      by simp
  next
    case Skipped
    then show ?thesis using Cons[of "i + 1" n n'] by simp
  next
    case Threw
    then show ?thesis using Cons[of "i + 1" n n'] by simp
  qed
qed

lemma anonymous_createDashedBox:
  "map anonymous (createDashedBox w h d x y z n) = map anonymous (createDashedBox w h d x y z n')"
  by (simp add: createDashedBox_def boxEdges_def)

lemma anonymous_unpackedAreaDashes:
  "map anonymous (unpackedAreaDashes cw ch cd n) = map anonymous (unpackedAreaDashes cw ch cd n')"
  unfolding unpackedAreaDashes_def by (rule anonymous_createDashedBox)

lemma anonymous_unpackedAreaGroup:
  "anonymous (unpackedAreaGroup cw ch cd n) = anonymous (unpackedAreaGroup cw ch cd n')"
  using anonymous_unpackedAreaDashes[of cw ch cd n n']
  by (simp add: unpackedAreaGroup_def Let_def)

lemma anonymous_unpackedMeshes:
  "map anonymous (unpackedMeshes pf cw ch cd n us) = map anonymous (unpackedMeshes pf cw ch cd n' us)"
  unfolding unpackedMeshes_def by (rule anonymous_createUnpackedItems)

lemma anonymous_separatorLine:
  "anonymous (separatorLine cw ch n) = anonymous (separatorLine cw ch n')"
  by (simp add: separatorLine_def)

text \<open>
  The shape of the state a rebuild creates is determined by the document and the
  cleaned scene it starts from.
\<close>

lemma created_shape:
  assumes "sceneRef t = Some B" and "sceneRef t' = Some B"
    and "tracked t = []" and "tracked t' = []"
  shows "sceneShape (createVisualization pf pr t) = sceneShape (createVisualization pf pr t')
       \<and> refsShape (createVisualization pf pr t) = refsShape (createVisualization pf pr t')"
proof (cases "containerDataOf pr")
  case None
  then show ?thesis
    using assms by (simp add: createVisualization_none sceneShape_def refsShape_def tracked_Nil)
next
  case (Some c)
  obtain cw ch cd where d: "containerDimensions pf c = (cw, ch, cd)"
    by (cases "containerDimensions pf c") auto
  let ?cg = "\<lambda>t. createContainer cw ch cd (nextObjectId t)"
  let ?meshes = "\<lambda>t. createPackedItems pf cw ch cd 0 (nextObjectId t + 17) (itemsOf pr)"
  have cg: "anonymous (?cg t) = anonymous (?cg t')" by (rule anonymous_createContainer)
  have ms: "map anonymous (?meshes t) = map anonymous (?meshes t')" by (rule anonymous_createPackedItems)
  show ?thesis
  proof (cases "unpackedItemsOf pr = []")
    case True
    note f = createVisualization_packed[OF Some assms(1) d True]
    note f' = createVisualization_packed[OF Some assms(2) d True]
    have "sceneShape (createVisualization pf pr t) = sceneShape (createVisualization pf pr t')"
      unfolding sceneShape_def f f' by (simp only: option.map anonymous_addAll anonymous_add cg ms)
    moreover have "refsShape (createVisualization pf pr t) = refsShape (createVisualization pf pr t')"
      unfolding refsShape_def f f'
      by (simp only: option.map cg ms tracked_Nil[OF assms(3)] tracked_Nil[OF assms(4)])
    ultimately show ?thesis by simp
  next
    case False
    note f = createVisualization_unpacked[OF Some assms(1) d False]
    note f' = createVisualization_unpacked[OF Some assms(2) d False]
    let ?n2 = "\<lambda>t. nextObjectId t + 17 + 2 * length (?meshes t)"
    let ?um = "\<lambda>t. unpackedMeshes pf cw ch cd (?n2 t) (unpackedItemsOf pr)"
    let ?m = "\<lambda>t. ?n2 t + 2 + length (unpackedAreaDashes cw ch cd (?n2 t)) + 2 * length (?um t)"
    have ag: "anonymous (unpackedAreaGroup cw ch cd (?n2 t)) = anonymous (unpackedAreaGroup cw ch cd (?n2 t'))"
      by (rule anonymous_unpackedAreaGroup)
    have da: "map anonymous (unpackedAreaDashes cw ch cd (?n2 t))
                = map anonymous (unpackedAreaDashes cw ch cd (?n2 t'))"
      by (rule anonymous_unpackedAreaDashes)
    have um: "map anonymous (?um t) = map anonymous (?um t')"
      by (rule anonymous_unpackedMeshes)
    have sp: "anonymous (separatorLine cw ch (?m t)) = anonymous (separatorLine cw ch (?m t'))"
      by (rule anonymous_separatorLine)
    have "sceneShape (createVisualization pf pr t) = sceneShape (createVisualization pf pr t')"
      unfolding sceneShape_def f f'
      by (simp only: option.map anonymous_addAll anonymous_add cg ms ag um sp)
    moreover have "refsShape (createVisualization pf pr t) = refsShape (createVisualization pf pr t')"
      unfolding refsShape_def f f'
      by (simp only: option.map cg ms ag da um sp)
    ultimately show ?thesis by simp
  qed
qed

section \<open>Rebuilding twice\<close>

lemma isInitialized_createVisualization:
  "isInitialized (createVisualization pf pr t) = isInitialized t"
  by (auto simp: createVisualization_def createUnpackedArea_def Let_def
      split: option.splits prod.splits)

lemma isInitialized_rebuild:
  "isInitialized (rebuild pf pr s) = isInitialized s"
  by (cases pr) (simp_all add: rebuild_def Let_def isInitialized_createVisualization cleanupScene_fields)

lemma kinds_of_shape:
  assumes "sceneShape a = sceneShape b"
  shows "map kind (sceneObjects a) = map kind (sceneObjects b)"
proof -
  have k: "map kind (traverse x) = map kind (traverse (anonymous x))" for x
    by (simp add: traverse_anonymous comp_def)
  show ?thesis
  proof (cases "sceneRef a")
    case None
    with assms have "sceneRef b = None" by (simp add: sceneShape_def)
    with None show ?thesis by (simp add: sceneObjects_def)
  next
    case (Some x)
    with assms obtain y where y: "sceneRef b = Some y" "anonymous x = anonymous y"
      by (cases "sceneRef b") (simp_all add: sceneShape_def)
    have "map kind (traverse x) = map kind (traverse y)"
      using k[of x] k[of y] y(2) by simp
    with Some y(1) show ?thesis by (simp add: sceneObjects_def)
  qed
qed

lemma count_by_kind:
  "length (filter (\<lambda>obj. kind obj = k) objs) = length (filter (\<lambda>x. x = k) (map kind objs))"
  by (simp add: filter_map comp_def)

lemma length_refList_anonymous:
  "map_option anonymous x = map_option anonymous y \<Longrightarrow> length (refList x) = length (refList y)"
  by (cases x; cases y) simp_all

lemma positions_anonymous:
  assumes "map anonymous xs = map anonymous ys"
  shows "map obj_position xs = map obj_position ys"
proof -
  have "map obj_position zs = map obj_position (map anonymous zs)" for zs
    by (simp add: comp_def)
  then show ?thesis using assms by metis
qed

lemma counts_of_shape:
  assumes sc: "sceneShape a = sceneShape b" and rf: "refsShape a = refsShape b"
  shows "resourceCounts a = resourceCounts b" and "itemCenters a = itemCenters b"
proof -
  from rf have r:
    "map anonymous (itemMeshesRef a) = map anonymous (itemMeshesRef b)"
    "map anonymous (unpackedMeshesRef a) = map anonymous (unpackedMeshesRef b)"
    "map anonymous (dashedLinesRef a) = map anonymous (dashedLinesRef b)"
    "map_option anonymous (containerGroupRef a) = map_option anonymous (containerGroupRef b)"
    "map_option anonymous (unpackedAreaGroupRef a) = map_option anonymous (unpackedAreaGroupRef b)"
    "map_option anonymous (separatorLineRef a) = map_option anonymous (separatorLineRef b)"
    by (simp_all add: refsShape_def)
  have len: "length xs = length ys" if "map anonymous xs = map anonymous ys" for xs ys
    using that map_eq_imp_length_eq by blast
  show "resourceCounts a = resourceCounts b"
    unfolding resourceCounts_def
    by (simp only: count_by_kind kinds_of_shape[OF sc] len[OF r(1)] len[OF r(2)] len[OF r(3)]
        length_refList_anonymous[OF r(4)] length_refList_anonymous[OF r(5)]
        length_refList_anonymous[OF r(6)])
  show "itemCenters a = itemCenters b"
    unfolding itemCenters_def liveMeshes_def
    by (simp only: map_append positions_anonymous[OF r(1)] positions_anonymous[OF r(2)])
qed

text \<open>
  A rebuild from a state with a scene, after the initialisation: the clean-up leaves a
  base scene, and the rebuild creates the visualisation on it.
\<close>

lemma rebuild_from_base:
  assumes "sceneRef s \<noteq> None" and "isInitialized s"
  obtains t B where "rebuild pf (Some pr) s = createVisualization pf pr t"
    and "sceneRef t = Some B" and "tracked t = []" and "nextObjectId t = nextObjectId s"
    and "cleanedScene False s = Some B"
proof -
  let ?t = "(cleanupScene False s)\<lparr>itemMeshesRef := [], unpackedMeshesRef := []\<rparr>"
  obtain B where B: "cleanedScene False s = Some B"
    using assms(1) cleanedScene_None[of False s] by (cases "cleanedScene False s") auto
  have "rebuild pf (Some pr) s = createVisualization pf pr ?t"
    using assms by (auto simp add: rebuild_def Let_def)
  moreover have "sceneRef ?t = Some B" by (simp add: cleanupScene_fields B)
  moreover have "tracked ?t = []" by (simp add: tracked_def cleanupScene_fields)
  moreover have "nextObjectId ?t = nextObjectId s" by (simp add: cleanupScene_fields)
  ultimately show ?thesis using that B by blast
qed

lemma rebuild_twice_shape:
  assumes "idsFresh s"
  shows "sceneShape (rebuild pf pr (rebuild pf pr s)) = sceneShape (rebuild pf pr s)
       \<and> refsShape (rebuild pf pr (rebuild pf pr s)) = refsShape (rebuild pf pr s)"
proof (cases pr)
  case None
  then show ?thesis by (simp add: rebuild_def)
next
  case (Some p)
  show ?thesis
  proof (cases "sceneRef s = None \<or> \<not> isInitialized s")
    case True
    then have "rebuild pf pr s = s" using Some by (auto simp: rebuild_def)
    then show ?thesis by simp
  next
    case False
    then have s: "sceneRef s \<noteq> None" "isInitialized s" by simp_all
    from rebuild_from_base[OF s, of pf p] obtain t B where
      t: "rebuild pf (Some p) s = createVisualization pf p t"
      "sceneRef t = Some B" "tracked t = []" "nextObjectId t = nextObjectId s"
      "cleanedScene False s = Some B" by blast
    let ?s1 = "rebuild pf (Some p) s"
    have s1: "sceneRef ?s1 \<noteq> None" "isInitialized ?s1"
      using s rebuild_keeps(3)[of pf "Some p" s] by (simp_all add: isInitialized_rebuild)
    from rebuild_from_base[OF s1, of pf p] obtain t' B' where
      t': "rebuild pf (Some p) ?s1 = createVisualization pf p t'"
      "sceneRef t' = Some B'" "tracked t' = []"
      "cleanedScene False ?s1 = Some B'" by blast
    have fresh: "list_all (\<lambda>d. oid d < nextObjectId t) (traverse B)"
      using cleanedScene_clean(2)[OF t(5)] assms
      by (auto simp: idsFresh_def list_all_iff t(4))
    have "cleanedScene False ?s1 = Some B"
      unfolding t(1)
      by (rule cleaned_after_create[OF t(2) t(3) fresh cleanedScene_clean(1)[OF t(5)]])
    with t'(4) have "B' = B" by simp
    with t'(2) have b: "sceneRef t' = Some B" by simp
    have e2: "rebuild pf pr (rebuild pf pr s) = createVisualization pf p t'"
      using t'(1) by (simp add: Some)
    have e1: "rebuild pf pr s = createVisualization pf p t"
      using t(1) by (simp add: Some)
    show ?thesis
      unfolding e2 unfolding e1
      by (rule created_shape[OF b t(2) t'(3) t(3)])
  qed
qed

section \<open>Fresh object identities\<close>

lemma oids_traverse_addAll:
  "oid ` set (traverse (addAll objs obj)) =
     oid ` set (traverse obj) \<union> oid ` (\<Union>c \<in> set objs. set (traverse c))"
proof (induction objs arbitrary: obj)
  case Nil
  then show ?case by (simp add: addAll_def)
next
  case (Cons c objs)
  have "addAll (c # objs) obj = addAll objs (add obj c)" by (simp add: addAll_def)
  then show ?case using Cons[of "add obj c"] by (auto simp: oids_traverse_add)
qed

lemma below_createContainer:
  "d \<in> set (traverse (createContainer cw ch cd n)) \<Longrightarrow> oid d < n + 17"
  by (auto simp: createContainer_def Let_def cornerPoints_def)

lemma traverse_itemMesh:
  "d \<in> set (traverse (itemMesh n e meta)) \<Longrightarrow> oid d = n \<or> oid d = n + 1"
  by (auto simp: itemMesh_def Let_def)

lemma below_createPackedItems:
  assumes "m \<in> set (createPackedItems pf cw ch cd i n items)" and "d \<in> set (traverse m)"
  shows "oid d < n + 2 * length (createPackedItems pf cw ch cd i n items)"
  using assms
proof (induction items arbitrary: i n)
  case Nil
  then show ?case by simp
next
  case (Cons item rest)
  show ?case
  proof (cases "packedItemData pf cw ch cd i item")
    case (Created meta)
    with Cons.prems(1) have "m = itemMesh n 0x222222 meta
        \<or> m \<in> set (createPackedItems pf cw ch cd (i + 1) (n + 2) rest)" by simp
    then show ?thesis
    proof
      assume "m = itemMesh n 0x222222 meta"
      with Cons.prems(2) have "oid d = n \<or> oid d = n + 1"
        using traverse_itemMesh by blast
      then show ?thesis using Created by auto
    next
      assume "m \<in> set (createPackedItems pf cw ch cd (i + 1) (n + 2) rest)"
      from Cons.IH[OF this Cons.prems(2)] show ?thesis using Created by simp
    qed
  next
    case Skipped
    with Cons.prems(1) have "m \<in> set (createPackedItems pf cw ch cd (i + 1) n rest)" by simp
    from Cons.IH[OF this Cons.prems(2)] show ?thesis using Skipped by simp
  next
    case Threw
    with Cons.prems(1) have "m \<in> set (createPackedItems pf cw ch cd (i + 1) n rest)" by simp
    from Cons.IH[OF this Cons.prems(2)] show ?thesis using Threw by simp
  qed
qed

lemma below_createUnpackedItems:
  assumes "m \<in> set (createUnpackedItems pf ax ad i n items)" and "d \<in> set (traverse m)"
  shows "oid d < n + 2 * length (createUnpackedItems pf ax ad i n items)"
  using assms
proof (induction items arbitrary: i n)
  case Nil
  then show ?case by simp
next
  case (Cons item rest)
  show ?case
  proof (cases "unpackedItemData pf ax ad i item")
    case (Created meta)
    with Cons.prems(1) have "m = itemMesh n 0x331111 meta
        \<or> m \<in> set (createUnpackedItems pf ax ad (i + 1) (n + 2) rest)" by simp
    then show ?thesis
    proof
      assume "m = itemMesh n 0x331111 meta"
      with Cons.prems(2) have "oid d = n \<or> oid d = n + 1"
        using traverse_itemMesh by blast
      then show ?thesis using Created by auto
    next
      assume "m \<in> set (createUnpackedItems pf ax ad (i + 1) (n + 2) rest)"
      from Cons.IH[OF this Cons.prems(2)] show ?thesis using Created by simp
    qed
  next
    case Skipped
    with Cons.prems(1) have "m \<in> set (createUnpackedItems pf ax ad (i + 1) n rest)" by simp
    from Cons.IH[OF this Cons.prems(2)] show ?thesis using Skipped by simp
  next
    case Threw
    with Cons.prems(1) have "m \<in> set (createUnpackedItems pf ax ad (i + 1) n rest)" by simp
    from Cons.IH[OF this Cons.prems(2)] show ?thesis using Threw by simp
  qed
qed

lemma below_createDashedBox:
  assumes "obj \<in> set (createDashedBox w h d x y z n)"
  shows "oid obj < n + length (createDashedBox w h d x y z n)" and "children obj = []"
  using assms by (auto simp: createDashedBox_def in_set_enumerate_eq split: if_splits)

lemma concat_traverse_leaves:
  "(\<And>x. x \<in> set xs \<Longrightarrow> traverse x = [x]) \<Longrightarrow> concat (map traverse xs) = xs"
  by (induction xs) simp_all

lemma below_unpackedAreaGroup:
  assumes "d \<in> set (traverse (unpackedAreaGroup cw ch cd n))"
  shows "oid d < n + 2 + length (unpackedAreaDashes cw ch cd n)"
proof -
  let ?ds = "unpackedAreaDashes cw ch cd n"
  let ?g = "unpackedAreaGroup cw ch cd n"
  have t: "traverse x = [x]" if "x \<in> set ?ds" for x
  proof -
    have "children x = []"
      using that unfolding unpackedAreaDashes_def by (rule below_createDashedBox(2))
    then show ?thesis by (cases x) simp
  qed
  have ds: "concat (map traverse ?ds) = ?ds"
    using t by (intro concat_traverse_leaves) simp
  obtain am where c: "children ?g = am # ?ds" and am: "oid am = n + 1" "traverse am = [am]"
    by (simp add: unpackedAreaGroup_def Let_def)
  from assms have "d = ?g \<or> d \<in> set (concat (map traverse (children ?g)))"
    using set_traverse[of ?g] by auto
  then have "d = ?g \<or> d = am \<or> d \<in> set ?ds"
    by (auto simp: c am(2) ds)
  moreover have "oid d < n + 2 + length ?ds" if "d \<in> set ?ds"
  proof -
    have "oid d < (n + 2) + length ?ds"
      using that unfolding unpackedAreaDashes_def by (rule below_createDashedBox(1))
    then show ?thesis by simp
  qed
  ultimately show ?thesis using am(1) by auto
qed

lemma idsFresh_createVisualization:
  assumes sc: "sceneRef t = Some B"
    and fresh: "\<And>d. d \<in> set (traverse B) \<Longrightarrow> oid d < nextObjectId t"
  shows "idsFresh (createVisualization pf pr t)"
proof (cases "containerDataOf pr")
  case None
  then show ?thesis
    using sc fresh by (simp add: createVisualization_none idsFresh_def sceneObjects_def list_all_iff)
next
  case (Some c)
  obtain cw ch cd where d: "containerDimensions pf c = (cw, ch, cd)"
    by (cases "containerDimensions pf c") auto
  let ?n = "nextObjectId t"
  let ?cg = "createContainer cw ch cd ?n"
  let ?meshes = "createPackedItems pf cw ch cd 0 (?n + 17) (itemsOf pr)"
  let ?n2 = "?n + 17 + 2 * length ?meshes"
  have cg: "oid x < ?n + 17" if "x \<in> set (traverse ?cg)" for x
    using that by (rule below_createContainer)
  have ms: "oid x < ?n2" if "m \<in> set ?meshes" "x \<in> set (traverse m)" for m x
    using below_createPackedItems[OF that] by simp
  show ?thesis
  proof (cases "unpackedItemsOf pr = []")
    case True
    note f = createVisualization_packed[OF Some sc d True]
    have "oid x < ?n2" if "x \<in> set (traverse (addAll (?cg # ?meshes) B))" for x
    proof -
      from that have "oid x \<in> oid ` set (traverse B)
          \<union> oid ` (\<Union>c \<in> set (?cg # ?meshes). set (traverse c))"
        using oids_traverse_addAll[of "?cg # ?meshes" B] by blast
      then show ?thesis using fresh cg ms by fastforce
    qed
    then show ?thesis
      unfolding idsFresh_def sceneObjects_def f(1) f(8) scene_as_addAll(1)
      by (simp add: list_all_iff)
  next
    case False
    note f = createVisualization_unpacked[OF Some sc d False]
    let ?ag = "unpackedAreaGroup cw ch cd ?n2"
    let ?um = "unpackedMeshes pf cw ch cd ?n2 (unpackedItemsOf pr)"
    let ?n3 = "?n2 + 2 + length (unpackedAreaDashes cw ch cd ?n2)"
    let ?m = "?n3 + 2 * length ?um"
    let ?sep = "separatorLine cw ch ?m"
    have ag: "oid x < ?n3" if "x \<in> set (traverse ?ag)" for x
      using that by (rule below_unpackedAreaGroup)
    have um: "oid x < ?m" if "m \<in> set ?um" "x \<in> set (traverse m)" for m x
      using below_createUnpackedItems[of m pf "cw + 15" "unpackedAreaDepth cd" 0 ?n3 "unpackedItemsOf pr" x] that
      by (simp add: unpackedMeshes_def add_ac)
    have sep: "oid x = ?m" if "x \<in> set (traverse ?sep)" for x
      using that by (simp add: separatorLine_def)
    have "oid x < ?m + 1" if "x \<in> set (traverse (addAll (?cg # ?meshes @ ?ag # ?um @ [?sep]) B))" for x
    proof -
      from that have "oid x \<in> oid ` set (traverse B)
          \<union> oid ` (\<Union>c \<in> set (?cg # ?meshes @ ?ag # ?um @ [?sep]). set (traverse c))"
        using oids_traverse_addAll[of "?cg # ?meshes @ ?ag # ?um @ [?sep]" B] by blast
      then consider "oid x \<in> oid ` set (traverse B)" | "oid x \<in> oid ` set (traverse ?cg)"
        | m where "m \<in> set ?meshes" "oid x \<in> oid ` set (traverse m)"
        | "oid x \<in> oid ` set (traverse ?ag)"
        | m where "m \<in> set ?um" "oid x \<in> oid ` set (traverse m)"
        | "oid x \<in> oid ` set (traverse ?sep)"
        by auto
      then show ?thesis
      proof cases
        case 1
        then show ?thesis using fresh by fastforce
      next
        case 2
        then show ?thesis using cg by fastforce
      next
        case 3
        then show ?thesis using ms by fastforce
      next
        case 4
        then show ?thesis using ag by fastforce
      next
        case 5
        then show ?thesis using um by fastforce
      next
        case 6
        then show ?thesis using sep by fastforce
      qed
    qed
    then show ?thesis
      unfolding idsFresh_def sceneObjects_def f(1) f(8) scene_as_addAll(2)
      by (simp add: list_all_iff add_ac)
  qed
qed

text \<open>The rebuild keeps the object identities fresh.\<close>

lemma idsFresh_rebuild:
  assumes "idsFresh s"
  shows "idsFresh (rebuild pf pr s)"
proof (cases pr)
  case None
  then show ?thesis using assms by (simp add: rebuild_def)
next
  case (Some p)
  show ?thesis
  proof (cases "sceneRef s = None \<or> \<not> isInitialized s")
    case True
    then have "rebuild pf pr s = s" using Some by (auto simp: rebuild_def)
    then show ?thesis using assms by simp
  next
    case False
    then have s: "sceneRef s \<noteq> None" "isInitialized s" by simp_all
    from rebuild_from_base[OF s, of pf p] obtain t B where
      t: "rebuild pf (Some p) s = createVisualization pf p t"
      "sceneRef t = Some B" "tracked t = []" "nextObjectId t = nextObjectId s"
      "cleanedScene False s = Some B" by blast
    have "oid d < nextObjectId t" if "d \<in> set (traverse B)" for d
      using cleanedScene_clean(2)[OF t(5)] assms that
      by (auto simp: idsFresh_def list_all_iff t(4))
    from idsFresh_createVisualization[OF t(2) this] show ?thesis
      by (simp add: Some t(1))
  qed
qed

lemma idsFresh_initialState: "idsFresh initialState"
  by (simp add: idsFresh_def sceneObjects_def initialState_def initialScene_def)

text \<open>
  So the identities are fresh in every state the component reaches from its initial
  state by rebuilds, whatever the documents are.
\<close>

lemma idsFresh_reachable:
  "idsFresh (fold (rebuild pf) docs initialState)"
proof -
  have "idsFresh (fold (rebuild pf) docs s)" if "idsFresh s" for s
    using that by (induction docs arbitrary: s) (simp_all add: idsFresh_rebuild)
  then show ?thesis using idsFresh_initialState by blast
qed

section \<open>Idempotence of the rebuild\<close>

text \<open>
  C3. Rebuild is idempotent: for every document, a second rebuild with the same
  document, right after the first, leaves a scene with the same resource counts and
  the same item centres as the first one left; the two scenes and the tracked objects
  are the same up to the identity of the objects, which the second rebuild creates
  anew. The state the rebuilds start from has fresh object identities (every object of
  its scene is older than the next identity), as every state has that the component
  reaches from its initial state by rebuilds (\<open>idsFresh_reachable\<close>).
\<close>

theorem C3_rebuild_idempotent:
  assumes "idsFresh s"
  shows "resourceCounts (rebuild pf pr (rebuild pf pr s)) = resourceCounts (rebuild pf pr s)
       \<and> itemCenters (rebuild pf pr (rebuild pf pr s)) = itemCenters (rebuild pf pr s)
       \<and> sceneShape (rebuild pf pr (rebuild pf pr s)) = sceneShape (rebuild pf pr s)
       \<and> refsShape (rebuild pf pr (rebuild pf pr s)) = refsShape (rebuild pf pr s)"
proof -
  note sh = rebuild_twice_shape[OF assms, of pf pr]
  from counts_of_shape[OF sh[THEN conjunct1] sh[THEN conjunct2]] sh
  show ?thesis by simp
qed

lemma mixedDocument_meshes:
  "length (itemMeshesRef (rebuild noNumber (Some mixedDocument) initialState)) = 1"
  "length (unpackedMeshesRef (rebuild noNumber (Some mixedDocument) initialState)) = 3"
proof -
  have h: "sceneRef initialState \<noteq> None" "isInitialized initialState"
    by (simp_all add: initialState_def)
  have c: "containerDataOf mixedDocument =
             Some \<lparr>width = JNum (Num 10), height = JNum (Num 5), depth = JNum (Num 5)\<rparr>"
    and cd: "containerDimensions noNumber
               \<lparr>width = JNum (Num 10), height = JNum (Num 5), depth = JNum (Num 5)\<rparr> = (10, 5, 5)"
    by (simp_all add: mixedDocument_def document_parts containerDimensions_numbers)
  show "length (itemMeshesRef (rebuild noNumber (Some mixedDocument) initialState)) = 1"
    using itemMeshes_rebuild[OF h c cd]
    by (simp add: mixedDocument_def document_parts scenarioCube_data)
  have u: "unpackedItemData pf 25 15 i (unpackedItem (numbers a b c)) =
     Created (placeUnpackedItem 25 15 i
       \<lparr>dimensions = numbers a b c, position = Missing, rotation = Missing,
        color = None, item_id = None, name = None, original_name = None, reason = None\<rparr>
       [Num a, Num b, Num c])" if "a \<noteq> 0" "b \<noteq> 0" "c \<noteq> 0" for pf i a b c
    using that by (simp add: unpackedItemData_def unpackedItem_def placedItem_def numbers_def)
  have m: "unpackedItemData pf 25 15 i (unpackedItem Missing) = Skipped" for pf i
    by (simp add: unpackedItemData_def unpackedItem_def placedItem_def)
  show "length (unpackedMeshesRef (rebuild noNumber (Some mixedDocument) initialState)) = 3"
    using unpackedMeshes_rebuild[OF h c cd]
    by (simp add: mixedDocument_def document_parts unpackedMeshes_def unpackedAreaDepth_def u m)
qed

text \<open>
  From the state after the initialisation, the document with one placed item and four
  unpacked entries (one of them without dimensions): four item meshes, and the second
  rebuild leaves the counts and the centres as the first.
\<close>

theorem C3_rebuild_idempotent_witness:
  "idsFresh initialState
   \<and> length (itemCenters (rebuild noNumber (Some mixedDocument) initialState)) = 4
   \<and> resourceCounts (rebuild noNumber (Some mixedDocument)
                       (rebuild noNumber (Some mixedDocument) initialState))
       = resourceCounts (rebuild noNumber (Some mixedDocument) initialState)
   \<and> itemCenters (rebuild noNumber (Some mixedDocument)
                       (rebuild noNumber (Some mixedDocument) initialState))
       = itemCenters (rebuild noNumber (Some mixedDocument) initialState)"
  using C3_rebuild_idempotent[OF idsFresh_initialState, of noNumber "Some mixedDocument"]
  by (simp add: idsFresh_initialState itemCenters_def liveMeshes_def mixedDocument_meshes)

end
